(* ===== verification/Prelude.thy ===== *)
theory Prelude
  imports Complex_Main "HOL-Library.AList"
begin

text \<open>
  What every component of the model shares: results that carry an exception (a sum type),
  computations over a world that may throw, the insertion ordered \<open>Map\<close> of JavaScript,
  the few string methods the sources call, and sorting by a key.

  Strings are \<open>char list\<close>. A \<open>char\<close> stands for one UTF-16 code unit, so the model covers
  the strings whose code units are below 256. Within that range the functions below are
  those of JavaScript.
\<close>

named_theorems io_simps \<open>unfolding rules of the computations over a world\<close>
named_theorems wp_rules \<open>introduction rules for the weakest precondition of the operations of a store\<close>
named_theorems preserves \<open>computations whose steps stay inside a preorder on worlds\<close>

section \<open>Results that may be an exception\<close>

fun ebind :: "'e + 'a \<Rightarrow> ('a \<Rightarrow> 'e + 'b) \<Rightarrow> 'e + 'b" where
  "ebind (Inl e) f = Inl e"
| "ebind (Inr a) f = f a"

text \<open>\<open>ensure b e\<close> is the guard \<open>if (!b) throw e\<close>.\<close>

definition ensure :: "bool \<Rightarrow> 'e \<Rightarrow> 'e + unit" where
  "ensure b e = (if b then Inr () else Inl e)"

fun emap_list :: "('a \<Rightarrow> 'e + 'b) \<Rightarrow> 'a list \<Rightarrow> 'e + 'b list" where
  "emap_list f [] = Inr []"
| "emap_list f (x # xs) = ebind (f x) (\<lambda>y. ebind (emap_list f xs) (\<lambda>ys. Inr (y # ys)))"

fun map_exn :: "('e \<Rightarrow> 'f) \<Rightarrow> 'e + 'a \<Rightarrow> 'f + 'a" where
  "map_exn g (Inl e) = Inl (g e)"
| "map_exn g (Inr a) = Inr a"

lemma ebind_Inr_iff [simp]: "ebind m f = Inr b \<longleftrightarrow> (\<exists>a. m = Inr a \<and> f a = Inr b)"
  by (cases m) auto

lemma ebind_Inl_iff: "ebind m f = Inl e \<longleftrightarrow> m = Inl e \<or> (\<exists>a. m = Inr a \<and> f a = Inl e)"
  by (cases m) auto

lemma ensure_Inr_iff [simp]: "ensure b e = Inr u \<longleftrightarrow> b"
  by (cases u) (simp add: ensure_def)

lemma ensure_Inl_iff [simp]: "ensure b e = Inl e' \<longleftrightarrow> \<not> b \<and> e' = e"
  by (auto simp: ensure_def)

lemma ensure_True [simp]: "ensure True e = Inr ()"
  by (simp add: ensure_def)

lemma ensure_False [simp]: "ensure False e = Inl e"
  by (simp add: ensure_def)

lemma map_exn_Inr_iff [simp]: "map_exn g m = Inr a \<longleftrightarrow> m = Inr a"
  by (cases m) auto

lemma map_exn_Inl_iff [simp]: "map_exn g m = Inl e \<longleftrightarrow> (\<exists>d. m = Inl d \<and> e = g d)"
  by (cases m) auto

lemma emap_list_Inr_iff:
  "emap_list f xs = Inr ys \<longleftrightarrow> list_all2 (\<lambda>x y. f x = Inr y) xs ys"
  by (induction xs arbitrary: ys) (auto simp: list_all2_Cons1)

section \<open>Computations over a world\<close>

text \<open>
  An asynchronous method of the sources is a function of the world (every store and every
  external effect it can reach) that returns a value or throws, and leaves a new world.
\<close>

type_synonym ('w, 'e, 'a) io = "'w \<Rightarrow> ('e + 'a) \<times> 'w"

definition io_return :: "'a \<Rightarrow> ('w, 'e, 'a) io" where
  "io_return a w = (Inr a, w)"

definition io_throw :: "'e \<Rightarrow> ('w, 'e, 'a) io" where
  "io_throw e w = (Inl e, w)"

definition io_lift :: "'e + 'a \<Rightarrow> ('w, 'e, 'a) io" where
  "io_lift r w = (r, w)"

definition io_bind :: "('w, 'e, 'a) io \<Rightarrow> ('a \<Rightarrow> ('w, 'e, 'b) io) \<Rightarrow> ('w, 'e, 'b) io" where
  "io_bind m f w = (case m w of (Inl e, w') \<Rightarrow> (Inl e, w') | (Inr a, w') \<Rightarrow> f a w')"

text \<open>\<open>try { m } catch (e) { h }\<close>: what \<open>m\<close> did to the world stays.\<close>

definition io_catch :: "('w, 'e, 'a) io \<Rightarrow> ('e \<Rightarrow> ('w, 'e, 'a) io) \<Rightarrow> ('w, 'e, 'a) io" where
  "io_catch m h w = (case m w of (Inl e, w') \<Rightarrow> h e w' | (Inr a, w') \<Rightarrow> (Inr a, w'))"

text \<open>An operation of one object, run on the part of the world that holds the object's state.\<close>

definition io_zoom :: "('w \<Rightarrow> 's) \<Rightarrow> ('s \<Rightarrow> 'w \<Rightarrow> 'w) \<Rightarrow> ('s, 'e, 'a) io \<Rightarrow> ('w, 'e, 'a) io" where
  "io_zoom get put m w = (case m (get w) of (r, s) \<Rightarrow> (r, put s w))"

lemma io_return_eq [simp, io_simps]: "io_return a w = (Inr a, w)"
  by (simp add: io_return_def)

lemma io_throw_eq [simp, io_simps]: "io_throw e w = (Inl e, w)"
  by (simp add: io_throw_def)

lemma io_lift_eq [simp, io_simps]: "io_lift r w = (r, w)"
  by (simp add: io_lift_def)

lemma io_bind_Inr_iff [simp]:
  "io_bind m f w = (Inr b, w'') \<longleftrightarrow> (\<exists>a w'. m w = (Inr a, w') \<and> f a w' = (Inr b, w''))"
  by (auto simp: io_bind_def split: prod.splits sum.splits)

lemma io_bind_Inl_iff:
  "io_bind m f w = (Inl e, w'') \<longleftrightarrow>
     m w = (Inl e, w'') \<or> (\<exists>a w'. m w = (Inr a, w') \<and> f a w' = (Inl e, w''))"
  by (auto simp: io_bind_def split: prod.splits sum.splits)

lemma io_bind_iff:
  "io_bind m f w = (r, w'') \<longleftrightarrow>
     (\<exists>e. m w = (Inl e, w'') \<and> r = Inl e) \<or> (\<exists>a w'. m w = (Inr a, w') \<and> f a w' = (r, w''))"
  by (auto simp: io_bind_def split: prod.splits sum.splits)

lemma io_bind_run: "m w = (Inr a, w') \<Longrightarrow> io_bind m f w = f a w'"
  by (simp add: io_bind_def)

lemma io_bind_fail: "m w = (Inl e, w') \<Longrightarrow> io_bind m f w = (Inl e, w')"
  by (simp add: io_bind_def)

lemma io_bind_lift [simp]: "io_bind (io_lift (Inr a)) f w = f a w"
  by (simp add: io_bind_def)

lemma io_bind_lift_fail [simp]: "io_bind (io_lift (Inl e)) f w = (Inl e, w)"
  by (simp add: io_bind_def)

lemma io_bind_throw [simp]: "io_bind (io_throw e) f w = (Inl e, w)"
  by (simp add: io_bind_def)

lemma io_bind_return [simp]: "io_bind (io_return a) f w = f a w"
  by (simp add: io_bind_def)

lemma io_catch_iff:
  "io_catch m h w = (r, w'') \<longleftrightarrow>
     (\<exists>a. m w = (Inr a, w'') \<and> r = Inr a) \<or> (\<exists>e w'. m w = (Inl e, w') \<and> h e w' = (r, w''))"
  by (auto simp: io_catch_def split: prod.splits sum.splits)

lemma io_zoom_iff:
  "io_zoom get put m w = (r, w') \<longleftrightarrow> (\<exists>s. m (get w) = (r, s) \<and> w' = put s w)"
  by (auto simp: io_zoom_def split: prod.splits)

text \<open>A run that has returned.\<close>

lemma run_ok: "isl (fst x) = False \<Longrightarrow> x = (Inr (projr (fst x)), snd x)"
  by (cases x; cases "fst x") auto

subsection \<open>Steps that stay inside a preorder\<close>

text \<open>
  \<open>stays R m\<close>: whatever \<open>m\<close> returns or throws, the world after it is related by \<open>R\<close>
  to the world before it. With \<open>R w w' = (I w \<longrightarrow> I w')\<close> this says that \<open>m\<close> keeps the
  invariant \<open>I\<close>; with equality of a view it says that \<open>m\<close> leaves that view alone.
\<close>

definition stays :: "('w \<Rightarrow> 'w \<Rightarrow> bool) \<Rightarrow> ('w, 'e, 'a) io \<Rightarrow> bool" where
  "stays R m \<longleftrightarrow> (\<forall>w r w'. m w = (r, w') \<longrightarrow> R w w')"

lemma staysI: "(\<And>w r w'. m w = (r, w') \<Longrightarrow> R w w') \<Longrightarrow> stays R m"
  by (auto simp: stays_def)

lemma staysD: "stays R m \<Longrightarrow> m w = (r, w') \<Longrightarrow> R w w'"
  by (auto simp: stays_def)

lemma stays_return [preserves]: "reflp R \<Longrightarrow> stays R (io_return a)"
  by (auto simp: stays_def reflp_def)

lemma stays_throw [preserves]: "reflp R \<Longrightarrow> stays R (io_throw e)"
  by (auto simp: stays_def reflp_def)

lemma stays_lift [preserves]: "reflp R \<Longrightarrow> stays R (io_lift r)"
  by (auto simp: stays_def reflp_def)

lemma stays_bind [preserves]:
  "transp R \<Longrightarrow> stays R m \<Longrightarrow> (\<And>a. stays R (f a)) \<Longrightarrow> stays R (io_bind m f)"
  unfolding stays_def io_bind_iff by (blast dest: transpD)

lemma stays_catch [preserves]:
  "transp R \<Longrightarrow> stays R m \<Longrightarrow> (\<And>e. stays R (h e)) \<Longrightarrow> stays R (io_catch m h)"
  unfolding stays_def io_catch_iff by (blast dest: transpD)

lemma stays_if [preserves]:
  "(b \<Longrightarrow> stays R m) \<Longrightarrow> (\<not> b \<Longrightarrow> stays R n) \<Longrightarrow> stays R (if b then m else n)"
  by simp

lemma stays_option [preserves]:
  "stays R m \<Longrightarrow> (\<And>x. stays R (f x)) \<Longrightarrow> stays R (case v of None \<Rightarrow> m | Some x \<Rightarrow> f x)"
  by (cases v) auto

lemma stays_sum [preserves]:
  "(\<And>x. stays R (f x)) \<Longrightarrow> (\<And>y. stays R (g y)) \<Longrightarrow>
     stays R (case v of Inl x \<Rightarrow> f x | Inr y \<Rightarrow> g y)"
  by (cases v) auto

lemma stays_let [preserves]: "stays R (f x) \<Longrightarrow> stays R (let y = x in f y)"
  by (simp add: Let_def)

lemma stays_prod [preserves]:
  "(\<And>x y. stays R (f x y)) \<Longrightarrow> stays R (case p of (x, y) \<Rightarrow> f x y)"
  by (cases p) simp

subsection \<open>Weakest preconditions\<close>

text \<open>
  \<open>wp m Q E w\<close>: started in \<open>w\<close>, \<open>m\<close> returns a value and a world that satisfy \<open>Q\<close>, or throws
  with an error and a world that satisfy \<open>E\<close>. A computation always ends in one of the two.
\<close>

definition wp :: "('w, 'e, 'a) io \<Rightarrow> ('a \<Rightarrow> 'w \<Rightarrow> bool) \<Rightarrow> ('e \<Rightarrow> 'w \<Rightarrow> bool) \<Rightarrow> 'w \<Rightarrow> bool" where
  "wp m Q E w \<longleftrightarrow> (case m w of (Inr a, w') \<Rightarrow> Q a w' | (Inl e, w') \<Rightarrow> E e w')"

lemma wpI:
  "(\<And>a w'. m w = (Inr a, w') \<Longrightarrow> Q a w') \<Longrightarrow> (\<And>e w'. m w = (Inl e, w') \<Longrightarrow> E e w') \<Longrightarrow> wp m Q E w"
  by (auto simp: wp_def split: prod.splits sum.splits)

lemma wp_Inr: "wp m Q E w \<Longrightarrow> m w = (Inr a, w') \<Longrightarrow> Q a w'"
  by (simp add: wp_def)

lemma wp_Inl: "wp m Q E w \<Longrightarrow> m w = (Inl e, w') \<Longrightarrow> E e w'"
  by (simp add: wp_def)

lemma wp_bind [wp_rules]: "wp m (\<lambda>a. wp (f a) Q E) E w \<Longrightarrow> wp (io_bind m f) Q E w"
  by (auto simp: wp_def io_bind_def split: prod.splits sum.splits)

lemma wp_catch [wp_rules]: "wp m Q (\<lambda>e. wp (h e) Q E) w \<Longrightarrow> wp (io_catch m h) Q E w"
  by (auto simp: wp_def io_catch_def split: prod.splits sum.splits)

lemma wp_return [wp_rules]: "Q a w \<Longrightarrow> wp (io_return a) Q E w"
  by (simp add: wp_def)

lemma wp_throw [wp_rules]: "E e w \<Longrightarrow> wp (io_throw e) Q E w"
  by (simp add: wp_def)

lemma wp_lift [wp_rules]:
  "(\<And>a. r = Inr a \<Longrightarrow> Q a w) \<Longrightarrow> (\<And>e. r = Inl e \<Longrightarrow> E e w) \<Longrightarrow> wp (io_lift r) Q E w"
  by (cases r) (simp_all add: wp_def)

lemma wp_if [wp_rules]:
  "(b \<Longrightarrow> wp m Q E w) \<Longrightarrow> (\<not> b \<Longrightarrow> wp n Q E w) \<Longrightarrow> wp (if b then m else n) Q E w"
  by simp

lemma wp_option [wp_rules]:
  "(v = None \<Longrightarrow> wp m Q E w) \<Longrightarrow> (\<And>x. v = Some x \<Longrightarrow> wp (f x) Q E w) \<Longrightarrow>
     wp (case v of None \<Rightarrow> m | Some x \<Rightarrow> f x) Q E w"
  by (cases v) auto

lemma wp_sum [wp_rules]:
  "(\<And>x. v = Inl x \<Longrightarrow> wp (f x) Q E w) \<Longrightarrow> (\<And>y. v = Inr y \<Longrightarrow> wp (g y) Q E w) \<Longrightarrow>
     wp (case v of Inl x \<Rightarrow> f x | Inr y \<Rightarrow> g y) Q E w"
  by (cases v) auto

text \<open>For a computation of which nothing is known; instantiate \<open>m\<close> before use.\<close>

lemma wp_any: "(\<And>a w'. Q a w') \<Longrightarrow> (\<And>e w'. E e w') \<Longrightarrow> wp m Q E w"
  by (auto simp: wp_def split: prod.splits sum.splits)

lemma wp_let [wp_rules]: "wp (f x) Q E w \<Longrightarrow> wp (let y = x in f y) Q E w"
  by (simp add: Let_def)

lemma wp_mono:
  "wp m Q E w \<Longrightarrow> (\<And>a w'. Q a w' \<Longrightarrow> Q' a w') \<Longrightarrow> (\<And>e w'. E e w' \<Longrightarrow> E' e w') \<Longrightarrow> wp m Q' E' w"
  by (auto simp: wp_def split: prod.splits sum.splits)

section \<open>The fields of an object\<close>

text \<open>
  The private mutable fields of one object are a part of the world. A cell reads and replaces
  that part. An object's own computations run on the part with \<open>io_cell\<close>.
\<close>

record ('w, 's) cell =
  cell_get :: "'w \<Rightarrow> 's"
  cell_put :: "'s \<Rightarrow> 'w \<Rightarrow> 'w"

definition io_cell :: "('w, 's) cell \<Rightarrow> ('s, 'e, 'a) io \<Rightarrow> ('w, 'e, 'a) io" where
  "io_cell C m = io_zoom (cell_get C) (cell_put C) m"

text \<open>A total computation on a state, such as a private method that cannot throw.\<close>

definition io_pure :: "('s \<Rightarrow> 'a \<times> 's) \<Rightarrow> ('s, 'e, 'a) io" where
  "io_pure f s = (case f s of (a, s') \<Rightarrow> (Inr a, s'))"

definition cell_laws :: "('w, 's) cell \<Rightarrow> bool" where
  "cell_laws C \<longleftrightarrow>
     (\<forall>s w. cell_get C (cell_put C s w) = s) \<and>
     (\<forall>s t w. cell_put C s (cell_put C t w) = cell_put C s w) \<and>
     (\<forall>w. cell_put C (cell_get C w) w = w)"

lemma cell_get_put [simp]: "cell_laws C \<Longrightarrow> cell_get C (cell_put C s w) = s"
  by (simp add: cell_laws_def)

lemma io_cell_iff:
  "io_cell C m w = (r, w') \<longleftrightarrow> (\<exists>s. m (cell_get C w) = (r, s) \<and> w' = cell_put C s w)"
  by (simp add: io_cell_def io_zoom_iff)

lemma stays_cell: "(\<And>w s. R w (cell_put C s w)) \<Longrightarrow> stays R (io_cell C m)"
  by (auto simp: stays_def io_cell_iff)

text \<open>A cell inside the part of the world that another cell reaches.\<close>

definition cell_in :: "('w, 's) cell \<Rightarrow> ('s, 't) cell \<Rightarrow> ('w, 't) cell" where
  "cell_in S C = \<lparr>cell_get = (\<lambda>w. cell_get C (cell_get S w)),
     cell_put = (\<lambda>t w. cell_put S (cell_put C t (cell_get S w)) w)\<rparr>"

lemma io_pure_iff [simp]: "io_pure f s = (r, s') \<longleftrightarrow> (\<exists>a. r = Inr a \<and> f s = (a, s'))"
  by (auto simp: io_pure_def split: prod.splits)

lemma wp_cell [wp_rules]:
  "wp m (\<lambda>a s. Q a (cell_put C s w)) (\<lambda>e s. E e (cell_put C s w)) (cell_get C w) \<Longrightarrow>
     wp (io_cell C m) Q E w"
  by (auto simp: wp_def io_cell_def io_zoom_def split: prod.splits sum.splits)

lemma wp_pure [wp_rules]: "(\<And>a s'. f s = (a, s') \<Longrightarrow> Q a s') \<Longrightarrow> wp (io_pure f) Q E s"
  by (auto simp: wp_def io_pure_def split: prod.splits)

section \<open>The Map of JavaScript\<close>

text \<open>
  A \<open>Map\<close> keeps its keys in the order of their first insertion: \<open>set\<close> on a key that is
  there replaces the value in place, on a new key it appends. That is \<open>AList.update\<close>.
\<close>

type_synonym ('k, 'v) js_map = "('k \<times> 'v) list"

abbreviation js_get :: "('k, 'v) js_map \<Rightarrow> 'k \<Rightarrow> 'v option" where
  "js_get m k \<equiv> map_of m k"

abbreviation js_set :: "'k \<Rightarrow> 'v \<Rightarrow> ('k, 'v) js_map \<Rightarrow> ('k, 'v) js_map" where
  "js_set k v m \<equiv> AList.update k v m"

abbreviation js_delete :: "'k \<Rightarrow> ('k, 'v) js_map \<Rightarrow> ('k, 'v) js_map" where
  "js_delete k m \<equiv> AList.delete k m"

abbreviation js_values :: "('k, 'v) js_map \<Rightarrow> 'v list" where
  "js_values m \<equiv> map snd m"

abbreviation js_keys_distinct :: "('k, 'v) js_map \<Rightarrow> bool" where
  "js_keys_distinct m \<equiv> distinct (map fst m)"

lemma js_get_set [simp]: "js_get (js_set k v m) k' = (if k' = k then Some v else js_get m k')"
  by (simp add: update_conv')

lemma js_get_delete [simp]: "js_get (js_delete k m) k' = (if k' = k then None else js_get m k')"
  by (simp add: delete_conv')

lemma js_set_distinct [simp, intro]: "js_keys_distinct m \<Longrightarrow> js_keys_distinct (js_set k v m)"
  by (rule distinct_update)

lemma js_get_mem: "js_keys_distinct m \<Longrightarrow> (k, v) \<in> set m \<longleftrightarrow> js_get m k = Some v"
  by (metis map_of_eq_Some_iff)

text \<open>Replacing the value of a key that is there changes the entry in place.\<close>

lemma js_set_in_place:
  "js_get m k = Some u \<Longrightarrow> js_keys_distinct m \<Longrightarrow>
     js_set k v m = map (\<lambda>(k', v'). (k', if k' = k then v else v')) m"
proof (induction m)
  case Nil
  then show ?case by simp
next
  case (Cons kv m)
  obtain k' v' where kv: "kv = (k', v')" by (cases kv)
  show ?case
  proof (cases "k' = k")
    case True
    have "map (\<lambda>(x, y). (x, if x = k then v else y)) m = m"
      using Cons.prems(2) kv True by (intro map_idI) (force simp: image_iff)
    with kv True show ?thesis by simp
  next
    case False
    with Cons kv show ?thesis by simp
  qed
qed

text \<open>\<open>new Map(entries)\<close>, whose last entry of a key counts.\<close>

definition js_map_of :: "('k \<times> 'v) list \<Rightarrow> ('k, 'v) js_map" where
  "js_map_of entries = foldl (\<lambda>m (k, v). js_set k v m) [] entries"

lemma js_map_of_get [simp]: "js_get (js_map_of entries) k = map_of (rev entries) k"
proof -
  have "js_get (foldl (\<lambda>m (k, v). js_set k v m) m entries) k =
      (case map_of (rev entries) k of None \<Rightarrow> js_get m k | Some v \<Rightarrow> Some v)" for m
    by (induction entries arbitrary: m) (auto simp: map_add_def split: option.split)
  then show ?thesis by (simp add: js_map_of_def split: option.split)
qed

text \<open>The ids for which the key \<open>id::agent\<close> is unambiguous.\<close>

definition plain_id :: "string \<Rightarrow> bool" where
  "plain_id tid \<longleftrightarrow> CHR '':'' \<notin> set tid"

lemma joined_key_inj:
  assumes "plain_id t1" "plain_id t2" "t1 @ ''::'' @ a1 = t2 @ ''::'' @ a2"
  shows "t1 = t2 \<and> a1 = a2"
proof -
  have "takeWhile (\<lambda>x. x \<noteq> CHR '':'') (t @ ''::'' @ a) = t" if "plain_id t" for t a
    using that by (induction t) (auto simp: plain_id_def)
  with assms have "t1 = t2" by metis
  with assms(3) show ?thesis by simp
qed

section \<open>Array methods\<close>

text \<open>\<open>slice(0, n)\<close>: a negative \<open>n\<close> counts from the end.\<close>

definition js_slice0 :: "int \<Rightarrow> 'a list \<Rightarrow> 'a list" where
  "js_slice0 n xs = (if 0 \<le> n then take (nat n) xs else take (length xs - nat (- n)) xs)"

definition js_last :: "'a list \<Rightarrow> 'a option" where
  "js_last xs = (if xs = [] then None else Some (last xs))"

lemma in_js_slice0: "x \<in> set (js_slice0 n xs) \<Longrightarrow> x \<in> set xs"
  by (auto simp: js_slice0_def split: if_split_asm dest: in_set_takeD)

lemma find_snoc:
  "find P (xs @ [x]) =
     (case find P xs of None \<Rightarrow> if P x then Some x else None | Some y \<Rightarrow> Some y)"
  by (induction xs) auto

lemma js_last_Nil [simp]: "js_last [] = None"
  by (simp add: js_last_def)

lemma js_last_snoc [simp]: "js_last (xs @ [x]) = Some x"
  by (simp add: js_last_def)

text \<open>
  \<open>sort((l, r) => f(l) - f(r))\<close> and \<open>sort((l, r) => f(r) - f(l))\<close>. Both are stable, as
  \<open>sort_key\<close> is.
\<close>

definition sort_asc :: "('a \<Rightarrow> int) \<Rightarrow> 'a list \<Rightarrow> 'a list" where
  "sort_asc f xs = sort_key f xs"

definition sort_desc :: "('a \<Rightarrow> int) \<Rightarrow> 'a list \<Rightarrow> 'a list" where
  "sort_desc f xs = sort_key (\<lambda>x. - f x) xs"

lemma set_sort_asc [simp]: "set (sort_asc f xs) = set xs"
  by (simp add: sort_asc_def)

lemma set_sort_desc [simp]: "set (sort_desc f xs) = set xs"
  by (simp add: sort_desc_def)

lemma sort_asc_sorted: "sorted (map f (sort_asc f xs))"
  by (simp add: sort_asc_def)

lemma sort_desc_Cons_max:
  "sort_desc f xs = y # ys \<Longrightarrow> x \<in> set xs \<Longrightarrow> f x \<le> f y"
proof -
  assume eq: "sort_desc f xs = y # ys" and mem: "x \<in> set xs"
  have "sorted (map (\<lambda>x. - f x) (y # ys))"
    unfolding eq [symmetric] sort_desc_def by simp
  moreover have "x \<in> set (y # ys)"
    using mem eq set_sort_desc [of f xs] by simp
  ultimately show "f x \<le> f y" by auto
qed

lemma sort_desc_Nil_iff [simp]: "sort_desc f xs = [] \<longleftrightarrow> xs = []"
  by (metis set_empty set_sort_desc)

section \<open>Strings\<close>

definition is_space :: "char \<Rightarrow> bool" where
  "is_space c \<longleftrightarrow>
     c \<in> {CHR 0x09, CHR 0x0A, CHR 0x0B, CHR 0x0C, CHR 0x0D, CHR 0x20, CHR 0xA0}"

definition trim_start :: "string \<Rightarrow> string" where
  "trim_start s = dropWhile is_space s"

definition trim :: "string \<Rightarrow> string" where
  "trim s = rev (trim_start (rev (trim_start s)))"

definition starts_with :: "string \<Rightarrow> string \<Rightarrow> bool" where
  "starts_with s p \<longleftrightarrow> take (length p) s = p"

fun split_on :: "char \<Rightarrow> string \<Rightarrow> string list" where
  "split_on d [] = [[]]"
| "split_on d (c # cs) =
     (if c = d then [] # split_on d cs
      else case split_on d cs of [] \<Rightarrow> [[c]] | w # ws \<Rightarrow> (c # w) # ws)"

fun join_with :: "string \<Rightarrow> string list \<Rightarrow> string" where
  "join_with d [] = []"
| "join_with d [w] = w"
| "join_with d (w # v # ws) = w @ d @ join_with d (v # ws)"

text \<open>The decimal text of an integer, as template literals and \<open>String(n)\<close> print it.\<close>

fun show_nat :: "nat \<Rightarrow> string" where
  "show_nat n =
     (if n < 10 then [char_of (48 + n)] else show_nat (n div 10) @ [char_of (48 + n mod 10)])"

declare show_nat.simps [simp del]

definition show_int :: "int \<Rightarrow> string" where
  "show_int i = (if i < 0 then CHR ''-'' # show_nat (nat (- i)) else show_nat (nat i))"

lemma trim_start_Nil [simp]: "trim_start [] = []"
  by (simp add: trim_start_def)

lemma trim_start_idem [simp]: "trim_start (trim_start s) = trim_start s"
  by (simp add: trim_start_def)

lemma trim_start_snoc:
  "\<not> is_space c \<Longrightarrow> trim_start (s @ [c]) = trim_start s @ [c]"
  by (induction s) (auto simp: trim_start_def)

lemma trim_start_rev_hd:
  "s = [] \<or> \<not> is_space (hd s) \<Longrightarrow> trim_start (rev s) = [] \<or> \<not> is_space (last (trim_start (rev s)))"
  by (cases s) (auto simp: trim_start_snoc)

lemma trim_start_hd: "trim_start s = [] \<or> \<not> is_space (hd (trim_start s))"
  unfolding trim_start_def using hd_dropWhile [of is_space s] by blast

lemma trim_start_fixed: "s = [] \<or> \<not> is_space (hd s) \<Longrightarrow> trim_start s = s"
  by (cases s) (auto simp: trim_start_def)

lemma trim_same: "s = [] \<or> \<not> is_space (hd s) \<and> \<not> is_space (last s) \<Longrightarrow> trim s = s"
  by (auto simp: trim_def trim_start_fixed hd_rev)

text \<open>Trimming twice is trimming once: what was trimmed starts and ends in a visible character.\<close>

lemma trim_ends: "trim s = [] \<or> \<not> is_space (hd (trim s)) \<and> \<not> is_space (last (trim s))"
proof (cases "trim s = []")
  case False
  let ?a = "trim_start s"
  let ?b = "trim_start (rev ?a)"
  have b: "trim s = rev ?b" by (simp add: trim_def)
  with False have bne: "?b \<noteq> []" by simp
  have "\<not> is_space (hd ?b)"
    using trim_start_hd [of "rev ?a"] bne by blast
  moreover have "\<not> is_space (last ?b)"
    using trim_start_rev_hd [OF trim_start_hd [of s]] bne by blast
  ultimately show ?thesis
    using b bne by (simp add: hd_rev last_rev)
qed simp

lemma trim_idem [simp]: "trim (trim s) = trim s"
proof -
  have "trim_start (trim s) = trim s"
    using trim_ends [of s] by (intro trim_start_fixed) blast
  moreover have "trim_start (rev (trim s)) = rev (trim s)"
    using trim_ends [of s] by (intro trim_start_fixed) (auto simp: hd_rev)
  ultimately show ?thesis
    by (simp add: trim_def [of "trim s"])
qed

lemma split_on_not_Nil [simp]: "split_on d s \<noteq> []"
  by (induction s) (auto split: list.splits)

lemma join_split_on [simp]: "join_with [d] (split_on d s) = s"
proof (induction s)
  case Nil
  then show ?case by simp
next
  case (Cons c cs)
  obtain w ws where sp: "split_on d cs = w # ws"
    by (cases "split_on d cs") auto
  with Cons.IH show ?case
    by (cases ws) auto
qed

lemma split_on_no_sep: "w \<in> set (split_on d s) \<Longrightarrow> d \<notin> set w"
proof (induction s arbitrary: w)
  case Nil
  then show ?case by simp
next
  case (Cons c cs)
  then show ?case
    by (cases "split_on d cs") (auto split: if_splits)
qed

lemma starts_with_self [simp]: "starts_with (p @ s) p"
  by (simp add: starts_with_def)

lemma starts_with_iff: "starts_with s p \<longleftrightarrow> (\<exists>r. s = p @ r)"
  unfolding starts_with_def by (metis append_eq_conv_conj append_take_drop_id)

end
