(* ===== verification/DomainCore.thy ===== *)
theory DomainCore
  imports Prelude "HOL-Library.List_Lexorder" "HOL-Library.Char_ord"
begin

text \<open>
  The values that reach the code unvalidated (numbers, dates, JSON) and the checks of
  \<open>packages/domain/src/errors.ts\<close> that turn them into validated ones. A \<open>Date\<close> that has
  passed \<open>requireDate\<close> is represented by its time value in milliseconds, a number that has
  passed an integer check by an \<open>int\<close>. The diagnostic \<open>context\<close> of an error is left out;
  its code and its message are kept.
\<close>

section \<open>Numbers, dates and JSON\<close>

datatype js_number = NaN | Infinite bool | Finite rat

abbreviation js_int :: "int \<Rightarrow> js_number" where
  "js_int n \<equiv> Finite (of_int n)"

fun isInteger :: "js_number \<Rightarrow> bool" where
  "isInteger (Finite r) = (of_int \<lfloor>r\<rfloor> = r)"
| "isInteger _ = False"

text \<open>\<open>v + 1\<close> on numbers; exact on the integers up to \<open>MAX_SAFE_INTEGER\<close>.\<close>

fun js_succ :: "js_number \<Rightarrow> js_number" where
  "js_succ (Finite r) = Finite (r + 1)"
| "js_succ v = v"

datatype js_date = InvalidDate | At int

datatype json = JNull | JBool bool | JNumber js_number | JString string
  | JArray "json list" | JObject "(string \<times> json) list"

text \<open>
  \<open>isDeepStrictEqual\<close> of \<open>node:util\<close> on JSON values: the order of an object's keys does not
  matter, that of an array's elements does.
\<close>

primrec json_norm :: "json \<Rightarrow> json" where
  "json_norm JNull = JNull"
| "json_norm (JBool b) = JBool b"
| "json_norm (JNumber n) = JNumber n"
| "json_norm (JString s) = JString s"
| "json_norm (JArray js) = JArray (map json_norm js)"
| "json_norm (JObject kvs) = JObject (sort_key fst (map (map_prod id json_norm) kvs))"

definition isDeepStrictEqual :: "json option \<Rightarrow> json option \<Rightarrow> bool" where
  "isDeepStrictEqual a b \<longleftrightarrow> map_option json_norm a = map_option json_norm b"

lemma isDeepStrictEqual_refl [simp]: "isDeepStrictEqual a a"
  by (simp add: isDeepStrictEqual_def)

section \<open>Domain errors and the require functions\<close>

datatype domain_error_code = D_INVALID_ARGUMENT | D_INVALID_THREAD_TRANSITION
  | D_SEQUENCE_VIOLATION | D_SEQUENCE_OVERFLOW | D_CURSOR_REGRESSION | D_SESSION_SCOPE_MISMATCH

datatype domain_error = DomainError (de_code: domain_error_code) (de_message: string)

definition quoted :: "string \<Rightarrow> string" where
  "quoted f = [CHR 0x22] @ f @ [CHR 0x22]"

definition invalid_argument :: "string \<Rightarrow> string \<Rightarrow> domain_error" where
  "invalid_argument field what = DomainError D_INVALID_ARGUMENT (quoted field @ what)"

definition requireDate :: "js_date \<Rightarrow> string \<Rightarrow> domain_error + int" where
  "requireDate v field =
     (case v of InvalidDate \<Rightarrow> Inl (invalid_argument field '' must be a valid date'')
      | At t \<Rightarrow> Inr t)"

definition requireNonEmptyString :: "string \<Rightarrow> string \<Rightarrow> domain_error + string" where
  "requireNonEmptyString v field =
     (let normalized = trim v
      in if length normalized = 0
         then Inl (invalid_argument field '' must be a non-empty string'')
         else Inr normalized)"

definition requireNonNegativeInteger :: "js_number \<Rightarrow> string \<Rightarrow> domain_error + int" where
  "requireNonNegativeInteger v field =
     (case v of
        Finite r \<Rightarrow>
          if \<not> isInteger v \<or> r < 0
          then Inl (invalid_argument field '' must be a non-negative integer'')
          else Inr \<lfloor>r\<rfloor>
      | _ \<Rightarrow> Inl (invalid_argument field '' must be a non-negative integer''))"

definition requirePositiveInteger :: "js_number \<Rightarrow> string \<Rightarrow> domain_error + int" where
  "requirePositiveInteger v field =
     (case v of
        Finite r \<Rightarrow>
          if \<not> isInteger v \<or> r \<le> 0
          then Inl (invalid_argument field '' must be a positive integer'')
          else Inr \<lfloor>r\<rfloor>
      | _ \<Rightarrow> Inl (invalid_argument field '' must be a positive integer''))"

lemma isInteger_iff: "isInteger v \<longleftrightarrow> (\<exists>n. v = js_int n)"
  by (cases v) (auto intro: exI [of _ "\<lfloor>r\<rfloor>" for r] simp: eq_commute)

lemma requireDate_Inr_iff [simp]: "requireDate v f = Inr t \<longleftrightarrow> v = At t"
  by (cases v) (auto simp: requireDate_def)

lemma requireDate_At [simp]: "requireDate (At t) f = Inr t"
  by simp

lemma requireNonEmptyString_Inr_iff [simp]:
  "requireNonEmptyString v f = Inr s \<longleftrightarrow> s = trim v \<and> trim v \<noteq> []"
  by (auto simp: requireNonEmptyString_def Let_def)

lemma requireNonEmptyString_trimmed [simp]:
  "trim v = v \<Longrightarrow> v \<noteq> [] \<Longrightarrow> requireNonEmptyString v f = Inr v"
  by simp

lemma requirePositiveInteger_Inr_iff [simp]:
  "requirePositiveInteger v f = Inr n \<longleftrightarrow> v = js_int n \<and> 0 < n"
  by (cases v) (auto simp: requirePositiveInteger_def)

lemma requireNonNegativeInteger_Inr_iff [simp]:
  "requireNonNegativeInteger v f = Inr n \<longleftrightarrow> v = js_int n \<and> 0 \<le> n"
  by (cases v) (auto simp: requireNonNegativeInteger_def)

lemma requirePositiveInteger_int [simp]: "0 < n \<Longrightarrow> requirePositiveInteger (js_int n) f = Inr n"
  by simp

lemma requireNonNegativeInteger_int [simp]:
  "0 \<le> n \<Longrightarrow> requireNonNegativeInteger (js_int n) f = Inr n"
  by simp

text \<open>Every failed check is an \<open>INVALID_ARGUMENT\<close>.\<close>

lemma require_Inl_code:
  "requireDate d f = Inl e \<Longrightarrow> de_code e = D_INVALID_ARGUMENT"
  "requireNonEmptyString s f = Inl e \<Longrightarrow> de_code e = D_INVALID_ARGUMENT"
  "requirePositiveInteger v f = Inl e \<Longrightarrow> de_code e = D_INVALID_ARGUMENT"
  "requireNonNegativeInteger v f = Inl e \<Longrightarrow> de_code e = D_INVALID_ARGUMENT"
  by (auto simp: requireDate_def requireNonEmptyString_def requirePositiveInteger_def
      requireNonNegativeInteger_def invalid_argument_def Let_def
      split: js_date.splits js_number.splits if_splits)

text \<open>A normalised string: what \<open>requireNonEmptyString\<close> returns.\<close>

definition normal_string :: "string \<Rightarrow> bool" where
  "normal_string s \<longleftrightarrow> s \<noteq> [] \<and> trim s = s"

lemma requireNonEmptyString_normal:
  "requireNonEmptyString v f = Inr s \<Longrightarrow> normal_string s"
  by (auto simp: normal_string_def)

lemma normal_trim [simp]: "trim v \<noteq> [] \<Longrightarrow> normal_string (trim v)"
  by (simp add: normal_string_def)

end
