(* ===== verification/DomainThread.thy ===== *)
theory DomainThread
  imports DomainCore
begin

text \<open>
  Threads (\<open>packages/domain/src/thread.ts\<close>): creation, the status machine and membership.
  \<open>new Date()\<close> is the argument \<open>now\<close>.
\<close>

datatype thread_type = Conversation | Workflow | Incident
datatype thread_status = Active | Blocked | Resolved | Closed

record thread =
  th_threadId :: string
  th_workspaceId :: string
  th_title :: string
  th_type :: thread_type
  th_status :: thread_status
  th_participants :: "string list"
  th_createdAt :: int
  th_updatedAt :: int

record create_thread_input =
  ct_threadId :: string
  ct_workspaceId :: string
  ct_title :: string
  ct_type :: thread_type
  ct_participants :: "string list"
  ct_createdAt :: "js_date option"
  ct_status :: "thread_status option"

definition allowedThreadTypes :: "thread_type list" where
  "allowedThreadTypes = [Conversation, Workflow, Incident]"

definition allowedThreadStatuses :: "thread_status list" where
  "allowedThreadStatuses = [Active, Blocked, Resolved, Closed]"

fun transitionMap :: "thread_status \<Rightarrow> thread_status list" where
  "transitionMap Active = [Blocked, Resolved, Closed]"
| "transitionMap Blocked = [Active, Closed]"
| "transitionMap Resolved = [Closed]"
| "transitionMap Closed = []"

fun status_text :: "thread_status \<Rightarrow> string" where
  "status_text Active = ''active''"
| "status_text Blocked = ''blocked''"
| "status_text Resolved = ''resolved''"
| "status_text Closed = ''closed''"

definition requireThreadType :: "thread_type \<Rightarrow> domain_error + thread_type" where
  "requireThreadType v =
     (if v \<notin> set allowedThreadTypes
      then Inl (invalid_argument ''type'' '' must be a supported thread type'') else Inr v)"

definition requireThreadStatus :: "thread_status \<Rightarrow> domain_error + thread_status" where
  "requireThreadStatus v =
     (if v \<notin> set allowedThreadStatuses
      then Inl (invalid_argument ''status'' '' must be a supported thread status'') else Inr v)"

definition normalizeParticipants :: "string list \<Rightarrow> domain_error + string list" where
  "normalizeParticipants participants =
     (if length participants = 0
      then Inl (invalid_argument ''participants'' '' must include at least one agent'')
      else ebind (emap_list (\<lambda>p. requireNonEmptyString p ''participants[]'') participants)
        (\<lambda>normalized.
          if card (set normalized) \<noteq> length normalized
          then Inl (invalid_argument ''participants'' '' must be unique'')
          else Inr normalized))"

definition createThread :: "int \<Rightarrow> create_thread_input \<Rightarrow> domain_error + thread" where
  "createThread now input =
     ebind (requireDate (case ct_createdAt input of None \<Rightarrow> At now | Some d \<Rightarrow> d) ''createdAt'')
       (\<lambda>createdAt.
     ebind (requireThreadStatus (case ct_status input of None \<Rightarrow> Active | Some s \<Rightarrow> s)) (\<lambda>status.
     ebind (requireNonEmptyString (ct_threadId input) ''threadId'') (\<lambda>threadId.
     ebind (requireNonEmptyString (ct_workspaceId input) ''workspaceId'') (\<lambda>workspaceId.
     ebind (requireNonEmptyString (ct_title input) ''title'') (\<lambda>title.
     ebind (requireThreadType (ct_type input)) (\<lambda>type.
     ebind (normalizeParticipants (ct_participants input)) (\<lambda>participants.
       Inr \<lparr>th_threadId = threadId, th_workspaceId = workspaceId, th_title = title,
            th_type = type, th_status = status, th_participants = participants,
            th_createdAt = createdAt, th_updatedAt = createdAt\<rparr>)))))))"

definition canTransitionThreadStatus ::
  "thread_status \<Rightarrow> thread_status \<Rightarrow> domain_error + bool" where
  "canTransitionThreadStatus fromStatus toStatus =
     ebind (requireThreadStatus fromStatus) (\<lambda>from.
     ebind (requireThreadStatus toStatus) (\<lambda>to.
       if from = to then Inr True else Inr (to \<in> set (transitionMap from))))"

definition transitionThreadStatus ::
  "thread \<Rightarrow> thread_status \<Rightarrow> js_date \<Rightarrow> domain_error + thread" where
  "transitionThreadStatus thread nextStatus updatedAt =
     ebind (requireThreadStatus nextStatus) (\<lambda>toStatus.
       if th_status thread = toStatus then Inr thread
       else ebind (canTransitionThreadStatus (th_status thread) toStatus) (\<lambda>allowed.
         if \<not> allowed
         then Inl (DomainError D_INVALID_THREAD_TRANSITION
           (''Invalid thread status transition: '' @ status_text (th_status thread) @ '' -> ''
              @ status_text toStatus))
         else ebind (requireDate updatedAt ''updatedAt'') (\<lambda>t.
           Inr (thread\<lparr>th_status := toStatus, th_updatedAt := t\<rparr>))))"

definition isThreadParticipant :: "thread \<Rightarrow> string \<Rightarrow> domain_error + bool" where
  "isThreadParticipant thread agentId =
     ebind (requireNonEmptyString agentId ''agentId'') (\<lambda>a. Inr (a \<in> set (th_participants thread)))"

section \<open>Creation\<close>

lemma requireThreadType_total [simp]: "requireThreadType v = Inr v"
  by (cases v) (simp_all add: requireThreadType_def allowedThreadTypes_def)

lemma requireThreadStatus_total [simp]: "requireThreadStatus v = Inr v"
  by (cases v) (simp_all add: requireThreadStatus_def allowedThreadStatuses_def)

lemma card_set_iff_distinct: "card (set xs) = length xs \<longleftrightarrow> distinct xs"
  by (auto simp: card_distinct distinct_card)

lemma normalizeParticipants_Inr_iff:
  "normalizeParticipants ps = Inr qs \<longleftrightarrow>
     ps \<noteq> [] \<and> qs = map trim ps \<and> (\<forall>p\<in>set ps. trim p \<noteq> []) \<and> distinct qs"
proof -
  have "emap_list (\<lambda>p. requireNonEmptyString p f) ps = Inr qs \<longleftrightarrow>
      qs = map trim ps \<and> (\<forall>p\<in>set ps. trim p \<noteq> [])" for f
    by (induction ps arbitrary: qs) auto
  then show ?thesis
    by (auto simp: normalizeParticipants_def card_set_iff_distinct split: if_splits)
qed

text \<open>What every thread the domain creates satisfies, and every status change keeps.\<close>

definition wf_thread :: "thread \<Rightarrow> bool" where
  "wf_thread t \<longleftrightarrow> normal_string (th_threadId t) \<and> normal_string (th_workspaceId t) \<and>
     normal_string (th_title t) \<and> th_participants t \<noteq> [] \<and> distinct (th_participants t) \<and>
     (\<forall>p\<in>set (th_participants t). normal_string p)"

lemma createThread_Inr_iff:
  "createThread now i = Inr t \<longleftrightarrow>
     (\<exists>d. (case ct_createdAt i of None \<Rightarrow> At now | Some x \<Rightarrow> x) = At d \<and>
        trim (ct_threadId i) \<noteq> [] \<and> trim (ct_workspaceId i) \<noteq> [] \<and> trim (ct_title i) \<noteq> [] \<and>
        ct_participants i \<noteq> [] \<and> (\<forall>p\<in>set (ct_participants i). trim p \<noteq> []) \<and>
        distinct (map trim (ct_participants i)) \<and>
        t = \<lparr>th_threadId = trim (ct_threadId i), th_workspaceId = trim (ct_workspaceId i),
             th_title = trim (ct_title i), th_type = ct_type i,
             th_status = (case ct_status i of None \<Rightarrow> Active | Some s \<Rightarrow> s),
             th_participants = map trim (ct_participants i), th_createdAt = d, th_updatedAt = d\<rparr>)"
  by (auto simp: createThread_def normalizeParticipants_Inr_iff)

lemma createThread_wf: "createThread now i = Inr t \<Longrightarrow> wf_thread t"
  by (auto simp: createThread_Inr_iff wf_thread_def)

lemma normalizeParticipants_Inl:
  "normalizeParticipants ps = Inl e \<Longrightarrow> de_code e = D_INVALID_ARGUMENT"
proof -
  have "emap_list (\<lambda>p. requireNonEmptyString p f) ps = Inl e \<Longrightarrow> de_code e = D_INVALID_ARGUMENT" for f
    by (induction ps) (auto simp: ebind_Inl_iff dest: require_Inl_code)
  then show "normalizeParticipants ps = Inl e \<Longrightarrow> de_code e = D_INVALID_ARGUMENT"
    by (auto simp: normalizeParticipants_def ebind_Inl_iff invalid_argument_def split: if_splits)
qed

lemma createThread_Inl: "createThread now i = Inl e \<Longrightarrow> de_code e = D_INVALID_ARGUMENT"
  by (auto simp: createThread_def ebind_Inl_iff dest: require_Inl_code normalizeParticipants_Inl)

section \<open>The status machine\<close>

lemma canTransition_eq:
  "canTransitionThreadStatus s s' = Inr (s = s' \<or> s' \<in> set (transitionMap s))"
  by (simp add: canTransitionThreadStatus_def)

lemma transition_Inr_iff:
  "transitionThreadStatus t s d = Inr t' \<longleftrightarrow>
     (th_status t = s \<and> t' = t) \<or>
     (s \<in> set (transitionMap (th_status t)) \<and>
       (\<exists>u. d = At u \<and> t' = t\<lparr>th_status := s, th_updatedAt := u\<rparr>))"
  by (cases "th_status t"; cases s) (auto simp: transitionThreadStatus_def canTransition_eq)

lemma transition_Inl_code:
  "transitionThreadStatus t s (At u) = Inl e \<longleftrightarrow>
     th_status t \<noteq> s \<and> s \<notin> set (transitionMap (th_status t)) \<and>
     e = DomainError D_INVALID_THREAD_TRANSITION
       (''Invalid thread status transition: '' @ status_text (th_status t) @ '' -> '' @ status_text s)"
  by (auto simp: transitionThreadStatus_def canTransition_eq)

lemma transition_frame:
  "transitionThreadStatus t s d = Inr t' \<Longrightarrow>
     th_status t' = s \<and> th_threadId t' = th_threadId t \<and> th_workspaceId t' = th_workspaceId t \<and>
     th_participants t' = th_participants t \<and> th_title t' = th_title t \<and> th_type t' = th_type t \<and>
     th_createdAt t' = th_createdAt t"
  by (auto simp: transition_Inr_iff)

lemma transition_wf: "transitionThreadStatus t s d = Inr t' \<Longrightarrow> wf_thread t \<Longrightarrow> wf_thread t'"
  by (auto simp: transition_Inr_iff wf_thread_def)

text \<open>Any sequence of successful status changes.\<close>

inductive thread_reaches :: "thread \<Rightarrow> thread \<Rightarrow> bool" where
  stay: "thread_reaches t t"
| change: "thread_reaches t u \<Longrightarrow> transitionThreadStatus u s d = Inr v \<Longrightarrow> thread_reaches t v"

inductive_cases thread_reachesE: "thread_reaches t t'"

text \<open>The statuses a thread can still take, as the governance document lists them.\<close>

fun reachable_statuses :: "thread_status \<Rightarrow> thread_status set" where
  "reachable_statuses Active = {Active, Blocked, Resolved, Closed}"
| "reachable_statuses Blocked = {Active, Blocked, Resolved, Closed}"
| "reachable_statuses Resolved = {Resolved, Closed}"
| "reachable_statuses Closed = {Closed}"

lemma thread_reaches_status:
  "thread_reaches t t' \<Longrightarrow> th_status t' \<in> reachable_statuses (th_status t)"
proof (induction rule: thread_reaches.induct)
  case (stay t)
  show ?case by (cases "th_status t") simp_all
next
  case (change t u s d v)
  from change.hyps(2) consider "v = u" | "th_status v \<in> set (transitionMap (th_status u))"
    by (auto simp: transition_Inr_iff)
  then show ?case
    using change.IH by cases (cases "th_status t"; cases "th_status u"; auto)+
qed

lemma thread_reaches_one:
  "s \<in> set (transitionMap (th_status t)) \<Longrightarrow>
     thread_reaches t (t\<lparr>th_status := s, th_updatedAt := u\<rparr>)"
  by (rule thread_reaches.change [OF thread_reaches.stay, of _ s "At u"])
    (auto simp: transition_Inr_iff)

lemma thread_reaches_trans:
  "thread_reaches u v \<Longrightarrow> thread_reaches t u \<Longrightarrow> thread_reaches t v"
  by (induction rule: thread_reaches.induct) (auto intro: thread_reaches.change)

lemma thread_reaches_all:
  assumes "s \<in> reachable_statuses (th_status t)"
  shows "\<exists>t'. thread_reaches t t' \<and> th_status t' = s"
proof (cases "s \<in> set (transitionMap (th_status t)) \<or> s = th_status t")
  case True
  then show ?thesis
    using thread_reaches_one [of s t] thread_reaches.stay [of t] by fastforce
next
  case False
  with assms have st: "th_status t = Blocked" "s = Resolved"
    by (cases "th_status t"; auto)+
  let ?a = "t\<lparr>th_status := Active, th_updatedAt := 0\<rparr>"
  have "thread_reaches t ?a" using st by (intro thread_reaches_one) simp
  moreover have "thread_reaches ?a (?a\<lparr>th_status := Resolved, th_updatedAt := 0\<rparr>)"
    by (intro thread_reaches_one) simp
  ultimately show ?thesis
    using st by (intro exI [of _ "?a\<lparr>th_status := Resolved, th_updatedAt := 0\<rparr>"])
      (auto intro: thread_reaches_trans)
qed

lemma thread_reaches_frame:
  "thread_reaches t t' \<Longrightarrow>
     th_threadId t' = th_threadId t \<and> th_workspaceId t' = th_workspaceId t \<and>
     th_participants t' = th_participants t \<and> th_createdAt t' = th_createdAt t"
  by (induction rule: thread_reaches.induct) (auto dest: transition_frame)

lemma thread_reaches_closed: "thread_reaches t t' \<Longrightarrow> th_status t = Closed \<Longrightarrow> t' = t"
  by (induction rule: thread_reaches.induct) (auto simp: transition_Inr_iff)

end
