(* ===== verification/DomainMessage.thy ===== *)
theory DomainMessage
  imports DomainCore
begin

text \<open>
  Messages and read cursors (\<open>packages/domain/src/message.ts\<close>, \<open>cursor.ts\<close>): the checks of
  a new message, the sequence rule of a thread, and the acknowledgement of reads.
  An optional property that is absent is \<open>None\<close>; a property that may be absent or \<open>null\<close>
  is an option of an option.
\<close>

datatype message_kind = Chat | Event | System

record message =
  ms_messageId :: string
  ms_threadId :: string
  ms_schemaVersion :: int
  ms_seq :: int
  ms_senderAgentId :: string
  ms_senderSessionId :: string
  ms_kind :: message_kind
  ms_body :: string
  ms_metadata :: "json option"
  ms_inReplyTo :: "string option"
  ms_idempotencyKey :: "string option"
  ms_createdAt :: int

record create_message_input =
  cm_messageId :: string
  cm_threadId :: string
  cm_schemaVersion :: js_number
  cm_seq :: js_number
  cm_senderAgentId :: string
  cm_senderSessionId :: string
  cm_kind :: message_kind
  cm_body :: string
  cm_metadata :: "json option"
  cm_inReplyTo :: "string option"
  cm_idempotencyKey :: "string option"
  cm_createdAt :: "js_date option"

section \<open>Messages\<close>

definition supportedMessageKinds :: "message_kind list" where
  "supportedMessageKinds = [Chat, Event, System]"

definition requireMessageKind :: "message_kind \<Rightarrow> domain_error + message_kind" where
  "requireMessageKind v =
     (if v \<notin> set supportedMessageKinds
      then Inl (invalid_argument ''kind'' '' must be a supported message kind'') else Inr v)"

text \<open>
  \<open>{ ...metadata }\<close> copies the own properties: those of an object, the characters of a
  string under their indices, nothing for the other primitives.
\<close>

fun object_spread :: "json \<Rightarrow> json" where
  "object_spread (JObject kvs) = JObject kvs"
| "object_spread (JString s) =
     JObject (map (\<lambda>(i, c). (show_nat i, JString [c])) (enumerate 0 s))"
| "object_spread (JArray js) = JObject (map (\<lambda>(i, j). (show_nat i, j)) (enumerate 0 js))"
| "object_spread _ = JObject []"

definition normalizeMetadata :: "json option \<Rightarrow> domain_error + json option" where
  "normalizeMetadata metadata =
     (case metadata of
        None \<Rightarrow> Inr None
      | Some (JArray js) \<Rightarrow> Inl (invalid_argument ''metadata'' '' must be an object'')
      | Some j \<Rightarrow> Inr (Some (object_spread j)))"

definition MAX_SAFE_INTEGER :: int where
  "MAX_SAFE_INTEGER = 9007199254740991"

definition assertNextMessageSequence :: "js_number \<Rightarrow> js_number \<Rightarrow> domain_error + unit" where
  "assertNextMessageSequence lastSeq nextSeq =
     ebind (requirePositiveInteger (js_succ lastSeq) ''lastSeq+1'') (\<lambda>l.
     ebind (requirePositiveInteger nextSeq ''nextSeq'') (\<lambda>safeNextSeq.
       let safeLastSeq = l - 1
       in if safeNextSeq \<noteq> safeLastSeq + 1
          then Inl (DomainError D_SEQUENCE_VIOLATION
                      ''Message sequence must increment by exactly one'')
          else Inr ()))"

definition getNextMessageSequence :: "js_number \<Rightarrow> domain_error + int" where
  "getNextMessageSequence lastSeq =
     ebind (requirePositiveInteger (js_succ lastSeq) ''lastSeq+1'') (\<lambda>l.
       let safeLastSeq = l - 1
       in if MAX_SAFE_INTEGER \<le> safeLastSeq
          then Inl (DomainError D_SEQUENCE_OVERFLOW
                      ''Message sequence exceeded Number.MAX_SAFE_INTEGER'')
          else Inr (safeLastSeq + 1))"

definition require_optional :: "string option \<Rightarrow> string \<Rightarrow> domain_error + string option" where
  "require_optional v field =
     (case v of None \<Rightarrow> Inr None | Some s \<Rightarrow> ebind (requireNonEmptyString s field) (\<lambda>n. Inr (Some n)))"

definition createMessage :: "int \<Rightarrow> create_message_input \<Rightarrow> domain_error + message" where
  "createMessage now input =
     ebind (requirePositiveInteger (cm_schemaVersion input) ''schemaVersion'') (\<lambda>schemaVersion.
     ebind (requirePositiveInteger (cm_seq input) ''seq'') (\<lambda>seq.
     ebind (normalizeMetadata (cm_metadata input)) (\<lambda>metadata.
     ebind (require_optional (cm_inReplyTo input) ''inReplyTo'') (\<lambda>inReplyTo.
     ebind (require_optional (cm_idempotencyKey input) ''idempotencyKey'') (\<lambda>idempotencyKey.
     ebind (requireNonEmptyString (cm_messageId input) ''messageId'') (\<lambda>messageId.
     ebind (requireNonEmptyString (cm_threadId input) ''threadId'') (\<lambda>threadId.
     ebind (requireNonEmptyString (cm_senderAgentId input) ''senderAgentId'') (\<lambda>senderAgentId.
     ebind (requireNonEmptyString (cm_senderSessionId input) ''senderSessionId'')
       (\<lambda>senderSessionId.
     ebind (requireMessageKind (cm_kind input)) (\<lambda>kind.
     ebind (requireNonEmptyString (cm_body input) ''body'') (\<lambda>body.
     ebind (requireDate (case cm_createdAt input of None \<Rightarrow> At now | Some d \<Rightarrow> d) ''createdAt'')
       (\<lambda>createdAt.
       Inr \<lparr>ms_messageId = messageId, ms_threadId = threadId, ms_schemaVersion = schemaVersion,
            ms_seq = seq, ms_senderAgentId = senderAgentId, ms_senderSessionId = senderSessionId,
            ms_kind = kind, ms_body = body, ms_metadata = metadata, ms_inReplyTo = inReplyTo,
            ms_idempotencyKey = idempotencyKey, ms_createdAt = createdAt\<rparr>))))))))))))"

lemma requireMessageKind_total [simp]: "requireMessageKind v = Inr v"
  by (cases v) (simp_all add: requireMessageKind_def supportedMessageKinds_def)

lemma js_succ_int [simp]: "js_succ v = js_int n \<longleftrightarrow> v = js_int (n - 1)"
  by (cases v) auto

lemma require_optional_Inr_iff [simp]:
  "require_optional v f = Inr r \<longleftrightarrow>
     r = map_option trim v \<and> (\<forall>s. v = Some s \<longrightarrow> trim s \<noteq> [])"
  by (cases v) (auto simp: require_optional_def)

lemma getNextMessageSequence_Inr_iff:
  "getNextMessageSequence v = Inr n \<longleftrightarrow>
     v = js_int (n - 1) \<and> 0 < n \<and> n \<le> MAX_SAFE_INTEGER"
  by (auto simp: getNextMessageSequence_def Let_def split: if_splits intro!: exI [of _ n])

lemma getNextMessageSequence_int:
  "0 \<le> n \<Longrightarrow> n < MAX_SAFE_INTEGER \<Longrightarrow> getNextMessageSequence (js_int n) = Inr (n + 1)"
  by (simp add: getNextMessageSequence_Inr_iff)

text \<open>The two sequence functions agree: the next number is the only one that is accepted.\<close>

lemma assertNext_iff_getNext:
  "n \<le> MAX_SAFE_INTEGER \<Longrightarrow>
     assertNextMessageSequence v (js_int n) = Inr () \<longleftrightarrow> getNextMessageSequence v = Inr n"
  by (auto simp: assertNextMessageSequence_def getNextMessageSequence_Inr_iff Let_def
      split: if_splits)

text \<open>A message as the domain makes it.\<close>

definition wf_message :: "message \<Rightarrow> bool" where
  "wf_message m \<longleftrightarrow> normal_string (ms_messageId m) \<and> normal_string (ms_threadId m) \<and>
     normal_string (ms_senderAgentId m) \<and> normal_string (ms_senderSessionId m) \<and>
     normal_string (ms_body m) \<and> 0 < ms_schemaVersion m \<and> 0 < ms_seq m \<and>
     (\<forall>j. ms_metadata m = Some j \<longrightarrow> (\<exists>kvs. j = JObject kvs)) \<and>
     (\<forall>s. ms_inReplyTo m = Some s \<longrightarrow> normal_string s) \<and>
     (\<forall>s. ms_idempotencyKey m = Some s \<longrightarrow> normal_string s)"

lemma object_spread_object: "\<exists>kvs. object_spread j = JObject kvs"
  by (cases j) auto

lemma normalizeMetadata_object:
  "normalizeMetadata v = Inr (Some j) \<Longrightarrow> \<exists>kvs. j = JObject kvs"
  using object_spread_object
  by (auto simp: normalizeMetadata_def split: option.splits json.splits)

lemma normalizeMetadata_JObject [simp]:
  "normalizeMetadata (Some (JObject kvs)) = Inr (Some (JObject kvs))"
  "normalizeMetadata None = Inr None"
  by (simp_all add: normalizeMetadata_def)

text \<open>The fields a created message takes from its input.\<close>

lemma createMessage_Inr_fields:
  assumes "createMessage now i = Inr m"
  shows "ms_messageId m = trim (cm_messageId i)" "ms_threadId m = trim (cm_threadId i)"
    "cm_seq i = js_int (ms_seq m)" "cm_schemaVersion i = js_int (ms_schemaVersion m)"
    "ms_senderAgentId m = trim (cm_senderAgentId i)"
    "ms_senderSessionId m = trim (cm_senderSessionId i)"
    "ms_kind m = cm_kind i" "ms_body m = trim (cm_body i)"
    "normalizeMetadata (cm_metadata i) = Inr (ms_metadata m)"
    "ms_inReplyTo m = map_option trim (cm_inReplyTo i)"
    "ms_idempotencyKey m = map_option trim (cm_idempotencyKey i)"
  using assms by (auto simp: createMessage_def)

lemma createMessage_wf: "createMessage now i = Inr m \<Longrightarrow> wf_message m"
  by (auto simp: createMessage_def wf_message_def dest: normalizeMetadata_object)

section \<open>Read cursors\<close>

record cursor =
  cu_threadId :: string
  cu_agentId :: string
  cu_lastReadSeq :: int
  cu_lastAckedMessageId :: "string option"
  cu_updatedAt :: int

record create_cursor_input =
  cc_threadId :: string
  cc_agentId :: string
  cc_createdAt :: "js_date option"

record ack_input =
  ak_lastReadSeq :: js_number
  ak_lastAckedMessageId :: "string option option"
  ak_updatedAt :: "js_date option"

definition normalizeAckedMessageId ::
  "string option option \<Rightarrow> domain_error + string option option" where
  "normalizeAckedMessageId v =
     (case v of
        None \<Rightarrow> Inr None
      | Some None \<Rightarrow> Inr (Some None)
      | Some (Some s) \<Rightarrow>
          ebind (requireNonEmptyString s ''lastAckedMessageId'') (\<lambda>n. Inr (Some (Some n))))"

definition createParticipantCursor :: "int \<Rightarrow> create_cursor_input \<Rightarrow> domain_error + cursor" where
  "createParticipantCursor now input =
     ebind (requireNonEmptyString (cc_threadId input) ''threadId'') (\<lambda>threadId.
     ebind (requireNonEmptyString (cc_agentId input) ''agentId'') (\<lambda>agentId.
     ebind (requireDate (case cc_createdAt input of None \<Rightarrow> At now | Some d \<Rightarrow> d) ''createdAt'')
       (\<lambda>t.
       Inr \<lparr>cu_threadId = threadId, cu_agentId = agentId, cu_lastReadSeq = 0,
            cu_lastAckedMessageId = None, cu_updatedAt = t\<rparr>)))"

definition acknowledgeRead :: "int \<Rightarrow> cursor \<Rightarrow> ack_input \<Rightarrow> domain_error + cursor" where
  "acknowledgeRead now cursor input =
     ebind (requireNonNegativeInteger (ak_lastReadSeq input) ''lastReadSeq'') (\<lambda>nextReadSeq.
       if nextReadSeq < cu_lastReadSeq cursor
       then Inl (DomainError D_CURSOR_REGRESSION
              (''Cursor regression is not allowed: '' @ show_int nextReadSeq @ '' < ''
                 @ show_int (cu_lastReadSeq cursor)))
       else ebind (normalizeAckedMessageId (ak_lastAckedMessageId input)) (\<lambda>nextAcked.
         if nextReadSeq = cu_lastReadSeq cursor \<and> nextAcked = None then Inr cursor
         else ebind (requireDate (case ak_updatedAt input of None \<Rightarrow> At now | Some d \<Rightarrow> d)
                       ''updatedAt'') (\<lambda>t.
           Inr (cursor\<lparr>cu_lastReadSeq := nextReadSeq,
                  cu_lastAckedMessageId :=
                    (case nextAcked of None \<Rightarrow> cu_lastAckedMessageId cursor | Some v \<Rightarrow> v),
                  cu_updatedAt := t\<rparr>))))"

definition calculateUnreadCount :: "js_number \<Rightarrow> js_number \<Rightarrow> domain_error + int" where
  "calculateUnreadCount latestSeq lastReadSeq =
     ebind (requireNonNegativeInteger latestSeq ''latestSeq'') (\<lambda>safeLatestSeq.
     ebind (requireNonNegativeInteger lastReadSeq ''lastReadSeq'') (\<lambda>safeLastReadSeq.
       if safeLatestSeq < safeLastReadSeq
       then Inl (DomainError D_INVALID_ARGUMENT
              (quoted ''latestSeq'' @ '' must be greater than or equal to ''
                 @ quoted ''lastReadSeq''))
       else Inr (safeLatestSeq - safeLastReadSeq)))"

text \<open>A run of acknowledgements by one agent; a rejected one leaves the cursor as it was.\<close>

fun ack_run :: "int \<Rightarrow> cursor \<Rightarrow> ack_input list \<Rightarrow> cursor" where
  "ack_run now c [] = c"
| "ack_run now c (i # is) =
     ack_run now (case acknowledgeRead now c i of Inl e \<Rightarrow> c | Inr c' \<Rightarrow> c') is"

lemma acknowledgeRead_Inr:
  assumes "acknowledgeRead now c i = Inr c'"
  shows "cu_lastReadSeq c \<le> cu_lastReadSeq c'" "ak_lastReadSeq i = js_int (cu_lastReadSeq c')"
    "cu_threadId c' = cu_threadId c" "cu_agentId c' = cu_agentId c"
    "ak_lastAckedMessageId i = None \<Longrightarrow> cu_lastAckedMessageId c' = cu_lastAckedMessageId c"
proof -
  from assms obtain n a where n: "ak_lastReadSeq i = js_int n" "\<not> n < cu_lastReadSeq c"
    and a: "normalizeAckedMessageId (ak_lastAckedMessageId i) = Inr a"
    and r: "(if n = cu_lastReadSeq c \<and> a = None then Inr c
        else ebind (requireDate (case ak_updatedAt i of None \<Rightarrow> At now | Some d \<Rightarrow> d)
                      ''updatedAt'') (\<lambda>t.
          Inr (c\<lparr>cu_lastReadSeq := n,
                 cu_lastAckedMessageId :=
                   (case a of None \<Rightarrow> cu_lastAckedMessageId c | Some v \<Rightarrow> v),
                 cu_updatedAt := t\<rparr>))) = Inr c'"
    unfolding acknowledgeRead_def by (auto split: if_split_asm)
  from r have "cu_lastReadSeq c' = n \<and> cu_threadId c' = cu_threadId c \<and>
      cu_agentId c' = cu_agentId c \<and> (a = None \<longrightarrow> cu_lastAckedMessageId c' = cu_lastAckedMessageId c)"
    by (auto split: if_split_asm)
  moreover have "ak_lastAckedMessageId i = None \<Longrightarrow> a = None"
    using a by (simp add: normalizeAckedMessageId_def)
  ultimately show "cu_lastReadSeq c \<le> cu_lastReadSeq c'"
    "ak_lastReadSeq i = js_int (cu_lastReadSeq c')"
    "cu_threadId c' = cu_threadId c" "cu_agentId c' = cu_agentId c"
    "ak_lastAckedMessageId i = None \<Longrightarrow> cu_lastAckedMessageId c' = cu_lastAckedMessageId c"
    using n by auto
qed

lemma acknowledgeRead_regression:
  "0 \<le> n \<Longrightarrow> n < cu_lastReadSeq c \<Longrightarrow> ak_lastReadSeq i = js_int n \<Longrightarrow>
     \<exists>msg. acknowledgeRead now c i = Inl (DomainError D_CURSOR_REGRESSION msg)"
  by (simp add: acknowledgeRead_def)

lemma acknowledgeRead_forward:
  "cu_lastReadSeq c \<le> n \<Longrightarrow> 0 \<le> n \<Longrightarrow>
     \<exists>c'. acknowledgeRead now c
        \<lparr>ak_lastReadSeq = js_int n, ak_lastAckedMessageId = None, ak_updatedAt = Some (At t)\<rparr> = Inr c'
      \<and> cu_lastReadSeq c' = n"
  by (auto simp: acknowledgeRead_def normalizeAckedMessageId_def)

lemma ack_run_mono: "cu_lastReadSeq c \<le> cu_lastReadSeq (ack_run now c is)"
proof (induction "is" arbitrary: c)
  case (Cons i "is")
  show ?case
  proof (cases "acknowledgeRead now c i")
    case (Inl e)
    with Cons show ?thesis by simp
  next
    case (Inr c')
    with Cons [of c'] acknowledgeRead_Inr(1) [OF Inr] show ?thesis by simp
  qed
qed simp

end
