(* ===== verification/DomainSession.thy ===== *)
theory DomainSession
  imports DomainCore "HOL-Library.Multiset"
begin

text \<open>
  Agent sessions (\<open>packages/domain/src/session.ts\<close>): a record per agent and workspace that
  heartbeats create and refresh, staleness, and the search for a session to resume.
\<close>

datatype management_mode = Managed | Unmanaged
datatype session_status = SActive | SIdle | SOffline

record session =
  se_agentId :: string
  se_workspaceId :: string
  se_sessionId :: string
  se_runtime :: string
  se_managementMode :: management_mode
  se_resumable :: bool
  se_status :: session_status
  se_lastHeartbeatAt :: int
  se_updatedAt :: int

record heartbeat_input =
  hb_agentId :: string
  hb_workspaceId :: string
  hb_sessionId :: string
  hb_runtime :: string
  hb_managementMode :: management_mode
  hb_resumable :: bool
  hb_status :: session_status
  hb_heartbeatAt :: "js_date option"

record session_lookup =
  lk_agentId :: string
  lk_workspaceId :: string
  lk_staleAfterHours :: js_number
  lk_referenceTime :: "js_date option"

definition managementModes :: "management_mode list" where
  "managementModes = [Managed, Unmanaged]"

definition sessionStatuses :: "session_status list" where
  "sessionStatuses = [SActive, SIdle, SOffline]"

definition requireManagementMode :: "management_mode \<Rightarrow> domain_error + management_mode" where
  "requireManagementMode v =
     (if v \<notin> set managementModes
      then Inl (invalid_argument ''managementMode'' '' must be a supported mode'') else Inr v)"

definition requireSessionStatus :: "session_status \<Rightarrow> domain_error + session_status" where
  "requireSessionStatus v =
     (if v \<notin> set sessionStatuses
      then Inl (invalid_argument ''status'' '' must be a supported session status'') else Inr v)"

definition createSessionFromHeartbeat :: "int \<Rightarrow> heartbeat_input \<Rightarrow> domain_error + session" where
  "createSessionFromHeartbeat now input =
     ebind (requireDate (case hb_heartbeatAt input of None \<Rightarrow> At now | Some d \<Rightarrow> d)
              ''heartbeatAt'') (\<lambda>heartbeatAt.
     ebind (requireNonEmptyString (hb_agentId input) ''agentId'') (\<lambda>agentId.
     ebind (requireNonEmptyString (hb_workspaceId input) ''workspaceId'') (\<lambda>workspaceId.
     ebind (requireNonEmptyString (hb_sessionId input) ''sessionId'') (\<lambda>sessionId.
     ebind (requireNonEmptyString (hb_runtime input) ''runtime'') (\<lambda>runtime.
     ebind (requireManagementMode (hb_managementMode input)) (\<lambda>managementMode.
     ebind (requireSessionStatus (hb_status input)) (\<lambda>status.
       Inr \<lparr>se_agentId = agentId, se_workspaceId = workspaceId, se_sessionId = sessionId,
            se_runtime = runtime, se_managementMode = managementMode,
            se_resumable = hb_resumable input, se_status = status,
            se_lastHeartbeatAt = heartbeatAt, se_updatedAt = heartbeatAt\<rparr>)))))))"

definition applySessionHeartbeat ::
  "int \<Rightarrow> session option \<Rightarrow> heartbeat_input \<Rightarrow> domain_error + session" where
  "applySessionHeartbeat now existingRecord heartbeat =
     (case existingRecord of
        None \<Rightarrow> createSessionFromHeartbeat now heartbeat
      | Some existing \<Rightarrow>
          ebind (requireDate (case hb_heartbeatAt heartbeat of None \<Rightarrow> At now | Some d \<Rightarrow> d)
                   ''heartbeatAt'') (\<lambda>heartbeatAt.
            if se_agentId existing \<noteq> hb_agentId heartbeat \<or>
               se_workspaceId existing \<noteq> hb_workspaceId heartbeat
            then Inl (DomainError D_SESSION_SCOPE_MISMATCH
                   ''Session heartbeat scope must match existing record scope'')
            else if heartbeatAt \<le> se_lastHeartbeatAt existing then Inr existing
            else
              ebind (requireNonEmptyString (hb_sessionId heartbeat) ''sessionId'') (\<lambda>sessionId.
              ebind (requireNonEmptyString (hb_runtime heartbeat) ''runtime'') (\<lambda>runtime.
              ebind (requireManagementMode (hb_managementMode heartbeat)) (\<lambda>managementMode.
              ebind (requireSessionStatus (hb_status heartbeat)) (\<lambda>status.
                Inr (existing\<lparr>se_sessionId := sessionId, se_runtime := runtime,
                       se_managementMode := managementMode,
                       se_resumable := hb_resumable heartbeat, se_status := status,
                       se_lastHeartbeatAt := heartbeatAt, se_updatedAt := heartbeatAt\<rparr>)))))))"

definition isSessionStale :: "session \<Rightarrow> js_number \<Rightarrow> js_date \<Rightarrow> domain_error + bool" where
  "isSessionStale session staleAfterHours referenceTime =
     ebind (requirePositiveInteger staleAfterHours ''staleAfterHours'') (\<lambda>h.
     ebind (requireDate referenceTime ''referenceTime'') (\<lambda>t.
       let staleAfterMs = h * 60 * 60 * 1000
       in Inr (staleAfterMs < t - se_lastHeartbeatAt session)))"

text \<open>The loop over the sorted candidates.\<close>

fun first_fresh :: "js_number \<Rightarrow> js_date \<Rightarrow> session list \<Rightarrow> domain_error + session option" where
  "first_fresh h t [] = Inr None"
| "first_fresh h t (c # cs) =
     ebind (isSessionStale c h t) (\<lambda>stale. if \<not> stale then Inr (Some c) else first_fresh h t cs)"

definition findLatestResumableSession ::
  "int \<Rightarrow> session list \<Rightarrow> session_lookup \<Rightarrow> domain_error + session option" where
  "findLatestResumableSession now sessions lookup =
     ebind (requireNonEmptyString (lk_agentId lookup) ''agentId'') (\<lambda>targetAgentId.
     ebind (requireNonEmptyString (lk_workspaceId lookup) ''workspaceId'') (\<lambda>targetWorkspaceId.
     ebind (requireDate (case lk_referenceTime lookup of None \<Rightarrow> At now | Some d \<Rightarrow> d)
              ''referenceTime'') (\<lambda>safeReferenceTime.
       let candidates = sort_desc se_lastHeartbeatAt
             (filter (\<lambda>s. se_agentId s = targetAgentId \<and> se_workspaceId s = targetWorkspaceId \<and>
                          se_resumable s) sessions)
       in first_fresh (lk_staleAfterHours lookup) (At safeReferenceTime) candidates)))"

section \<open>Staleness\<close>

lemma requireManagementMode_total [simp]: "requireManagementMode v = Inr v"
  by (cases v) (simp_all add: requireManagementMode_def managementModes_def)

lemma requireSessionStatus_total [simp]: "requireSessionStatus v = Inr v"
  by (cases v) (simp_all add: requireSessionStatus_def sessionStatuses_def)

definition stale_at :: "int \<Rightarrow> int \<Rightarrow> session \<Rightarrow> bool" where
  "stale_at h t s \<longleftrightarrow> h * 3600000 < t - se_lastHeartbeatAt s"

lemma isSessionStale_valid [simp]:
  "0 < h \<Longrightarrow> isSessionStale s (js_int h) (At t) = Inr (stale_at h t s)"
  by (simp add: isSessionStale_def stale_at_def mult.commute)

lemma isSessionStale_Inr_iff:
  "isSessionStale s v d = Inr b \<longleftrightarrow>
     (\<exists>h t. v = js_int h \<and> 0 < h \<and> d = At t \<and> b = stale_at h t s)"
  by (auto simp: isSessionStale_def stale_at_def mult.commute)

lemma isSessionStale_Inl: "isSessionStale s v d = Inl e \<Longrightarrow> de_code e = D_INVALID_ARGUMENT"
  by (auto simp: isSessionStale_def ebind_Inl_iff Let_def dest: require_Inl_code)

lemma stale_at_mono: "stale_at h t s \<Longrightarrow> t \<le> t' \<Longrightarrow> stale_at h t' s"
  by (simp add: stale_at_def)

lemma stale_at_older:
  "stale_at h t s \<Longrightarrow> se_lastHeartbeatAt s' \<le> se_lastHeartbeatAt s \<Longrightarrow> stale_at h t s'"
  by (simp add: stale_at_def)

section \<open>The session to resume\<close>

lemma first_fresh_valid:
  "0 < h \<Longrightarrow> first_fresh (js_int h) (At t) cs = Inr (find (\<lambda>c. \<not> stale_at h t c) cs)"
  by (induction cs) auto

definition resumable_of :: "session list \<Rightarrow> string \<Rightarrow> string \<Rightarrow> session list" where
  "resumable_of sessions a w =
     filter (\<lambda>s. se_agentId s = a \<and> se_workspaceId s = w \<and> se_resumable s) sessions"

text \<open>
  After the sort it is enough to look at the first candidate: if the latest one is stale, all
  are.
\<close>

lemma find_sorted_head:
  "find (\<lambda>c. \<not> stale_at h t c) (sort_desc se_lastHeartbeatAt xs) =
     (case sort_desc se_lastHeartbeatAt xs of [] \<Rightarrow> None
      | c # cs \<Rightarrow> if stale_at h t c then None else Some c)"
proof (cases "sort_desc se_lastHeartbeatAt xs")
  case (Cons c cs)
  have "stale_at h t c \<Longrightarrow> find (\<lambda>c. \<not> stale_at h t c) cs = None"
  proof -
    assume st: "stale_at h t c"
    have "stale_at h t d" if "d \<in> set cs" for d
    proof -
      have "d \<in> set xs" using that Cons set_sort_desc [of se_lastHeartbeatAt xs] by auto
      from sort_desc_Cons_max [OF Cons this] st show ?thesis by (rule stale_at_older [rotated])
    qed
    then show ?thesis by (simp add: find_None_iff)
  qed
  with Cons show ?thesis by simp
qed (simp add: sort_desc_def)

lemma findLatest_eq:
  assumes "0 < h" "trim (lk_agentId l) \<noteq> []" "trim (lk_workspaceId l) \<noteq> []"
    "lk_staleAfterHours l = js_int h" "lk_referenceTime l = Some (At t)"
  shows "findLatestResumableSession now sessions l =
    Inr (case sort_desc se_lastHeartbeatAt
            (resumable_of sessions (trim (lk_agentId l)) (trim (lk_workspaceId l))) of
           [] \<Rightarrow> None | c # cs \<Rightarrow> if stale_at h t c then None else Some c)"
proof -
  have a: "requireNonEmptyString (lk_agentId l) f = Inr (trim (lk_agentId l))"
    and w: "requireNonEmptyString (lk_workspaceId l) f = Inr (trim (lk_workspaceId l))" for f
    using assms(2,3) by simp_all
  show ?thesis
    using assms(1,4,5)
    by (simp add: findLatestResumableSession_def a w first_fresh_valid Let_def
        find_sorted_head resumable_of_def)
qed

section \<open>Heartbeats\<close>

text \<open>A heartbeat of the given agent and workspace that passes every check, sent at \<open>t\<close>.\<close>

definition good_heartbeat :: "string \<Rightarrow> string \<Rightarrow> heartbeat_input \<Rightarrow> int \<Rightarrow> bool" where
  "good_heartbeat a w i t \<longleftrightarrow> hb_agentId i = a \<and> hb_workspaceId i = w \<and> normal_string a \<and>
     normal_string w \<and> trim (hb_sessionId i) \<noteq> [] \<and> trim (hb_runtime i) \<noteq> [] \<and>
     hb_heartbeatAt i = Some (At t)"

definition session_of :: "heartbeat_input \<Rightarrow> int \<Rightarrow> session" where
  "session_of i t = \<lparr>se_agentId = hb_agentId i, se_workspaceId = hb_workspaceId i,
     se_sessionId = trim (hb_sessionId i), se_runtime = trim (hb_runtime i),
     se_managementMode = hb_managementMode i, se_resumable = hb_resumable i,
     se_status = hb_status i, se_lastHeartbeatAt = t, se_updatedAt = t\<rparr>"

lemma createSession_good:
  "good_heartbeat a w i t \<Longrightarrow> createSessionFromHeartbeat now i = Inr (session_of i t)"
  by (auto simp: good_heartbeat_def createSessionFromHeartbeat_def session_of_def normal_string_def)

lemma createSession_fields:
  assumes "createSessionFromHeartbeat now i = Inr s"
  shows "se_agentId s = trim (hb_agentId i)" "se_workspaceId s = trim (hb_workspaceId i)"
    "se_sessionId s = trim (hb_sessionId i)" "se_updatedAt s = se_lastHeartbeatAt s"
  using assms by (auto simp: createSessionFromHeartbeat_def)

lemma applyHeartbeat_older:
  assumes "good_heartbeat a w i t" "se_agentId s = a" "se_workspaceId s = w"
    "t \<le> se_lastHeartbeatAt s"
  shows "applySessionHeartbeat now (Some s) i = Inr s"
  using assms by (simp add: applySessionHeartbeat_def good_heartbeat_def)

lemma applyHeartbeat_newer:
  assumes "good_heartbeat a w i t" "se_agentId s = a" "se_workspaceId s = w"
    "se_lastHeartbeatAt s < t"
  shows "applySessionHeartbeat now (Some s) i = Inr (session_of i t)"
proof -
  have n: "requireNonEmptyString (hb_sessionId i) f = Inr (trim (hb_sessionId i))"
    "requireNonEmptyString (hb_runtime i) f = Inr (trim (hb_runtime i))" for f
    using assms(1) by (simp_all add: good_heartbeat_def)
  show ?thesis
    using assms n by (simp add: applySessionHeartbeat_def good_heartbeat_def session_of_def)
qed

lemma applyHeartbeat_frame:
  assumes "applySessionHeartbeat now (Some s) i = Inr s'"
  shows "se_agentId s' = se_agentId s" "se_workspaceId s' = se_workspaceId s"
    "se_lastHeartbeatAt s \<le> se_lastHeartbeatAt s'"
  using assms by (auto simp: applySessionHeartbeat_def split: if_split_asm)

lemma applyHeartbeat_scope:
  "applySessionHeartbeat now (Some s) i = Inr s' \<Longrightarrow>
     hb_agentId i = se_agentId s \<and> hb_workspaceId i = se_workspaceId s"
  by (auto simp: applySessionHeartbeat_def split: if_split_asm)

text \<open>The record after a series of heartbeats, which may arrive in any order.\<close>

fun heartbeat_run ::
  "int \<Rightarrow> session option \<Rightarrow> heartbeat_input list \<Rightarrow> domain_error + session option" where
  "heartbeat_run now s [] = Inr s"
| "heartbeat_run now s (i # is) =
     ebind (applySessionHeartbeat now s i) (\<lambda>s'. heartbeat_run now (Some s') is)"

definition hb_time :: "heartbeat_input \<Rightarrow> int" where
  "hb_time i = (case hb_heartbeatAt i of Some (At t) \<Rightarrow> t | _ \<Rightarrow> 0)"

text \<open>The latest of a list of heartbeats, the first of them on a tie.\<close>

fun latest_heartbeat :: "heartbeat_input \<Rightarrow> heartbeat_input list \<Rightarrow> heartbeat_input" where
  "latest_heartbeat b [] = b"
| "latest_heartbeat b (i # is) = latest_heartbeat (if hb_time b < hb_time i then i else b) is"

lemma good_heartbeat_time: "good_heartbeat a w i t \<Longrightarrow> hb_time i = t"
  by (simp add: good_heartbeat_def hb_time_def)

lemma heartbeat_run_from:
  assumes "\<forall>i\<in>set is. good_heartbeat a w i (hb_time i)" "good_heartbeat a w b (hb_time b)"
  shows "heartbeat_run now (Some (session_of b (hb_time b))) is =
    Inr (Some (session_of (latest_heartbeat b is) (hb_time (latest_heartbeat b is))))"
  using assms
proof (induction "is" arbitrary: b)
  case (Cons i "is")
  have scope: "se_agentId (session_of b (hb_time b)) = a" "se_workspaceId (session_of b (hb_time b)) = w"
    using Cons.prems(2) by (auto simp: session_of_def good_heartbeat_def)
  have i: "good_heartbeat a w i (hb_time i)" using Cons.prems(1) by simp
  show ?case
  proof (cases "hb_time b < hb_time i")
    case True
    with applyHeartbeat_newer [OF i scope] Cons i show ?thesis
      by (simp add: session_of_def)
  next
    case False
    with applyHeartbeat_older [OF i scope] Cons show ?thesis
      by (simp add: session_of_def)
  qed
qed simp

lemma heartbeat_run_latest:
  assumes "\<forall>i\<in>set (b # is). good_heartbeat a w i (hb_time i)"
  shows "heartbeat_run now None (b # is) =
    Inr (Some (session_of (latest_heartbeat b is) (hb_time (latest_heartbeat b is))))"
proof -
  have b: "good_heartbeat a w b (hb_time b)" using assms by simp
  have "applySessionHeartbeat now None b = Inr (session_of b (hb_time b))"
    using createSession_good [OF b] by (simp add: applySessionHeartbeat_def)
  then show ?thesis
    using heartbeat_run_from [of "is" a w b] assms b by simp
qed

lemma latest_heartbeat_in: "latest_heartbeat b is \<in> set (b # is)"
proof (induction "is" arbitrary: b)
  case (Cons i "is")
  show ?case using Cons.IH [of "if hb_time b < hb_time i then i else b"] by (auto split: if_split_asm)
qed simp

lemma latest_heartbeat_max: "i \<in> set (b # is) \<Longrightarrow> hb_time i \<le> hb_time (latest_heartbeat b is)"
proof (induction "is" arbitrary: b i)
  case (Cons j "is")
  let ?c = "if hb_time b < hb_time j then j else b"
  have c: "hb_time ?c \<le> hb_time (latest_heartbeat ?c is)" by (rule Cons.IH) simp
  show ?case
  proof (cases "i \<in> set is")
    case True
    then show ?thesis using Cons.IH [of i ?c] by simp
  next
    case False
    with Cons.prems have "i = b \<or> i = j" by auto
    then have "hb_time i \<le> hb_time ?c" by auto
    with c show ?thesis by simp
  qed
qed simp

lemma heartbeat_run_perm:
  assumes good: "\<forall>i\<in>set is. good_heartbeat a w i (hb_time i)"
    and perm: "mset is = mset js" and inj: "inj_on hb_time (set is)"
  shows "heartbeat_run now None is = heartbeat_run now None js"
proof (cases "is")
  case Nil
  with perm show ?thesis by simp
next
  case (Cons b bs)
  with perm obtain c cs where js: "js = c # cs" by (cases js) auto
  have same: "set is = set js" using perm by (metis set_mset_mset)
  then have bc: "set (b # bs) = set (c # cs)" "set is = set (c # cs)" by (simp_all only: Cons js)
  let ?x = "latest_heartbeat b bs" and ?y = "latest_heartbeat c cs"
  have x: "?x \<in> set is" "?y \<in> set is"
    using latest_heartbeat_in [of b bs] latest_heartbeat_in [of c cs]
    by (simp_all only: bc)
  have "hb_time ?x = hb_time ?y"
    using latest_heartbeat_max [of ?y b bs] latest_heartbeat_max [of ?x c cs] x bc
    by (metis order_antisym)
  then have xy: "?x = ?y" using inj x by (meson inj_onD)
  have "\<forall>i\<in>set (b # bs). good_heartbeat a w i (hb_time i)"
    "\<forall>i\<in>set (c # cs). good_heartbeat a w i (hb_time i)"
    using good by (simp_all only: Cons bc)
  from this [THEN heartbeat_run_latest] show ?thesis by (simp only: Cons js xy)
qed

end
