(* ===== verification/Exceptions.thy ===== *)
theory Exceptions
  imports DomainCore
begin

text \<open>
  The errors the packages throw, and the type of anything that can be thrown. The classes are
  those of \<open>packages/domain/src/errors.ts\<close>, \<open>packages/auth/src/errors.ts\<close>, the
  \<open>BridgeApiError\<close> of \<open>apps/bridge-api/src/app.ts\<close> with the codes of
  \<open>packages/protocol/src/v1/errors.ts\<close>, and the \<open>OperatorCliError\<close> of
  \<open>apps/operator-cli/src/service.ts\<close>. Errors of other packages are a ZodError, a database
  error with its code, or any other error with its message.
\<close>

datatype auth_error_code = A_UNAUTHORIZED | A_FORBIDDEN | A_INVALID_ARGUMENT
  | A_INVALID_CLAIMS | A_CLAIM_MISMATCH | A_WORKSPACE_MISMATCH

datatype auth_error = AuthError (ae_code: auth_error_code) (ae_message: string)

datatype protocol_error_code = P_UNAUTHORIZED | P_FORBIDDEN | P_INVALID_ARGUMENT | P_NOT_FOUND
  | P_CONFLICT | P_WORKSPACE_MISMATCH | P_INVALID_THREAD_TRANSITION | P_IDEMPOTENCY_CONFLICT
  | P_RATE_LIMITED | P_INTERNAL

datatype bridge_error =
  BridgeApiError (be_code: protocol_error_code) (be_statusCode: int) (be_message: string)

datatype operator_error_code = O_INVALID_ARGUMENT | O_NOT_FOUND | O_WORKSPACE_MISMATCH
  | O_INVALID_TRANSITION | O_OVERRIDE_REQUIRED | O_CONFLICT

datatype operator_error =
  OperatorCliError (oe_code: operator_error_code) (oe_message: string)

datatype exn =
    DomainExn domain_error
  | AuthExn auth_error
  | BridgeExn bridge_error
  | OperatorExn operator_error
  | ZodExn string
  | DbExn string string
  | OtherExn string

end
