(* ===== verification/TriggerJob.thy ===== *)
theory TriggerJob
  imports DomainCore
begin

text \<open>
  The trigger job, the record that \<open>apps/bridge-api/src/trigger-store.ts\<close> creates and
  \<open>apps/supervisor-worker/src/trigger-queue.ts\<close> works on. Both files declare the same shape.
\<close>

datatype job_status = Queued | Triggering | Deferred | Delivered | Timeout | Failed
  | FallbackResume | FallbackSpawn

fun job_status_text :: "job_status \<Rightarrow> string" where
  "job_status_text Queued = ''queued''"
| "job_status_text Triggering = ''triggering''"
| "job_status_text Deferred = ''deferred''"
| "job_status_text Delivered = ''delivered''"
| "job_status_text Timeout = ''timeout''"
| "job_status_text Failed = ''failed''"
| "job_status_text FallbackResume = ''fallback_resume''"
| "job_status_text FallbackSpawn = ''fallback_spawn''"

record trigger_job =
  tj_triggerId :: string
  tj_threadId :: string
  tj_workspaceId :: string
  tj_targetAgentId :: string
  tj_targetSessionId :: "string option"
  tj_reason :: string
  tj_prompt :: string
  tj_status :: job_status
  tj_attempts :: int
  tj_maxRetries :: int
  tj_nextRetryAt :: "int option"
  tj_createdAt :: int
  tj_updatedAt :: int

text \<open>The copy that both \<open>toTriggerJobRecord\<close> functions make, field by field.\<close>

definition toTriggerJobRecord :: "trigger_job \<Rightarrow> trigger_job" where
  "toTriggerJobRecord row =
     \<lparr>tj_triggerId = tj_triggerId row, tj_threadId = tj_threadId row,
      tj_workspaceId = tj_workspaceId row, tj_targetAgentId = tj_targetAgentId row,
      tj_targetSessionId = tj_targetSessionId row, tj_reason = tj_reason row,
      tj_prompt = tj_prompt row, tj_status = tj_status row, tj_attempts = tj_attempts row,
      tj_maxRetries = tj_maxRetries row, tj_nextRetryAt = tj_nextRetryAt row,
      tj_createdAt = tj_createdAt row, tj_updatedAt = tj_updatedAt row\<rparr>"

lemma toTriggerJobRecord_id [simp]: "toTriggerJobRecord row = row"
  by (simp add: toTriggerJobRecord_def)

end
