(* ===== verification/BridgeStores.thy ===== *)
theory BridgeStores
  imports DomainThread DomainMessage DomainSession Exceptions TriggerJob
begin

text \<open>
  The stores the bridge depends on, as interfaces: the TypeScript interfaces \<open>ThreadStore\<close>,
  \<open>SessionStore\<close>, \<open>TriggerStore\<close> and \<open>AuditStore\<close> become records of operations over a
  world \<open>'w\<close>, and the contracts between the handlers and a store become locales. A contract
  speaks of a store through a view: what a world holds, whatever its representation.
\<close>

section \<open>The interfaces\<close>

record thread_summary =
  sm_summary :: string
  sm_openItems :: "string list"
  sm_lastStatus :: thread_status

record read_result =
  rr_messages :: "message list"
  rr_nextSeq :: int
  rr_hasMore :: bool

record 'w thread_store =
  ts_createThread :: "create_thread_input \<Rightarrow> ('w, exn, thread) io"
  ts_getThreadById :: "string \<Rightarrow> ('w, exn, thread option) io"
  ts_updateThreadStatus ::
    "string \<Rightarrow> thread_status \<Rightarrow> js_date \<Rightarrow> thread_status option \<Rightarrow> ('w, exn, thread option) io"
  ts_summarizeThread :: "string \<Rightarrow> int \<Rightarrow> ('w, exn, thread_summary option) io"
  ts_createMessage :: "create_message_input \<Rightarrow> ('w, exn, message) io"
  ts_getLatestMessageSeq :: "string \<Rightarrow> ('w, exn, int) io"
  ts_readMessages :: "string \<Rightarrow> int \<Rightarrow> int \<Rightarrow> ('w, exn, read_result) io"
  ts_getMessageById :: "string \<Rightarrow> string \<Rightarrow> ('w, exn, message option) io"
  ts_getMessageByIdempotency :: "string \<Rightarrow> string \<Rightarrow> string \<Rightarrow> ('w, exn, message option) io"
  ts_getParticipantCursor :: "string \<Rightarrow> string \<Rightarrow> ('w, exn, cursor option) io"
  ts_upsertParticipantCursor :: "cursor \<Rightarrow> ('w, exn, cursor) io"

record 'w session_store =
  ss_heartbeatSession :: "heartbeat_input \<Rightarrow> ('w, exn, session) io"
  ss_getLatestResumableSession :: "session_lookup \<Rightarrow> ('w, exn, session option) io"
  ss_getSession :: "string \<Rightarrow> string \<Rightarrow> ('w, exn, session option) io"

record create_or_reuse_result =
  cr_record :: trigger_job
  cr_created :: bool

record 'w trigger_store =
  trs_createOrReuseTriggerJob :: "trigger_job \<Rightarrow> ('w, exn, create_or_reuse_result) io"

record audit_event =
  au_workspaceId :: string
  au_actorAgentId :: "string option"
  au_actorRole :: "string option"
  au_operation :: string
  au_resourceType :: string
  au_resourceId :: string
  au_threadId :: "string option"
  au_requestId :: "string option"
  au_result :: string
  au_payload :: "(string \<times> json) list"
  au_createdAt :: "int option"

record 'w audit_store =
  as_writeEvent :: "audit_event \<Rightarrow> ('w, exn, unit) io"

section \<open>What a store holds\<close>

text \<open>
  The cursors and the sessions are looked up by a composed key, which is a parameter of the
  contract: the in-memory stores use \<open>threadId::agentId\<close>.
\<close>

record bridge_view =
  v_threads :: "string \<Rightarrow> thread option"
  v_messages :: "string \<Rightarrow> message list"
  v_cursors :: "string \<Rightarrow> cursor option"
  v_sessions :: "string \<Rightarrow> session option"
  v_jobs :: "string \<Rightarrow> trigger_job option"
  v_audit :: "audit_event list"

text \<open>The number of the last message of a log, and the logs whose messages are numbered 1, 2, ...\<close>

definition last_seq :: "message list \<Rightarrow> int" where
  "last_seq ms = (case js_last ms of None \<Rightarrow> 0 | Some m \<Rightarrow> ms_seq m)"

definition numbered :: "message list \<Rightarrow> bool" where
  "numbered ms \<longleftrightarrow> map ms_seq ms = map int [1..<Suc (length ms)]"

lemma last_seq_Nil [simp]: "last_seq [] = 0"
  by (simp add: last_seq_def)

lemma last_seq_snoc [simp]: "last_seq (ms @ [m]) = ms_seq m"
  by (simp add: last_seq_def)

lemma numbered_Nil [simp]: "numbered []"
  by (simp add: numbered_def)

lemma numbered_snoc_iff: "numbered (ms @ [m]) \<longleftrightarrow> numbered ms \<and> ms_seq m = int (length ms) + 1"
  by (auto simp: numbered_def)

lemma numbered_last_seq: "numbered ms \<Longrightarrow> last_seq ms = int (length ms)"
  by (cases ms rule: rev_cases) (auto simp: numbered_snoc_iff)

lemma numbered_snoc: "numbered ms \<Longrightarrow> ms_seq m = last_seq ms + 1 \<Longrightarrow> numbered (ms @ [m])"
  by (simp add: numbered_snoc_iff numbered_last_seq)

lemma numbered_nth: "numbered ms \<Longrightarrow> i < length ms \<Longrightarrow> ms_seq (ms ! i) = int i + 1"
  by (induction ms rule: rev_induct) (auto simp: numbered_snoc_iff nth_append less_Suc_eq)

text \<open>In a numbered log the messages after number \<open>n\<close> are those from position \<open>n\<close> on.\<close>

lemma numbered_filter:
  assumes "numbered ms"
  shows "filter (\<lambda>m. int n < ms_seq m) ms = drop n ms"
  using assms
proof (induction ms rule: rev_induct)
  case (snoc m ms)
  then have "numbered ms" "ms_seq m = int (length ms) + 1"
    by (simp_all add: numbered_snoc_iff)
  with snoc.IH show ?case by auto
qed simp

lemma numbered_page_end:
  assumes "numbered ms"
  shows "(case js_last (take k (drop n ms)) of None \<Rightarrow> int n | Some m \<Rightarrow> ms_seq m) =
    int (n + length (take k (drop n ms)))"
proof (cases "take k (drop n ms) = []")
  case False
  then have "0 < k" "n < length ms" by auto
  let ?i = "length (take k (drop n ms)) - 1"
  have "last (take k (drop n ms)) = ms ! (n + ?i)"
    using False \<open>n < length ms\<close> by (simp add: last_conv_nth)
  moreover have "n + ?i < length ms" using \<open>n < length ms\<close> by auto
  ultimately show ?thesis
    using False numbered_nth [OF assms] \<open>0 < k\<close> \<open>n < length ms\<close> by (simp add: js_last_def)
qed (auto simp: js_last_def)

section \<open>The contracts\<close>

text \<open>
  Reading leaves the view alone and returns what the view holds. A failed operation leaves the
  view alone too.
\<close>

locale thread_store_contract =
  fixes T :: "'w thread_store" and view :: "'w \<Rightarrow> bridge_view"
    and cursor_key :: "string \<Rightarrow> string \<Rightarrow> string"
  assumes createThread_ok: "ts_createThread T i w = (Inr t, w') \<Longrightarrow>
      view w' = (view w)\<lparr>v_threads := (v_threads (view w))(th_threadId t := Some t),
                          v_messages := (v_messages (view w))(th_threadId t := [])\<rparr> \<and>
      createThread 0 (i\<lparr>ct_status := None\<rparr>) = Inr t"
    and createThread_fail: "ts_createThread T i w = (Inl e, w') \<Longrightarrow> view w' = view w"
    and getThread_view: "ts_getThreadById T tid w = (rt, w') \<Longrightarrow> view w' = view w"
    and getThread_ok: "ts_getThreadById T tid w = (Inr ot, w') \<Longrightarrow> ot = v_threads (view w) tid"
    and updateStatus_ok: "ts_updateThreadStatus T tid s d ex w = (Inr (Some t), w') \<Longrightarrow>
      \<exists>t0. v_threads (view w) tid = Some t0 \<and> transitionThreadStatus t0 s d = Inr t \<and>
        (\<forall>x. ex = Some x \<longrightarrow> th_status t0 = x) \<and>
        view w' = (view w)\<lparr>v_threads := (v_threads (view w))(tid := Some t)\<rparr>"
    and updateStatus_none: "ts_updateThreadStatus T tid s d ex w = (Inr None, w') \<Longrightarrow> view w' = view w"
    and updateStatus_fail: "ts_updateThreadStatus T tid s d ex w = (Inl e, w') \<Longrightarrow> view w' = view w"
    and summarize_view: "ts_summarizeThread T tid n w = (rs, w') \<Longrightarrow> view w' = view w"
    and createMessage_ok: "ts_createMessage T mi w = (Inr m, w') \<Longrightarrow>
      view w' = (view w)\<lparr>v_messages := (v_messages (view w))
                   (cm_threadId mi := v_messages (view w) (cm_threadId mi) @ [m])\<rparr> \<and>
      createMessage 0 mi = Inr m \<and>
      (numbered (v_messages (view w) (cm_threadId mi)) \<longrightarrow>
        (\<forall>x\<in>set (v_messages (view w) (cm_threadId mi)). ms_seq x \<noteq> ms_seq m))"
    and createMessage_fail: "ts_createMessage T mi w = (Inl e, w') \<Longrightarrow> view w' = view w"
    and latestSeq_view: "ts_getLatestMessageSeq T tid w = (rn, w') \<Longrightarrow> view w' = view w"
    and latestSeq_ok: "ts_getLatestMessageSeq T tid w = (Inr n, w') \<Longrightarrow>
      n = last_seq (v_messages (view w) tid)"
    and readMessages_view: "ts_readMessages T tid sq l w = (rp, w') \<Longrightarrow> view w' = view w"
    and readMessages_ok: "ts_readMessages T tid sq l w = (Inr p, w') \<Longrightarrow> 0 \<le> l \<Longrightarrow>
      (let later = filter (\<lambda>x. sq < ms_seq x) (v_messages (view w) tid)
       in rr_messages p = take (nat l) later \<and>
          rr_nextSeq p = (case js_last (take (nat l) later) of None \<Rightarrow> sq | Some x \<Rightarrow> ms_seq x) \<and>
          rr_hasMore p = (l < int (length later)))"
    and messageById_view: "ts_getMessageById T tid mid w = (rm, w') \<Longrightarrow> view w' = view w"
    and messageById_ok: "ts_getMessageById T tid mid w = (Inr om, w') \<Longrightarrow>
      om = find (\<lambda>x. ms_messageId x = mid) (v_messages (view w) tid)"
    and messageByKey_view: "ts_getMessageByIdempotency T tid a k w = (rm, w') \<Longrightarrow> view w' = view w"
    and messageByKey_ok: "ts_getMessageByIdempotency T tid a k w = (Inr om, w') \<Longrightarrow>
      om = find (\<lambda>x. ms_senderAgentId x = a \<and> ms_idempotencyKey x = Some k)
            (v_messages (view w) tid)"
    and getCursor_view: "ts_getParticipantCursor T tid a w = (rc, w') \<Longrightarrow> view w' = view w"
    and getCursor_ok: "ts_getParticipantCursor T tid a w = (Inr oc, w') \<Longrightarrow>
      oc = v_cursors (view w) (cursor_key tid a)"
    and upsertCursor_ok: "ts_upsertParticipantCursor T c w = (Inr c', w') \<Longrightarrow>
      c' = c \<and> view w' = (view w)\<lparr>v_cursors := (v_cursors (view w))
                 (cursor_key (cu_threadId c) (cu_agentId c) := Some c)\<rparr>"
    and upsertCursor_fail: "ts_upsertParticipantCursor T c w = (Inl e, w') \<Longrightarrow> view w' = view w"

locale session_store_contract =
  fixes S :: "'w session_store" and view :: "'w \<Rightarrow> bridge_view"
    and session_key :: "string \<Rightarrow> string \<Rightarrow> string"
  assumes heartbeat_ok: "ss_heartbeatSession S i w = (Inr s, w') \<Longrightarrow>
      hb_heartbeatAt i = Some (At t) \<Longrightarrow>
      applySessionHeartbeat 0 (v_sessions (view w) (session_key (hb_agentId i) (hb_workspaceId i))) i
        = Inr s \<and>
      view w' = (view w)\<lparr>v_sessions := (v_sessions (view w))
                  (session_key (hb_agentId i) (hb_workspaceId i) := Some s)\<rparr>"
    and heartbeat_fail: "ss_heartbeatSession S i w = (Inl e, w') \<Longrightarrow> view w' = view w"
    and getSession_view: "ss_getSession S a ws w = (rs, w') \<Longrightarrow> view w' = view w"
    and getSession_ok: "ss_getSession S a ws w = (Inr os, w') \<Longrightarrow>
      os = v_sessions (view w) (session_key a ws)"
    and latestResumable_view: "ss_getLatestResumableSession S l w = (rs, w') \<Longrightarrow> view w' = view w"
begin

text \<open>A heartbeat never moves the recorded time backwards.\<close>

lemma heartbeat_monotone:
  assumes "ss_heartbeatSession S i w = (Inr s, w')" "hb_heartbeatAt i = Some (At t)"
    "v_sessions (view w) (session_key (hb_agentId i) (hb_workspaceId i)) = Some s0"
  shows "se_lastHeartbeatAt s0 \<le> se_lastHeartbeatAt s"
  using heartbeat_ok [OF assms(1,2)] assms(3) applyHeartbeat_frame(3) [of 0 s0 i s] by simp

end

locale trigger_store_contract =
  fixes J :: "'w trigger_store" and view :: "'w \<Rightarrow> bridge_view"
  assumes createOrReuse_ok: "trs_createOrReuseTriggerJob J j w = (Inr r, w') \<Longrightarrow>
      (case v_jobs (view w) (tj_triggerId j) of
         Some old \<Rightarrow> r = \<lparr>cr_record = old, cr_created = False\<rparr> \<and> view w' = view w
       | None \<Rightarrow> r = \<lparr>cr_record = j, cr_created = True\<rparr> \<and>
           view w' = (view w)\<lparr>v_jobs := (v_jobs (view w))(tj_triggerId j := Some j)\<rparr>)"
    and createOrReuse_fail: "trs_createOrReuseTriggerJob J j w = (Inl e, w') \<Longrightarrow> view w' = view w"
begin

text \<open>The first job under an id stays: creating it again returns it.\<close>

lemma createOrReuse_again:
  assumes "trs_createOrReuseTriggerJob J j w = (Inr r, w')"
    "trs_createOrReuseTriggerJob J j' w' = (Inr r', w'')" "tj_triggerId j' = tj_triggerId j"
  shows "cr_record r' = cr_record r \<and> \<not> cr_created r' \<and> view w'' = view w'"
  using createOrReuse_ok [OF assms(1)] createOrReuse_ok [OF assms(2)] assms(3)
  by (auto split: option.split_asm)

end

locale audit_store_contract =
  fixes A :: "'w audit_store" and view :: "'w \<Rightarrow> bridge_view"
  assumes writeEvent_ok: "as_writeEvent A e w = (Inr u, w') \<Longrightarrow> au_createdAt e = Some t \<Longrightarrow>
      view w' = (view w)\<lparr>v_audit := v_audit (view w) @ [e]\<rparr>"
    and writeEvent_fail: "as_writeEvent A e w = (Inl x, w') \<Longrightarrow> view w' = view w"

end
