(* ===== verification/BridgeMemory.thy ===== *)
theory BridgeMemory
  imports BridgeStores
begin

text \<open>
  The in-memory stores of the bridge: \<open>InMemoryThreadStore\<close> (\<open>thread-store.ts\<close>),
  \<open>InMemorySessionStore\<close> (\<open>session-store.ts\<close>), \<open>InMemoryTriggerStore\<close>
  (\<open>trigger-store.ts\<close>) and \<open>InMemoryAuditStore\<close> (\<open>audit-store.ts\<close>), and the world that
  holds one of each together with whatever the clock, the id generator and the token verifier
  need (\<open>bw_env\<close>). At the end each store is shown to keep its contract.
\<close>

section \<open>The thread store\<close>

record mem_threads =
  mt_threadRecords :: "(string, thread) js_map"
  mt_messageRecords :: "(string, message list) js_map"
  mt_cursorRecords :: "(string, cursor) js_map"

definition cursorKey :: "string \<Rightarrow> string \<Rightarrow> string" where
  "cursorKey threadId agentId = threadId @ ''::'' @ agentId"

definition buildThreadSummaryText :: "thread_status \<Rightarrow> nat \<Rightarrow> int \<Rightarrow> string" where
  "buildThreadSummaryText status messageCount maxMessages =
     (if messageCount = 0
      then ''No messages yet. Thread is currently '' @ status_text status @ ''.''
      else ''Reviewed '' @ show_nat messageCount @ '' most recent message(s) (max=''
             @ show_int maxMessages @ ''). Thread is currently '' @ status_text status @ ''.'')"

definition mem_messages :: "mem_threads \<Rightarrow> string \<Rightarrow> message list" where
  "mem_messages s threadId =
     (case js_get (mt_messageRecords s) threadId of None \<Rightarrow> [] | Some ms \<Rightarrow> ms)"

definition mem_createThread :: "create_thread_input \<Rightarrow> (mem_threads, exn, thread) io" where
  "mem_createThread input s =
     (case createThread 0 (input\<lparr>ct_status := None\<rparr>) of
        Inl e \<Rightarrow> (Inl (DomainExn e), s)
      | Inr record \<Rightarrow>
          (Inr record,
           s\<lparr>mt_threadRecords := js_set (th_threadId record) record (mt_threadRecords s),
             mt_messageRecords := js_set (th_threadId record) [] (mt_messageRecords s)\<rparr>))"

definition mem_getThreadById :: "string \<Rightarrow> (mem_threads, exn, thread option) io" where
  "mem_getThreadById threadId s = (Inr (js_get (mt_threadRecords s) threadId), s)"

definition mem_updateThreadStatus ::
  "string \<Rightarrow> thread_status \<Rightarrow> js_date \<Rightarrow> thread_status option \<Rightarrow>
     (mem_threads, exn, thread option) io" where
  "mem_updateThreadStatus threadId nextStatus updatedAt expectedCurrentStatus s =
     (case js_get (mt_threadRecords s) threadId of
        None \<Rightarrow> (Inr None, s)
      | Some existing \<Rightarrow>
          if (case expectedCurrentStatus of None \<Rightarrow> False | Some x \<Rightarrow> th_status existing \<noteq> x)
          then (Inr None, s)
          else (case transitionThreadStatus existing nextStatus updatedAt of
                  Inl e \<Rightarrow> (Inl (DomainExn e), s)
                | Inr updated \<Rightarrow>
                    (Inr (Some updated),
                     s\<lparr>mt_threadRecords := js_set threadId updated (mt_threadRecords s)\<rparr>)))"

definition mem_summarizeThread :: "string \<Rightarrow> int \<Rightarrow> (mem_threads, exn, thread_summary option) io" where
  "mem_summarizeThread threadId maxMessages s =
     (case js_get (mt_threadRecords s) threadId of
        None \<Rightarrow> (Inr None, s)
      | Some existing \<Rightarrow>
          (Inr (Some \<lparr>sm_summary = buildThreadSummaryText (th_status existing)
                        (length (mem_messages s threadId)) maxMessages,
                 sm_openItems = [], sm_lastStatus = th_status existing\<rparr>), s))"

definition mem_createMessage :: "create_message_input \<Rightarrow> (mem_threads, exn, message) io" where
  "mem_createMessage input s =
     (let messagesForThread = mem_messages s (cm_threadId input);
          lastSeq = (case js_last messagesForThread of None \<Rightarrow> 0 | Some m \<Rightarrow> ms_seq m)
      in case ebind (getNextMessageSequence (js_int lastSeq)) (\<lambda>expectedNextSeq.
                if cm_seq input \<noteq> js_int expectedNextSeq
                then Inl (DomainError D_SEQUENCE_VIOLATION
                            ''Message sequence must increment by exactly one'')
                else createMessage 0 input) of
           Inl e \<Rightarrow> (Inl (DomainExn e), s)
         | Inr record \<Rightarrow>
             (Inr record,
              s\<lparr>mt_messageRecords :=
                  js_set (cm_threadId input) (messagesForThread @ [record]) (mt_messageRecords s)\<rparr>))"

definition mem_getLatestMessageSeq :: "string \<Rightarrow> (mem_threads, exn, int) io" where
  "mem_getLatestMessageSeq threadId s =
     (Inr (case js_last (mem_messages s threadId) of None \<Rightarrow> 0 | Some m \<Rightarrow> ms_seq m), s)"

definition mem_readMessages :: "string \<Rightarrow> int \<Rightarrow> int \<Rightarrow> (mem_threads, exn, read_result) io" where
  "mem_readMessages threadId sinceSeq limit s =
     (let filtered = filter (\<lambda>m. sinceSeq < ms_seq m) (mem_messages s threadId);
          page = js_slice0 limit filtered;
          nextSeq = (case js_last page of None \<Rightarrow> sinceSeq | Some m \<Rightarrow> ms_seq m)
      in (Inr \<lparr>rr_messages = page, rr_nextSeq = nextSeq,
              rr_hasMore = limit < int (length filtered)\<rparr>, s))"

definition mem_getMessageById :: "string \<Rightarrow> string \<Rightarrow> (mem_threads, exn, message option) io" where
  "mem_getMessageById threadId messageId s =
     (Inr (find (\<lambda>m. ms_messageId m = messageId) (mem_messages s threadId)), s)"

definition mem_getMessageByIdempotency ::
  "string \<Rightarrow> string \<Rightarrow> string \<Rightarrow> (mem_threads, exn, message option) io" where
  "mem_getMessageByIdempotency threadId senderAgentId idempotencyKey s =
     (Inr (find (\<lambda>m. ms_senderAgentId m = senderAgentId \<and>
                     ms_idempotencyKey m = Some idempotencyKey) (mem_messages s threadId)), s)"

definition mem_getParticipantCursor :: "string \<Rightarrow> string \<Rightarrow> (mem_threads, exn, cursor option) io" where
  "mem_getParticipantCursor threadId agentId s =
     (Inr (js_get (mt_cursorRecords s) (cursorKey threadId agentId)), s)"

definition mem_upsertParticipantCursor :: "cursor \<Rightarrow> (mem_threads, exn, cursor) io" where
  "mem_upsertParticipantCursor cursor s =
     (Inr cursor,
      s\<lparr>mt_cursorRecords :=
          js_set (cursorKey (cu_threadId cursor) (cu_agentId cursor)) cursor (mt_cursorRecords s)\<rparr>)"

section \<open>Sessions, trigger jobs and audit events\<close>

type_synonym mem_sessions = "(string, session) js_map"

definition sessionKey :: "string \<Rightarrow> string \<Rightarrow> string" where
  "sessionKey agentId workspaceId = agentId @ ''::'' @ workspaceId"

text \<open>\<open>referenceTime\<close> defaults to \<open>new Date()\<close>, the argument \<open>now\<close>.\<close>

definition isSessionRecordStale ::
  "int \<Rightarrow> session \<Rightarrow> js_number \<Rightarrow> js_date option \<Rightarrow> domain_error + bool" where
  "isSessionRecordStale now session staleAfterHours referenceTime =
     isSessionStale session staleAfterHours
       (case referenceTime of None \<Rightarrow> At now | Some d \<Rightarrow> d)"

definition mem_heartbeatSession :: "int \<Rightarrow> heartbeat_input \<Rightarrow> (mem_sessions, exn, session) io" where
  "mem_heartbeatSession now input s =
     (let key = sessionKey (hb_agentId input) (hb_workspaceId input)
      in case applySessionHeartbeat now (js_get s key) input of
           Inl e \<Rightarrow> (Inl (DomainExn e), s)
         | Inr updated \<Rightarrow> (Inr updated, js_set key updated s))"

definition mem_getLatestResumableSession ::
  "int \<Rightarrow> session_lookup \<Rightarrow> (mem_sessions, exn, session option) io" where
  "mem_getLatestResumableSession now lookup s =
     (case js_get s (sessionKey (lk_agentId lookup) (lk_workspaceId lookup)) of
        None \<Rightarrow> (Inr None, s)
      | Some existing \<Rightarrow>
          if \<not> se_resumable existing then (Inr None, s)
          else (case isSessionRecordStale now existing (lk_staleAfterHours lookup)
                       (lk_referenceTime lookup) of
                  Inl e \<Rightarrow> (Inl (DomainExn e), s)
                | Inr stale \<Rightarrow> (Inr (if stale then None else Some existing), s)))"

definition mem_getSession :: "string \<Rightarrow> string \<Rightarrow> (mem_sessions, exn, session option) io" where
  "mem_getSession agentId workspaceId s = (Inr (js_get s (sessionKey agentId workspaceId)), s)"

type_synonym mem_jobs = "(string, trigger_job) js_map"

definition mem_createOrReuseTriggerJob ::
  "trigger_job \<Rightarrow> (mem_jobs, exn, create_or_reuse_result) io" where
  "mem_createOrReuseTriggerJob input s =
     (case js_get s (tj_triggerId input) of
        Some existing \<Rightarrow> (Inr \<lparr>cr_record = existing, cr_created = False\<rparr>, s)
      | None \<Rightarrow>
          let created = toTriggerJobRecord input
          in (Inr \<lparr>cr_record = created, cr_created = True\<rparr>, js_set (tj_triggerId created) created s))"

text \<open>An event without a time gets \<open>new Date()\<close>; the bridge always gives one.\<close>

definition mem_writeEvent :: "int \<Rightarrow> audit_event \<Rightarrow> (audit_event list, exn, unit) io" where
  "mem_writeEvent now input s =
     (Inr (), s @ [input\<lparr>au_createdAt :=
        Some (case au_createdAt input of None \<Rightarrow> now | Some t \<Rightarrow> t)\<rparr>])"

section \<open>One world with all stores\<close>

record 'e bridge_world =
  bw_threads :: mem_threads
  bw_sessions :: mem_sessions
  bw_jobs :: mem_jobs
  bw_audit :: "audit_event list"
  bw_env :: 'e

definition empty_world :: "'e \<Rightarrow> 'e bridge_world" where
  "empty_world env = \<lparr>bw_threads = \<lparr>mt_threadRecords = [], mt_messageRecords = [],
       mt_cursorRecords = []\<rparr>, bw_sessions = [], bw_jobs = [], bw_audit = [], bw_env = env\<rparr>"

abbreviation on_threads :: "(mem_threads, exn, 'a) io \<Rightarrow> ('e bridge_world, exn, 'a) io" where
  "on_threads \<equiv> io_zoom bw_threads (\<lambda>s w. w\<lparr>bw_threads := s\<rparr>)"

abbreviation on_sessions :: "(mem_sessions, exn, 'a) io \<Rightarrow> ('e bridge_world, exn, 'a) io" where
  "on_sessions \<equiv> io_zoom bw_sessions (\<lambda>s w. w\<lparr>bw_sessions := s\<rparr>)"

abbreviation on_jobs :: "(mem_jobs, exn, 'a) io \<Rightarrow> ('e bridge_world, exn, 'a) io" where
  "on_jobs \<equiv> io_zoom bw_jobs (\<lambda>s w. w\<lparr>bw_jobs := s\<rparr>)"

abbreviation on_audit :: "(audit_event list, exn, 'a) io \<Rightarrow> ('e bridge_world, exn, 'a) io" where
  "on_audit \<equiv> io_zoom bw_audit (\<lambda>s w. w\<lparr>bw_audit := s\<rparr>)"

abbreviation on_env :: "('e, exn, 'a) io \<Rightarrow> ('e bridge_world, exn, 'a) io" where
  "on_env \<equiv> io_zoom bw_env (\<lambda>s w. w\<lparr>bw_env := s\<rparr>)"

definition memThreadStore :: "'e bridge_world thread_store" where
  "memThreadStore =
     \<lparr>ts_createThread = (\<lambda>i. on_threads (mem_createThread i)),
      ts_getThreadById = (\<lambda>t. on_threads (mem_getThreadById t)),
      ts_updateThreadStatus = (\<lambda>t s d x. on_threads (mem_updateThreadStatus t s d x)),
      ts_summarizeThread = (\<lambda>t n. on_threads (mem_summarizeThread t n)),
      ts_createMessage = (\<lambda>i. on_threads (mem_createMessage i)),
      ts_getLatestMessageSeq = (\<lambda>t. on_threads (mem_getLatestMessageSeq t)),
      ts_readMessages = (\<lambda>t s l. on_threads (mem_readMessages t s l)),
      ts_getMessageById = (\<lambda>t m. on_threads (mem_getMessageById t m)),
      ts_getMessageByIdempotency = (\<lambda>t a k. on_threads (mem_getMessageByIdempotency t a k)),
      ts_getParticipantCursor = (\<lambda>t a. on_threads (mem_getParticipantCursor t a)),
      ts_upsertParticipantCursor = (\<lambda>c. on_threads (mem_upsertParticipantCursor c))\<rparr>"

definition memSessionStore :: "int \<Rightarrow> 'e bridge_world session_store" where
  "memSessionStore now =
     \<lparr>ss_heartbeatSession = (\<lambda>i. on_sessions (mem_heartbeatSession now i)),
      ss_getLatestResumableSession = (\<lambda>l. on_sessions (mem_getLatestResumableSession now l)),
      ss_getSession = (\<lambda>a w. on_sessions (mem_getSession a w))\<rparr>"

definition memTriggerStore :: "'e bridge_world trigger_store" where
  "memTriggerStore =
     \<lparr>trs_createOrReuseTriggerJob = (\<lambda>j. on_jobs (mem_createOrReuseTriggerJob j))\<rparr>"

definition memAuditStore :: "int \<Rightarrow> 'e bridge_world audit_store" where
  "memAuditStore now = \<lparr>as_writeEvent = (\<lambda>e. on_audit (mem_writeEvent now e))\<rparr>"

definition mem_view :: "'e bridge_world \<Rightarrow> bridge_view" where
  "mem_view w =
     \<lparr>v_threads = js_get (mt_threadRecords (bw_threads w)),
      v_messages = mem_messages (bw_threads w),
      v_cursors = js_get (mt_cursorRecords (bw_threads w)),
      v_sessions = js_get (bw_sessions w),
      v_jobs = js_get (bw_jobs w),
      v_audit = bw_audit w\<rparr>"

section \<open>The stores keep their contracts\<close>

lemmas mem_thread_defs = memThreadStore_def io_zoom_iff mem_view_def
  mem_createThread_def mem_getThreadById_def mem_updateThreadStatus_def mem_summarizeThread_def
  mem_createMessage_def mem_getLatestMessageSeq_def mem_readMessages_def mem_getMessageById_def
  mem_getMessageByIdempotency_def mem_getParticipantCursor_def mem_upsertParticipantCursor_def

lemma js_get_set_fun: "js_get (js_set k v m) = (js_get m)(k := Some v)"
  by (rule ext) simp

lemma mem_messages_set:
  "mem_messages (s\<lparr>mt_messageRecords := js_set k ms (mt_messageRecords s)\<rparr>) = (mem_messages s)(k := ms)"
  by (rule ext) (simp add: mem_messages_def)

lemma mem_messages_frame [simp]:
  "mem_messages (s\<lparr>mt_threadRecords := x\<rparr>) = mem_messages s"
  "mem_messages (s\<lparr>mt_cursorRecords := y\<rparr>) = mem_messages s"
  "mem_messages (s\<lparr>mt_threadRecords := x, mt_messageRecords := z\<rparr>) =
     mem_messages (s\<lparr>mt_messageRecords := z\<rparr>)"
  by (simp_all add: mem_messages_def fun_eq_iff)

lemma mem_createMessage_Inr:
  assumes "mem_createMessage i s = (Inr m, s')"
  shows "createMessage 0 i = Inr m" "ms_seq m = last_seq (mem_messages s (cm_threadId i)) + 1"
    "s' = s\<lparr>mt_messageRecords := js_set (cm_threadId i)
       (mem_messages s (cm_threadId i) @ [m]) (mt_messageRecords s)\<rparr>"
proof -
  let ?l = "last_seq (mem_messages s (cm_threadId i))"
  from assms have e: "ebind (getNextMessageSequence (js_int ?l)) (\<lambda>n.
      if cm_seq i \<noteq> js_int n
      then Inl (DomainError D_SEQUENCE_VIOLATION ''Message sequence must increment by exactly one'')
      else createMessage 0 i) = Inr m"
    and s': "s' = s\<lparr>mt_messageRecords := js_set (cm_threadId i)
       (mem_messages s (cm_threadId i) @ [m]) (mt_messageRecords s)\<rparr>"
    unfolding mem_createMessage_def Let_def last_seq_def
    by (auto split: sum.split_asm simp del: ebind_Inr_iff)
  from e [unfolded ebind_Inr_iff] obtain n where g: "getNextMessageSequence (js_int ?l) = Inr n"
    and b: "(if cm_seq i \<noteq> js_int n
      then Inl (DomainError D_SEQUENCE_VIOLATION ''Message sequence must increment by exactly one'')
      else createMessage 0 i) = Inr m"
    by blast
  from b have n: "getNextMessageSequence (js_int ?l) = Inr n" "cm_seq i = js_int n"
    and c: "createMessage 0 i = Inr m"
    using g by (auto split: if_split_asm)
  from n(1) have "n = ?l + 1" by (auto simp: getNextMessageSequence_Inr_iff)
  with n(2) createMessage_Inr_fields(3) [OF c]
  show "createMessage 0 i = Inr m" "ms_seq m = ?l + 1"
    "s' = s\<lparr>mt_messageRecords := js_set (cm_threadId i)
       (mem_messages s (cm_threadId i) @ [m]) (mt_messageRecords s)\<rparr>"
    using c s' by auto
qed

lemma numbered_fresh: "numbered ms \<Longrightarrow> ms_seq m = last_seq ms + 1 \<Longrightarrow> x \<in> set ms \<Longrightarrow> ms_seq x \<noteq> ms_seq m"
  by (auto simp: numbered_last_seq in_set_conv_nth numbered_nth)

interpretation mem_ts: thread_store_contract memThreadStore mem_view cursorKey
proof (unfold_locales, goal_cases)
  case (9 mi w m w')
  then obtain s where s: "mem_createMessage mi (bw_threads w) = (Inr m, s)" "w' = w\<lparr>bw_threads := s\<rparr>"
    by (auto simp: memThreadStore_def io_zoom_iff)
  note m = mem_createMessage_Inr [OF s(1)]
  show ?case
    using m s(2) numbered_fresh [of _ m]
    by (auto simp: mem_view_def mem_messages_set)
next
  case 10
  then show ?case
    by (auto simp: memThreadStore_def io_zoom_iff mem_createMessage_def mem_view_def Let_def
        split: sum.split_asm)
next
  case 14
  then show ?case
    by (auto simp: mem_thread_defs js_slice0_def Let_def)
qed (auto simp: mem_thread_defs js_get_set_fun mem_messages_set last_seq_def Let_def
      split: sum.split_asm option.split_asm if_split_asm)

interpretation mem_ss: session_store_contract "memSessionStore now" mem_view sessionKey
proof (unfold_locales, goal_cases)
  case (1 i w s w' t)
  have "applySessionHeartbeat now x i = applySessionHeartbeat 0 x i" for x
    using 1(2) by (cases x) (simp_all add: applySessionHeartbeat_def createSessionFromHeartbeat_def)
  with 1 show ?case
    by (auto simp: memSessionStore_def io_zoom_iff mem_heartbeatSession_def mem_view_def Let_def
        js_get_set_fun split: sum.split_asm)
qed (auto simp: memSessionStore_def io_zoom_iff mem_heartbeatSession_def mem_view_def Let_def
      mem_getSession_def mem_getLatestResumableSession_def
      split: sum.split_asm option.split_asm if_split_asm)

interpretation mem_js: trigger_store_contract memTriggerStore mem_view
  by unfold_locales
    (auto simp: memTriggerStore_def io_zoom_iff mem_createOrReuseTriggerJob_def mem_view_def Let_def
      js_get_set_fun split: option.splits)

interpretation mem_as: audit_store_contract "memAuditStore now" mem_view
  by unfold_locales (auto simp: memAuditStore_def io_zoom_iff mem_writeEvent_def mem_view_def)

end
