(* ===== verification/Auth.thy ===== *)
theory Auth
  imports Exceptions
begin

text \<open>
  Authentication and authorisation (\<open>packages/auth/src\<close>): the role tables, the mapping of a
  verified token payload to claims, the identity and workspace checks, and the verifier.
  \<open>jose\<close> is outside the repository: \<open>jwtVerify\<close> and \<open>createRemoteJWKSet(new URL(url))\<close> are
  arguments of the verifier.
\<close>

section \<open>Roles\<close>

datatype auth_role = Participant | Coordinator | Auditor

fun role_text :: "auth_role \<Rightarrow> string" where
  "role_text Participant = ''participant''"
| "role_text Coordinator = ''coordinator''"
| "role_text Auditor = ''auditor''"

definition authRoles :: "auth_role list" where
  "authRoles = [Participant, Coordinator, Auditor]"

record role_permissions =
  canReadThread :: bool
  canWriteMessage :: bool
  canManageThread :: bool
  canReadAudit :: bool

fun rolePermissions :: "auth_role \<Rightarrow> role_permissions" where
  "rolePermissions Participant =
     \<lparr>canReadThread = True, canWriteMessage = True, canManageThread = False, canReadAudit = False\<rparr>"
| "rolePermissions Coordinator =
     \<lparr>canReadThread = True, canWriteMessage = True, canManageThread = True, canReadAudit = True\<rparr>"
| "rolePermissions Auditor =
     \<lparr>canReadThread = True, canWriteMessage = False, canManageThread = False, canReadAudit = True\<rparr>"

datatype auth_operation = ThreadRead | ThreadManage | MessageRead | MessageWrite
  | SessionHeartbeat | AuditRead

fun operation_text :: "auth_operation \<Rightarrow> string" where
  "operation_text ThreadRead = ''thread:read''"
| "operation_text ThreadManage = ''thread:manage''"
| "operation_text MessageRead = ''message:read''"
| "operation_text MessageWrite = ''message:write''"
| "operation_text SessionHeartbeat = ''session:heartbeat''"
| "operation_text AuditRead = ''audit:read''"

fun operationAllowedRoles :: "auth_operation \<Rightarrow> auth_role list" where
  "operationAllowedRoles ThreadRead = [Participant, Coordinator, Auditor]"
| "operationAllowedRoles ThreadManage = [Coordinator]"
| "operationAllowedRoles MessageRead = [Participant, Coordinator, Auditor]"
| "operationAllowedRoles MessageWrite = [Participant, Coordinator]"
| "operationAllowedRoles SessionHeartbeat = [Participant, Coordinator, Auditor]"
| "operationAllowedRoles AuditRead = [Coordinator, Auditor]"

definition isRoleAllowed :: "auth_role \<Rightarrow> auth_role list \<Rightarrow> bool" where
  "isRoleAllowed role allowedRoles \<longleftrightarrow> role \<in> set allowedRoles"

definition assertRoleAllowed ::
  "auth_role \<Rightarrow> auth_role list \<Rightarrow> string option \<Rightarrow> auth_error + unit" where
  "assertRoleAllowed role allowedRoles operation =
     (if isRoleAllowed role allowedRoles then Inr ()
      else Inl (AuthError A_FORBIDDEN
        (''Role '' @ quoted (role_text role) @ '' is not allowed for operation ''
          @ quoted (case operation of None \<Rightarrow> ''unknown'' | Some n \<Rightarrow> n))))"

definition authorizeOperation :: "auth_role \<Rightarrow> auth_operation \<Rightarrow> auth_error + unit" where
  "authorizeOperation role operation =
     assertRoleAllowed role (operationAllowedRoles operation) (Some (operation_text operation))"

definition allowed :: "auth_role \<Rightarrow> auth_operation \<Rightarrow> bool" where
  "allowed role operation \<longleftrightarrow> role \<in> set (operationAllowedRoles operation)"

lemma authorizeOperation_Inr_iff [simp]: "authorizeOperation r op = Inr u \<longleftrightarrow> allowed r op"
  by (cases u) (simp add: authorizeOperation_def assertRoleAllowed_def isRoleAllowed_def allowed_def)

lemma authorizeOperation_Inl:
  "authorizeOperation r op = Inl e \<Longrightarrow> ae_code e = A_FORBIDDEN \<and> \<not> allowed r op"
  by (auto simp: authorizeOperation_def assertRoleAllowed_def isRoleAllowed_def allowed_def
      split: if_splits)

lemma allowed_simps [simp]:
  "allowed r ThreadRead" "allowed r MessageRead" "allowed r SessionHeartbeat"
  "allowed r ThreadManage \<longleftrightarrow> r = Coordinator" "allowed r MessageWrite \<longleftrightarrow> r \<noteq> Auditor"
  "allowed r AuditRead \<longleftrightarrow> r \<noteq> Participant"
  by (cases r; simp add: allowed_def)+

section \<open>Claims\<close>

type_synonym jwt_payload = "(string \<times> json) list"

record claims =
  ac_agentId :: string
  ac_workspaceId :: string
  ac_role :: auth_role
  ac_sessionId :: string
  ac_issuedAt :: rat
  ac_expiresAt :: rat
  ac_jwtId :: string
  ac_raw :: jwt_payload

definition requireStringClaim :: "jwt_payload \<Rightarrow> string \<Rightarrow> auth_error + string" where
  "requireStringClaim payload claim =
     (let missing = AuthError A_INVALID_CLAIMS
            (''Missing or invalid required claim '' @ quoted claim)
      in case map_of payload claim of
           Some (JString v) \<Rightarrow> if length (trim v) = 0 then Inl missing else Inr v
         | _ \<Rightarrow> Inl missing)"

definition requireNumericClaim :: "jwt_payload \<Rightarrow> string \<Rightarrow> int \<Rightarrow> auth_error + rat" where
  "requireNumericClaim payload claim minimumValue =
     (let missing = AuthError A_INVALID_CLAIMS
            (''Missing or invalid required claim '' @ quoted claim)
      in case map_of payload claim of
           Some (JNumber (Finite v)) \<Rightarrow>
             if v < of_int minimumValue
             then Inl (AuthError A_INVALID_CLAIMS
                    (''Claim '' @ quoted claim @ '' must be >= '' @ show_int minimumValue))
             else Inr v
         | _ \<Rightarrow> Inl missing)"

definition requireRoleClaim :: "jwt_payload \<Rightarrow> auth_error + auth_role" where
  "requireRoleClaim payload =
     ebind (requireStringClaim payload ''role'') (\<lambda>role.
       case find (\<lambda>r. role_text r = role) authRoles of
         None \<Rightarrow> Inl (AuthError A_INVALID_CLAIMS (''Unsupported role '' @ quoted role))
       | Some r \<Rightarrow> Inr r)"

definition mapVerifiedClaims :: "jwt_payload \<Rightarrow> auth_error + claims" where
  "mapVerifiedClaims payload =
     ebind (requireStringClaim payload ''agent_id'') (\<lambda>agentId.
     ebind (requireStringClaim payload ''workspace_id'') (\<lambda>workspaceId.
     ebind (requireRoleClaim payload) (\<lambda>role.
     ebind (requireStringClaim payload ''session_id'') (\<lambda>sessionId.
     ebind (requireStringClaim payload ''jti'') (\<lambda>jwtId.
     ebind (requireNumericClaim payload ''iat'' 1) (\<lambda>issuedAt.
     ebind (requireNumericClaim payload ''exp'' 1) (\<lambda>expiresAt.
       Inr \<lparr>ac_agentId = agentId, ac_workspaceId = workspaceId, ac_role = role,
            ac_sessionId = sessionId, ac_issuedAt = issuedAt, ac_expiresAt = expiresAt,
            ac_jwtId = jwtId, ac_raw = payload\<rparr>)))))))"

record identity_hints =
  ih_agent_id :: "string option"
  ih_workspace_id :: "string option"
  ih_role :: "string option"
  ih_session_id :: "string option"

definition no_hints :: identity_hints where
  "no_hints = \<lparr>ih_agent_id = None, ih_workspace_id = None, ih_role = None, ih_session_id = None\<rparr>"

definition assertHintMatch :: "string \<Rightarrow> string option \<Rightarrow> string \<Rightarrow> auth_error + unit" where
  "assertHintMatch hintName hintValue claimValue =
     (case hintValue of
        None \<Rightarrow> Inr ()
      | Some v \<Rightarrow>
          if v \<noteq> claimValue
          then Inl (AuthError A_CLAIM_MISMATCH (''Payload identity mismatch on '' @ quoted hintName))
          else Inr ())"

definition assertPayloadIdentityMatchesClaims ::
  "claims \<Rightarrow> identity_hints \<Rightarrow> auth_error + unit" where
  "assertPayloadIdentityMatchesClaims claims hints =
     ebind (assertHintMatch ''agent_id'' (ih_agent_id hints) (ac_agentId claims)) (\<lambda>_.
     ebind (assertHintMatch ''workspace_id'' (ih_workspace_id hints) (ac_workspaceId claims)) (\<lambda>_.
     ebind (assertHintMatch ''role'' (ih_role hints) (role_text (ac_role claims))) (\<lambda>_.
       assertHintMatch ''session_id'' (ih_session_id hints) (ac_sessionId claims))))"

definition assertWorkspaceBoundary :: "claims \<Rightarrow> string \<Rightarrow> auth_error + unit" where
  "assertWorkspaceBoundary claims targetWorkspaceId =
     (if length (trim targetWorkspaceId) = 0
      then Inl (AuthError A_INVALID_ARGUMENT
             (quoted ''targetWorkspaceId'' @ '' must be a non-empty string''))
      else if ac_workspaceId claims \<noteq> targetWorkspaceId
      then Inl (AuthError A_WORKSPACE_MISMATCH
             (''Workspace mismatch: token='' @ ac_workspaceId claims @ '' request=''
                @ targetWorkspaceId))
      else Inr ())"

lemma no_hints_simps [simp]:
  "ih_agent_id no_hints = None" "ih_workspace_id no_hints = None" "ih_role no_hints = None"
  "ih_session_id no_hints = None"
  by (simp_all add: no_hints_def)

lemma requireStringClaim_Inr_iff [simp]:
  "requireStringClaim p c = Inr v \<longleftrightarrow> map_of p c = Some (JString v) \<and> trim v \<noteq> []"
  by (auto simp: requireStringClaim_def Let_def split: option.splits json.splits)

lemma requireNumericClaim_Inr_iff [simp]:
  "requireNumericClaim p c n = Inr v \<longleftrightarrow>
     map_of p c = Some (JNumber (Finite v)) \<and> of_int n \<le> v"
  by (auto simp: requireNumericClaim_def Let_def split: option.splits json.splits js_number.splits)

lemma role_text_inject [simp]: "role_text r = role_text r' \<longleftrightarrow> r = r'"
  by (cases r; cases r') simp_all

lemma find_role: "find (\<lambda>r. role_text r = s) authRoles = Some r \<longleftrightarrow> s = role_text r"
  by (cases r) (auto simp: authRoles_def)

lemma requireRoleClaim_Inr_iff [simp]:
  "requireRoleClaim p = Inr r \<longleftrightarrow> map_of p ''role'' = Some (JString (role_text r))"
proof -
  have "trim (role_text r) \<noteq> []"
    by (cases r) (simp_all add: trim_def trim_start_def is_space_def)
  then show ?thesis
    by (auto simp: requireRoleClaim_def find_role split: option.splits)
qed

lemma requireClaim_Inl:
  "requireStringClaim p c = Inl e \<Longrightarrow> ae_code e = A_INVALID_CLAIMS"
  "requireNumericClaim p c n = Inl e \<Longrightarrow> ae_code e = A_INVALID_CLAIMS"
  "requireRoleClaim p = Inl e \<Longrightarrow> ae_code e = A_INVALID_CLAIMS"
  by (auto simp: requireStringClaim_def requireNumericClaim_def requireRoleClaim_def Let_def
      ebind_Inl_iff split: option.splits json.splits js_number.splits if_splits)

lemma mapVerifiedClaims_Inl: "mapVerifiedClaims p = Inl e \<Longrightarrow> ae_code e = A_INVALID_CLAIMS"
  by (auto simp: mapVerifiedClaims_def ebind_Inl_iff dest: requireClaim_Inl)

lemma assertHintMatch_Inr_iff [simp]:
  "assertHintMatch n h v = Inr u \<longleftrightarrow> (\<forall>x. h = Some x \<longrightarrow> x = v)"
  by (cases u) (auto simp: assertHintMatch_def split: option.splits)

lemma assertPayload_Inr_iff [simp]:
  "assertPayloadIdentityMatchesClaims c h = Inr u \<longleftrightarrow>
     (\<forall>x. ih_agent_id h = Some x \<longrightarrow> x = ac_agentId c) \<and>
     (\<forall>x. ih_workspace_id h = Some x \<longrightarrow> x = ac_workspaceId c) \<and>
     (\<forall>x. ih_role h = Some x \<longrightarrow> x = role_text (ac_role c)) \<and>
     (\<forall>x. ih_session_id h = Some x \<longrightarrow> x = ac_sessionId c)"
  by (simp add: assertPayloadIdentityMatchesClaims_def)

lemma assertPayload_Inl:
  "assertPayloadIdentityMatchesClaims c h = Inl e \<Longrightarrow> ae_code e = A_CLAIM_MISMATCH"
  by (auto simp: assertPayloadIdentityMatchesClaims_def ebind_Inl_iff assertHintMatch_def
      split: option.splits if_splits)

lemma assertWorkspaceBoundary_Inr_iff [simp]:
  "assertWorkspaceBoundary c w = Inr u \<longleftrightarrow> trim w \<noteq> [] \<and> ac_workspaceId c = w"
  by (cases u) (auto simp: assertWorkspaceBoundary_def)

lemma assertWorkspaceBoundary_Inl:
  "assertWorkspaceBoundary c w = Inl e \<Longrightarrow> trim w \<noteq> [] \<Longrightarrow>
     ae_code e = A_WORKSPACE_MISMATCH \<and> ac_workspaceId c \<noteq> w"
  by (auto simp: assertWorkspaceBoundary_def split: if_splits)

section \<open>The access token verifier\<close>

record 'k verifier_options =
  vo_issuer :: string
  vo_audience :: string
  vo_jwksUrl :: "string option"
  vo_keyResolver :: "'k option"
  vo_clockToleranceSeconds :: "rat option"

record 'k resolved_options =
  ro_issuer :: string
  ro_audience :: string
  ro_keyResolver :: 'k
  ro_clockToleranceSeconds :: "rat option"

record jwt_verify_options =
  jv_issuer :: string
  jv_audience :: string
  jv_clockTolerance :: rat

definition auth_requireNonEmptyString :: "string \<Rightarrow> string \<Rightarrow> exn + string" where
  "auth_requireNonEmptyString v field =
     (let normalized = trim v
      in if length normalized = 0
         then Inl (AuthExn (AuthError A_INVALID_ARGUMENT
                (quoted field @ '' must be a non-empty string'')))
         else Inr normalized)"

definition resolveVerifierOptions ::
  "(string \<Rightarrow> exn + 'k) \<Rightarrow> 'k verifier_options \<Rightarrow> exn + 'k resolved_options" where
  "resolveVerifierOptions createRemoteJWKSet options =
     ebind (auth_requireNonEmptyString (vo_issuer options) ''issuer'') (\<lambda>issuer.
     ebind (auth_requireNonEmptyString (vo_audience options) ''audience'') (\<lambda>audience.
       case vo_keyResolver options of
         Some k \<Rightarrow> Inr \<lparr>ro_issuer = issuer, ro_audience = audience, ro_keyResolver = k,
                       ro_clockToleranceSeconds = vo_clockToleranceSeconds options\<rparr>
       | None \<Rightarrow>
           ebind (case vo_jwksUrl options of
                    None \<Rightarrow> Inr None
                  | Some u \<Rightarrow> if u = [] then Inr None
                      else ebind (auth_requireNonEmptyString u ''jwksUrl'') (\<lambda>n. Inr (Some n)))
             (\<lambda>jwksUrl.
               case jwksUrl of
                 None \<Rightarrow> Inl (AuthExn (AuthError A_INVALID_ARGUMENT
                           ''Either keyResolver or jwksUrl must be provided''))
               | Some url \<Rightarrow>
                   ebind (createRemoteJWKSet url) (\<lambda>k.
                     Inr \<lparr>ro_issuer = issuer, ro_audience = audience, ro_keyResolver = k,
                          ro_clockToleranceSeconds = vo_clockToleranceSeconds options\<rparr>))))"

definition verifyAccessToken ::
  "(string \<Rightarrow> 'k \<Rightarrow> jwt_verify_options \<Rightarrow> exn + jwt_payload) \<Rightarrow> (string \<Rightarrow> exn + 'k) \<Rightarrow> string \<Rightarrow>
     'k verifier_options \<Rightarrow> exn + claims" where
  "verifyAccessToken jwtVerify createRemoteJWKSet token options =
     ebind (auth_requireNonEmptyString token ''token'') (\<lambda>normalizedToken.
     ebind (resolveVerifierOptions createRemoteJWKSet options) (\<lambda>resolved.
       case ebind (jwtVerify normalizedToken (ro_keyResolver resolved)
                \<lparr>jv_issuer = ro_issuer resolved, jv_audience = ro_audience resolved,
                 jv_clockTolerance =
                   (case ro_clockToleranceSeconds resolved of None \<Rightarrow> 0 | Some s \<Rightarrow> s)\<rparr>)
              (\<lambda>payload. map_exn AuthExn (mapVerifiedClaims payload)) of
         Inr c \<Rightarrow> Inr c
       | Inl (AuthExn e) \<Rightarrow> Inl (AuthExn e)
       | Inl _ \<Rightarrow> Inl (AuthExn (AuthError A_UNAUTHORIZED ''Access token verification failed''))))"

definition createAccessTokenVerifier ::
  "(string \<Rightarrow> 'k \<Rightarrow> jwt_verify_options \<Rightarrow> exn + jwt_payload) \<Rightarrow> (string \<Rightarrow> exn + 'k) \<Rightarrow>
     'k verifier_options \<Rightarrow> exn + (string \<Rightarrow> exn + claims)" where
  "createAccessTokenVerifier jwtVerify createRemoteJWKSet options =
     ebind (resolveVerifierOptions createRemoteJWKSet options) (\<lambda>resolved.
       Inr (\<lambda>token. verifyAccessToken jwtVerify createRemoteJWKSet token
         \<lparr>vo_issuer = ro_issuer resolved, vo_audience = ro_audience resolved, vo_jwksUrl = None,
          vo_keyResolver = Some (ro_keyResolver resolved),
          vo_clockToleranceSeconds = ro_clockToleranceSeconds resolved\<rparr>))"

lemma auth_requireNonEmptyString_Inr_iff [simp]:
  "auth_requireNonEmptyString v f = Inr s \<longleftrightarrow> s = trim v \<and> trim v \<noteq> []"
  by (auto simp: auth_requireNonEmptyString_def Let_def)

lemma resolve_normal:
  "resolveVerifierOptions mk options = Inr r \<Longrightarrow>
     trim (ro_issuer r) = ro_issuer r \<and> trim (ro_audience r) = ro_audience r \<and>
     ro_issuer r \<noteq> [] \<and> ro_audience r \<noteq> []"
  unfolding resolveVerifierOptions_def
  by (cases "vo_keyResolver options") (auto split: option.split_asm)

lemma resolve_fields:
  "resolveVerifierOptions mk options = Inr r \<Longrightarrow>
     ro_issuer r = trim (vo_issuer options) \<and> ro_audience r = trim (vo_audience options)"
  unfolding resolveVerifierOptions_def
  by (cases "vo_keyResolver options") (auto split: option.split_asm)

text \<open>Resolving the options once or on every call makes no difference.\<close>

lemma resolve_resolved:
  assumes "resolveVerifierOptions mk options = Inr r"
  shows "resolveVerifierOptions mk
     \<lparr>vo_issuer = ro_issuer r, vo_audience = ro_audience r, vo_jwksUrl = None,
      vo_keyResolver = Some (ro_keyResolver r),
      vo_clockToleranceSeconds = ro_clockToleranceSeconds r\<rparr> = Inr r"
  using resolve_normal [OF assms] by (simp add: resolveVerifierOptions_def)

lemma verify_success:
  assumes "verifyAccessToken jv mk token options = Inr c"
  shows "\<exists>r payload. resolveVerifierOptions mk options = Inr r \<and>
    jv (trim token) (ro_keyResolver r)
       \<lparr>jv_issuer = ro_issuer r, jv_audience = ro_audience r,
        jv_clockTolerance = (case ro_clockToleranceSeconds r of None \<Rightarrow> 0 | Some s \<Rightarrow> s)\<rparr> = Inr payload \<and>
    mapVerifiedClaims payload = Inr c"
proof -
  from assms obtain r where r: "resolveVerifierOptions mk options = Inr r"
    unfolding verifyAccessToken_def by auto
  let ?o = "\<lparr>jv_issuer = ro_issuer r, jv_audience = ro_audience r,
    jv_clockTolerance = (case ro_clockToleranceSeconds r of None \<Rightarrow> 0 | Some s \<Rightarrow> s)\<rparr>"
  let ?m = "ebind (jv (trim token) (ro_keyResolver r) ?o)
    (\<lambda>payload. map_exn AuthExn (mapVerifiedClaims payload))"
  from assms r have "(case ?m of Inr c \<Rightarrow> Inr c | Inl (AuthExn e) \<Rightarrow> Inl (AuthExn e)
      | Inl _ \<Rightarrow> Inl (AuthExn (AuthError A_UNAUTHORIZED ''Access token verification failed''))) = Inr c"
    unfolding verifyAccessToken_def by auto
  then have "?m = Inr c"
    by (cases ?m) (auto split: exn.split_asm)
  with r show ?thesis by auto
qed

end
