(* ===== verification/BridgeApp.thy ===== *)
theory BridgeApp
  imports BridgeMemory Auth
begin

text \<open>
  The HTTP application of the bridge (\<open>apps/bridge-api/src/app.ts\<close>): the nine MCP handlers,
  the authentication hook, the dispatch by method name and the error handler, as computations
  over a world reached through the injected dependencies.

  Outside the repository and therefore parameters: the zod schemas (one parser per input, one
  check of the outputs and one of the error envelope), the token verifier, the clock, the id
  generator. Times are sent as ISO strings; the model sends the time value. Logging, the metric
  counters and the \<open>details\<close> of an error are left out.
\<close>

section \<open>Payloads and answers\<close>

record create_thread_payload =
  pc_workspace_id :: string
  pc_title :: string
  pc_type :: thread_type
  pc_participants :: "string list"
  pc_created_by :: "string option"

record update_status_payload =
  pu_thread_id :: string
  pu_agent_id :: "string option"
  pu_status :: thread_status
  pu_reason :: string
  pu_metadata :: "json option"

record summarize_payload =
  pz_thread_id :: string
  pz_max_messages :: int

record heartbeat_payload =
  ph_agent_id :: "string option"
  ph_workspace_id :: "string option"
  ph_session_id :: string
  ph_runtime :: string
  ph_management_mode :: management_mode
  ph_resumable :: bool
  ph_status :: session_status

record trigger_payload =
  pt_thread_id :: string
  pt_target_agent_id :: string
  pt_reason :: string
  pt_trigger_prompt :: string

record post_payload =
  pp_thread_id :: string
  pp_schema_version :: int
  pp_sender_agent_id :: "string option"
  pp_sender_session_id :: "string option"
  pp_kind :: message_kind
  pp_body :: string
  pp_metadata :: "json option"
  pp_in_reply_to :: "string option"
  pp_idempotency_key :: "string option"

record read_payload =
  pr_thread_id :: string
  pr_agent_id :: "string option"
  pr_since_seq :: int
  pr_limit :: int

record ack_payload =
  pa_thread_id :: string
  pa_agent_id :: "string option"
  pa_last_read_seq :: int

datatype trigger_action = TriggerRuntime | FallbackRequiredAction
datatype trigger_result = QueuedResult | FallbackRequiredResult
datatype fallback_action = ResumeSession | SpawnSession

record trigger_output =
  to_trigger_id :: string
  to_target_agent_id :: string
  to_action :: trigger_action
  to_result :: trigger_result
  to_job_status :: job_status
  to_fallback_action :: "fallback_action option"
  to_target_session_id :: "string option"
  to_runtime :: "string option"
  to_management_mode :: "management_mode option"
  to_session_status :: "session_status option"
  to_stale_session :: bool
  to_triggered_at :: int

record read_message =
  rm_message_id :: string
  rm_schema_version :: int
  rm_seq :: int
  rm_kind :: message_kind
  rm_body :: string
  rm_metadata :: "json option"
  rm_sender_agent_id :: string
  rm_created_at :: int

datatype mcp_output =
    CreateThreadOutput string thread_status int
  | GetThreadOutput thread
  | UpdateThreadStatusOutput string thread_status int
  | SummarizeThreadOutput string "string list" thread_status
  | HeartbeatOutput int
  | TriggerOutput trigger_output
  | PostMessageOutput string int thread_status int
  | ReadMessagesOutput "read_message list" int bool
  | AckReadOutput int
  | ForeignOutput json

record error_payload =
  ep_code :: protocol_error_code
  ep_message :: string
  ep_request_id :: string
  ep_occurred_at :: int

text \<open>The parsers of the input schemas; \<open>Inl\<close> is the \<open>ZodError\<close> that \<open>parse\<close> throws.\<close>

record input_schemas =
  sc_createThread :: "json \<Rightarrow> exn + create_thread_payload"
  sc_getThread :: "json \<Rightarrow> exn + string"
  sc_updateThreadStatus :: "json \<Rightarrow> exn + update_status_payload"
  sc_summarizeThread :: "json \<Rightarrow> exn + summarize_payload"
  sc_heartbeatSession :: "json \<Rightarrow> exn + heartbeat_payload"
  sc_triggerParticipant :: "json \<Rightarrow> exn + trigger_payload"
  sc_postMessage :: "json \<Rightarrow> exn + post_payload"
  sc_readMessages :: "json \<Rightarrow> exn + read_payload"
  sc_ackRead :: "json \<Rightarrow> exn + ack_payload"

record 'w bridge_deps =
  d_threadStore :: "'w thread_store"
  d_sessionStore :: "'w session_store"
  d_triggerStore :: "'w trigger_store"
  d_auditStore :: "'w audit_store option"
  d_verifyAccessToken :: "string \<Rightarrow> ('w, exn, claims) io"
  d_sessionStaleAfterHours :: js_number
  d_triggerMaxRetries :: int
  d_now :: "('w, exn, int) io"
  d_idGenerator :: "('w, exn, string) io"
  d_schemas :: input_schemas
  d_outputSchema :: "mcp_output \<Rightarrow> exn + mcp_output"
  d_errorSchema :: "error_payload \<Rightarrow> exn + error_payload"

record request =
  rq_id :: string
  rq_method :: string
  rq_url :: string
  rq_authorization :: "string option"
  rq_context :: "claims option"
  rq_body :: json

section \<open>Helpers of the handlers\<close>

definition parseBearerToken :: "string option \<Rightarrow> auth_error + string" where
  "parseBearerToken authorizationHeader =
     (case authorizationHeader of
        None \<Rightarrow> Inl (AuthError A_UNAUTHORIZED ''Missing Authorization header'')
      | Some h \<Rightarrow>
          if h = [] then Inl (AuthError A_UNAUTHORIZED ''Missing Authorization header'')
          else
            let bad = AuthError A_UNAUTHORIZED ''Authorization header must be in Bearer format''
            in case take 2 (split_on (CHR '' '') h) of
                 [scheme, token] \<Rightarrow>
                   if scheme \<noteq> ''Bearer'' \<or> token = [] \<or> length (trim token) = 0
                   then Inl bad else Inr token
               | _ \<Rightarrow> Inl bad)"

definition requireContext :: "request \<Rightarrow> exn + claims" where
  "requireContext request =
     (case rq_context request of
        None \<Rightarrow> Inl (BridgeExn (BridgeApiError P_UNAUTHORIZED 401
                  ''Missing authenticated request context''))
      | Some c \<Rightarrow> Inr c)"

fun mapAuthError :: "auth_error \<Rightarrow> bridge_error" where
  "mapAuthError (AuthError A_UNAUTHORIZED m) = BridgeApiError P_UNAUTHORIZED 401 m"
| "mapAuthError (AuthError A_INVALID_CLAIMS m) = BridgeApiError P_UNAUTHORIZED 401 m"
| "mapAuthError (AuthError A_FORBIDDEN m) = BridgeApiError P_FORBIDDEN 403 m"
| "mapAuthError (AuthError A_WORKSPACE_MISMATCH m) = BridgeApiError P_WORKSPACE_MISMATCH 403 m"
| "mapAuthError (AuthError A_CLAIM_MISMATCH m) = BridgeApiError P_FORBIDDEN 403 m"
| "mapAuthError (AuthError A_INVALID_ARGUMENT m) = BridgeApiError P_INVALID_ARGUMENT 400 m"

fun mapDomainError :: "domain_error \<Rightarrow> bridge_error" where
  "mapDomainError (DomainError D_INVALID_THREAD_TRANSITION m) =
     BridgeApiError P_INVALID_THREAD_TRANSITION 409 m"
| "mapDomainError (DomainError D_INVALID_ARGUMENT m) = BridgeApiError P_INVALID_ARGUMENT 400 m"
| "mapDomainError (DomainError _ m) = BridgeApiError P_CONFLICT 409 m"

text \<open>The operator's errors are plain errors to the bridge, which never sees one.\<close>

fun mapUnknownError :: "exn \<Rightarrow> bridge_error" where
  "mapUnknownError (BridgeExn e) = e"
| "mapUnknownError (AuthExn e) = mapAuthError e"
| "mapUnknownError (DomainExn e) = mapDomainError e"
| "mapUnknownError (ZodExn m) = BridgeApiError P_INVALID_ARGUMENT 400 ''Payload validation failed''"
| "mapUnknownError (DbExn code m) =
     (if code = ''23505'' \<or> code = ''40001'' then BridgeApiError P_CONFLICT 409 ''Write conflict''
      else BridgeApiError P_INTERNAL 500 m)"
| "mapUnknownError (OtherExn m) = BridgeApiError P_INTERNAL 500 m"
| "mapUnknownError (OperatorExn e) = BridgeApiError P_INTERNAL 500 (oe_message e)"

definition POST_MESSAGE_MAX_ATTEMPTS :: nat where
  "POST_MESSAGE_MAX_ATTEMPTS = 3"

definition OVERRIDE_REASON_PREFIXES :: "string list" where
  "OVERRIDE_REASON_PREFIXES = [''human_override:'', ''coordinator_override:'']"

definition hasExplicitOverrideReason :: "string \<Rightarrow> bool" where
  "hasExplicitOverrideReason value \<longleftrightarrow> list_ex (starts_with value) OVERRIDE_REASON_PREFIXES"

record trigger_decision =
  td_action :: trigger_action
  td_result :: trigger_result
  td_jobStatus :: job_status
  td_fallbackAction :: "fallback_action option"
  td_staleSession :: bool

definition resolveTriggerDecision ::
  "session option \<Rightarrow> js_number \<Rightarrow> int \<Rightarrow> domain_error + trigger_decision" where
  "resolveTriggerDecision session staleAfterHours referenceTime =
     (case session of
        None \<Rightarrow> Inr \<lparr>td_action = FallbackRequiredAction, td_result = FallbackRequiredResult,
                     td_jobStatus = FallbackSpawn, td_fallbackAction = Some SpawnSession,
                     td_staleSession = False\<rparr>
      | Some s \<Rightarrow>
          ebind (isSessionRecordStale referenceTime s staleAfterHours (Some (At referenceTime)))
            (\<lambda>staleSession.
            let managedRuntimeAvailable =
                  se_managementMode s = Managed \<and> se_status s \<noteq> SOffline \<and> \<not> staleSession
            in if managedRuntimeAvailable
               then Inr \<lparr>td_action = TriggerRuntime, td_result = QueuedResult,
                         td_jobStatus = Queued, td_fallbackAction = None,
                         td_staleSession = staleSession\<rparr>
               else
                 let fallbackAction =
                       (if se_resumable s \<and> \<not> staleSession then ResumeSession else SpawnSession)
                 in Inr \<lparr>td_action = FallbackRequiredAction, td_result = FallbackRequiredResult,
                         td_jobStatus =
                           (if fallbackAction = ResumeSession then FallbackResume else FallbackSpawn),
                         td_fallbackAction = Some fallbackAction,
                         td_staleSession = staleSession\<rparr>))"

definition toDecisionFromJobStatus ::
  "job_status \<Rightarrow> trigger_action \<times> trigger_result \<times> fallback_action option" where
  "toDecisionFromJobStatus status =
     (if status = FallbackResume
      then (FallbackRequiredAction, FallbackRequiredResult, Some ResumeSession)
      else if status = FallbackSpawn
      then (FallbackRequiredAction, FallbackRequiredResult, Some SpawnSession)
      else (TriggerRuntime, QueuedResult, None))"

definition hasTriggerReplayMatch :: "trigger_job \<Rightarrow> trigger_job \<Rightarrow> bool" where
  "hasTriggerReplayMatch existing expected \<longleftrightarrow>
     tj_threadId existing = tj_threadId expected \<and>
     tj_workspaceId existing = tj_workspaceId expected \<and>
     tj_targetAgentId existing = tj_targetAgentId expected \<and>
     tj_reason existing = tj_reason expected \<and>
     tj_prompt existing = tj_prompt expected"

definition toTriggerParticipantOutput ::
  "'w bridge_deps \<Rightarrow> trigger_job \<Rightarrow> bool \<Rightarrow> session option \<Rightarrow> exn + mcp_output" where
  "toTriggerParticipantOutput D record staleSession session =
     (case toDecisionFromJobStatus (tj_status record) of (action, result, fallback) \<Rightarrow>
        d_outputSchema D (TriggerOutput
          \<lparr>to_trigger_id = tj_triggerId record, to_target_agent_id = tj_targetAgentId record,
           to_action = action, to_result = result, to_job_status = tj_status record,
           to_fallback_action = fallback, to_target_session_id = tj_targetSessionId record,
           to_runtime = map_option se_runtime session,
           to_management_mode = map_option se_managementMode session,
           to_session_status = map_option se_status session,
           to_stale_session = staleSession, to_triggered_at = tj_createdAt record\<rparr>))"

definition isIdempotentReplayMatch :: "post_payload \<Rightarrow> message \<Rightarrow> bool" where
  "isIdempotentReplayMatch input existing \<longleftrightarrow>
     ms_schemaVersion existing = pp_schema_version input \<and>
     ms_kind existing = pp_kind input \<and>
     ms_body existing = pp_body input \<and>
     isDeepStrictEqual (ms_metadata existing) (pp_metadata input) \<and>
     ms_inReplyTo existing = pp_in_reply_to input"

definition toPostMessageOutput ::
  "'w bridge_deps \<Rightarrow> message \<Rightarrow> thread_status \<Rightarrow> exn + mcp_output" where
  "toPostMessageOutput D message threadStatus =
     d_outputSchema D (PostMessageOutput (ms_messageId message) (ms_seq message) threadStatus
       (ms_createdAt message))"

definition extractThreadIdFromBody :: "request \<Rightarrow> string option" where
  "extractThreadIdFromBody request =
     (case rq_body request of
        JObject kvs \<Rightarrow>
          (case map_of kvs ''thread_id'' of
             Some (JString s) \<Rightarrow> if 0 < length (trim s) then Some s else None
           | _ \<Rightarrow> None)
      | _ \<Rightarrow> None)"

definition extractWorkspaceIdFromBody :: "request \<Rightarrow> string option" where
  "extractWorkspaceIdFromBody request =
     (case rq_body request of
        JObject kvs \<Rightarrow>
          (case map_of kvs ''workspace_id'' of
             Some (JString s) \<Rightarrow> if 0 < length (trim s) then Some s else None
           | _ \<Rightarrow> None)
      | _ \<Rightarrow> None)"

definition deriveOperationName :: "request \<Rightarrow> string \<Rightarrow> string" where
  "deriveOperationName request methodParam =
     (if starts_with (rq_url request) ''/v1/mcp/'' \<and> 0 < length (trim methodParam)
      then ''mcp.'' @ methodParam
      else rq_method request @ '' '' @ rq_url request)"

definition writeAuditEvent :: "'w bridge_deps \<Rightarrow> audit_event \<Rightarrow> ('w, exn, unit) io" where
  "writeAuditEvent D input =
     (case d_auditStore D of
        None \<Rightarrow> io_return ()
      | Some a \<Rightarrow> io_catch (as_writeEvent a input) (\<lambda>_. io_return ()))"

abbreviation io_auth :: "auth_error + 'a \<Rightarrow> ('w, exn, 'a) io" where
  "io_auth r \<equiv> io_lift (map_exn AuthExn r)"

abbreviation io_domain :: "domain_error + 'a \<Rightarrow> ('w, exn, 'a) io" where
  "io_domain r \<equiv> io_lift (map_exn DomainExn r)"

definition threadNotFound :: "string \<Rightarrow> exn" where
  "threadNotFound threadId =
     BridgeExn (BridgeApiError P_NOT_FOUND 404 (''Thread not found: '' @ threadId))"

definition hint_agent :: "string option \<Rightarrow> identity_hints" where
  "hint_agent a = no_hints\<lparr>ih_agent_id := a\<rparr>"

section \<open>The handlers\<close>

definition h_create_thread :: "'w bridge_deps \<Rightarrow> json \<Rightarrow> request \<Rightarrow> ('w, exn, mcp_output) io" where
  "h_create_thread D payload request =
     io_bind (io_lift (sc_createThread (d_schemas D) payload)) (\<lambda>input.
     io_bind (io_lift (requireContext request)) (\<lambda>authClaims.
     io_bind (io_auth (authorizeOperation (ac_role authClaims) ThreadManage)) (\<lambda>_.
     io_bind (io_auth (assertWorkspaceBoundary authClaims (pc_workspace_id input))) (\<lambda>_.
     io_bind (io_auth (if pc_created_by input = None then Inr ()
                else assertPayloadIdentityMatchesClaims authClaims
                       (hint_agent (pc_created_by input)))) (\<lambda>_.
     io_bind (d_now D) (\<lambda>createdAt.
     io_bind (d_idGenerator D) (\<lambda>newId.
     io_bind (ts_createThread (d_threadStore D)
         \<lparr>ct_threadId = ''th_'' @ newId, ct_workspaceId = pc_workspace_id input,
          ct_title = pc_title input, ct_type = pc_type input,
          ct_participants = pc_participants input, ct_createdAt = Some (At createdAt),
          ct_status = None\<rparr>) (\<lambda>created.
       io_lift (d_outputSchema D
         (CreateThreadOutput (th_threadId created) (th_status created) (th_createdAt created)))))))))))"

definition h_get_thread :: "'w bridge_deps \<Rightarrow> json \<Rightarrow> request \<Rightarrow> ('w, exn, mcp_output) io" where
  "h_get_thread D payload request =
     io_bind (io_lift (sc_getThread (d_schemas D) payload)) (\<lambda>thread_id.
     io_bind (io_lift (requireContext request)) (\<lambda>authClaims.
     io_bind (io_auth (authorizeOperation (ac_role authClaims) ThreadRead)) (\<lambda>_.
     io_bind (ts_getThreadById (d_threadStore D) thread_id) (\<lambda>found.
     case found of
       None \<Rightarrow> io_throw (threadNotFound thread_id)
     | Some existing \<Rightarrow>
         io_bind (io_auth (assertWorkspaceBoundary authClaims (th_workspaceId existing))) (\<lambda>_.
           io_lift (d_outputSchema D (GetThreadOutput existing)))))))"

definition h_update_thread_status ::
  "'w bridge_deps \<Rightarrow> json \<Rightarrow> request \<Rightarrow> ('w, exn, mcp_output) io" where
  "h_update_thread_status D payload request =
     io_bind (io_lift (sc_updateThreadStatus (d_schemas D) payload)) (\<lambda>input.
     io_bind (io_lift (requireContext request)) (\<lambda>authClaims.
     if ac_role authClaims = Participant \<and> pu_status input = Closed
     then io_throw (BridgeExn (BridgeApiError P_FORBIDDEN 403
            ''Worker role cannot force-close disputed threads''))
     else
     io_bind (io_auth (authorizeOperation (ac_role authClaims) ThreadManage)) (\<lambda>_.
     io_bind (io_auth (if pu_agent_id input = None then Inr ()
                else assertPayloadIdentityMatchesClaims authClaims
                       (hint_agent (pu_agent_id input)))) (\<lambda>_.
     io_bind (ts_getThreadById (d_threadStore D) (pu_thread_id input)) (\<lambda>found.
     case found of
       None \<Rightarrow> io_throw (threadNotFound (pu_thread_id input))
     | Some existing \<Rightarrow>
         io_bind (io_auth (assertWorkspaceBoundary authClaims (th_workspaceId existing))) (\<lambda>_.
         let isDisputedClose = (th_status existing = Blocked \<and> pu_status input = Closed)
         in if isDisputedClose \<and> \<not> hasExplicitOverrideReason (pu_reason input)
         then io_throw (BridgeExn (BridgeApiError P_FORBIDDEN 403
                ''Closing a blocked thread requires explicit coordinator/human override reason''))
         else
         io_bind (d_now D) (\<lambda>updatedAt.
         io_bind (ts_updateThreadStatus (d_threadStore D) (pu_thread_id input) (pu_status input)
                    (At updatedAt) (Some (th_status existing))) (\<lambda>result.
         case result of
           None \<Rightarrow>
             io_bind (ts_getThreadById (d_threadStore D) (pu_thread_id input)) (\<lambda>latest.
             case latest of
               None \<Rightarrow> io_throw (threadNotFound (pu_thread_id input))
             | Some _ \<Rightarrow> io_throw (BridgeExn (BridgeApiError P_CONFLICT 409
                           ''Thread status changed by a concurrent update'')))
         | Some updated \<Rightarrow>
             io_bind (d_now D) (\<lambda>auditAt.
             io_bind (writeAuditEvent D
               \<lparr>au_workspaceId = ac_workspaceId authClaims,
                au_actorAgentId = Some (ac_agentId authClaims),
                au_actorRole = Some (role_text (ac_role authClaims)),
                au_operation = ''mcp.update_thread_status'', au_resourceType = ''thread'',
                au_resourceId = th_threadId updated, au_threadId = Some (th_threadId updated),
                au_requestId = Some (rq_id request), au_result = ''success'',
                au_payload =
                  [(''from_status'', JString (status_text (th_status existing))),
                   (''to_status'', JString (status_text (th_status updated))),
                   (''reason'', JString (pu_reason input))] @
                  (case pu_metadata input of None \<Rightarrow> [] | Some m \<Rightarrow> [(''metadata'', m)]),
                au_createdAt = Some auditAt\<rparr>) (\<lambda>_.
               io_lift (d_outputSchema D (UpdateThreadStatusOutput (th_threadId updated)
                 (th_status updated) (th_updatedAt updated)))))))))))))"

definition h_summarize_thread :: "'w bridge_deps \<Rightarrow> json \<Rightarrow> request \<Rightarrow> ('w, exn, mcp_output) io" where
  "h_summarize_thread D payload request =
     io_bind (io_lift (sc_summarizeThread (d_schemas D) payload)) (\<lambda>input.
     io_bind (io_lift (requireContext request)) (\<lambda>authClaims.
     io_bind (io_auth (authorizeOperation (ac_role authClaims) ThreadRead)) (\<lambda>_.
     io_bind (ts_getThreadById (d_threadStore D) (pz_thread_id input)) (\<lambda>found.
     case found of
       None \<Rightarrow> io_throw (threadNotFound (pz_thread_id input))
     | Some existing \<Rightarrow>
         io_bind (io_auth (assertWorkspaceBoundary authClaims (th_workspaceId existing))) (\<lambda>_.
         io_bind (ts_summarizeThread (d_threadStore D) (pz_thread_id input)
                    (pz_max_messages input)) (\<lambda>result.
         case result of
           None \<Rightarrow> io_throw (threadNotFound (pz_thread_id input))
         | Some summary \<Rightarrow>
             io_lift (d_outputSchema D (SummarizeThreadOutput (sm_summary summary)
               (sm_openItems summary) (sm_lastStatus summary)))))))))"

definition h_heartbeat_session :: "'w bridge_deps \<Rightarrow> json \<Rightarrow> request \<Rightarrow> ('w, exn, mcp_output) io" where
  "h_heartbeat_session D payload request =
     io_bind (io_lift (sc_heartbeatSession (d_schemas D) payload)) (\<lambda>input.
     io_bind (io_lift (requireContext request)) (\<lambda>authClaims.
     io_bind (io_auth (authorizeOperation (ac_role authClaims) SessionHeartbeat)) (\<lambda>_.
     io_bind (io_auth (assertPayloadIdentityMatchesClaims authClaims
                (no_hints\<lparr>ih_agent_id := ph_agent_id input,
                   ih_session_id := Some (ph_session_id input)\<rparr>))) (\<lambda>_.
     io_bind (io_auth (case ph_workspace_id input of None \<Rightarrow> Inr ()
                | Some w \<Rightarrow> assertWorkspaceBoundary authClaims w)) (\<lambda>_.
     io_bind (d_now D) (\<lambda>heartbeatAt.
     io_bind (ss_heartbeatSession (d_sessionStore D)
         \<lparr>hb_agentId = ac_agentId authClaims, hb_workspaceId = ac_workspaceId authClaims,
          hb_sessionId = ph_session_id input, hb_runtime = ph_runtime input,
          hb_managementMode = ph_management_mode input, hb_resumable = ph_resumable input,
          hb_status = ph_status input, hb_heartbeatAt = Some (At heartbeatAt)\<rparr>) (\<lambda>recorded.
       io_lift (d_outputSchema D (HeartbeatOutput (se_lastHeartbeatAt recorded))))))))))"

fun action_text :: "trigger_action \<Rightarrow> string" where
  "action_text TriggerRuntime = ''trigger_runtime''"
| "action_text FallbackRequiredAction = ''fallback_required''"

fun result_text :: "trigger_result \<Rightarrow> string" where
  "result_text QueuedResult = ''queued''"
| "result_text FallbackRequiredResult = ''fallback_required''"

fun fallback_text :: "fallback_action \<Rightarrow> string" where
  "fallback_text ResumeSession = ''resume_session''"
| "fallback_text SpawnSession = ''spawn_session''"

definition trigger_audit_payload :: "mcp_output \<Rightarrow> (string \<times> json) list" where
  "trigger_audit_payload out =
     (case out of
        TriggerOutput t \<Rightarrow>
          [(''trigger_id'', JString (to_trigger_id t)),
           (''target_agent_id'', JString (to_target_agent_id t)),
           (''action'', JString (action_text (to_action t))),
           (''result'', JString (result_text (to_result t))),
           (''job_status'', JString (job_status_text (to_job_status t)))] @
          (case to_fallback_action t of None \<Rightarrow> []
           | Some f \<Rightarrow> [(''fallback_action'', JString (fallback_text f))]) @
          [(''stale_session'', JBool (to_stale_session t))]
      | _ \<Rightarrow> [])"

definition h_trigger_participant :: "'w bridge_deps \<Rightarrow> json \<Rightarrow> request \<Rightarrow> ('w, exn, mcp_output) io" where
  "h_trigger_participant D payload request =
     io_bind (io_lift (sc_triggerParticipant (d_schemas D) payload)) (\<lambda>input.
     io_bind (io_lift (requireContext request)) (\<lambda>authClaims.
     io_bind (io_auth (authorizeOperation (ac_role authClaims) ThreadManage)) (\<lambda>_.
     io_bind (ts_getThreadById (d_threadStore D) (pt_thread_id input)) (\<lambda>found.
     case found of
       None \<Rightarrow> io_throw (threadNotFound (pt_thread_id input))
     | Some existingThread \<Rightarrow>
         io_bind (io_auth (assertWorkspaceBoundary authClaims (th_workspaceId existingThread))) (\<lambda>_.
         io_bind (io_domain (isThreadParticipant existingThread (pt_target_agent_id input)))
           (\<lambda>isParticipant.
         if \<not> isParticipant
         then io_throw (BridgeExn (BridgeApiError P_INVALID_ARGUMENT 400
                ''Target agent is not a participant in the thread''))
         else
         io_bind (d_now D) (\<lambda>requestTime.
         io_bind (ss_getSession (d_sessionStore D) (pt_target_agent_id input)
                    (th_workspaceId existingThread)) (\<lambda>currentSession.
         io_bind (io_domain (resolveTriggerDecision currentSession (d_sessionStaleAfterHours D)
                    requestTime)) (\<lambda>decision.
         let job = \<lparr>tj_triggerId = ''trg_'' @ rq_id request, tj_threadId = pt_thread_id input,
               tj_workspaceId = th_workspaceId existingThread,
               tj_targetAgentId = pt_target_agent_id input,
               tj_targetSessionId = map_option se_sessionId currentSession,
               tj_reason = pt_reason input, tj_prompt = pt_trigger_prompt input,
               tj_status = td_jobStatus decision, tj_attempts = 0,
               tj_maxRetries = d_triggerMaxRetries D, tj_nextRetryAt = None,
               tj_createdAt = requestTime, tj_updatedAt = requestTime\<rparr>
         in
         io_bind (trs_createOrReuseTriggerJob (d_triggerStore D) job) (\<lambda>createResult.
         if \<not> cr_created createResult \<and> \<not> hasTriggerReplayMatch (cr_record createResult) job
         then io_throw (BridgeExn (BridgeApiError P_IDEMPOTENCY_CONFLICT 409
                ''Request id is already associated with a different trigger payload''))
         else
         io_bind (io_domain (case currentSession of None \<Rightarrow> Inr False
                    | Some s \<Rightarrow> isSessionRecordStale requestTime s (d_sessionStaleAfterHours D)
                                 (Some (At requestTime)))) (\<lambda>staleSession.
         io_bind (io_lift (toTriggerParticipantOutput D (cr_record createResult) staleSession
                    currentSession)) (\<lambda>responsePayload.
         io_bind (d_now D) (\<lambda>auditAt.
         io_bind (writeAuditEvent D
           \<lparr>au_workspaceId = ac_workspaceId authClaims,
            au_actorAgentId = Some (ac_agentId authClaims),
            au_actorRole = Some (role_text (ac_role authClaims)),
            au_operation = ''mcp.trigger_participant'', au_resourceType = ''thread'',
            au_resourceId = th_threadId existingThread,
            au_threadId = Some (th_threadId existingThread),
            au_requestId = Some (rq_id request), au_result = ''success'',
            au_payload = trigger_audit_payload responsePayload,
            au_createdAt = Some auditAt\<rparr>) (\<lambda>_.
           io_return responsePayload))))))))))))))"

text \<open>
  The check for an earlier message under the same idempotency key: nothing, the answer for the
  earlier message, or a conflict. The handler runs it before posting and after a failed attempt.
\<close>

definition replay_check ::
  "'w bridge_deps \<Rightarrow> claims \<Rightarrow> post_payload \<Rightarrow> thread_status \<Rightarrow> ('w, exn, mcp_output option) io" where
  "replay_check D authClaims input threadStatus =
     (case pp_idempotency_key input of
        None \<Rightarrow> io_return None
      | Some key \<Rightarrow>
          io_bind (ts_getMessageByIdempotency (d_threadStore D) (pp_thread_id input)
                     (ac_agentId authClaims) key) (\<lambda>found.
          case found of
            None \<Rightarrow> io_return None
          | Some existingMessage \<Rightarrow>
              if \<not> isIdempotentReplayMatch input existingMessage
              then io_throw (BridgeExn (BridgeApiError P_IDEMPOTENCY_CONFLICT 409
                     ''Idempotency key is already used with a different payload''))
              else io_bind (io_lift (toPostMessageOutput D existingMessage threadStatus)) (\<lambda>out.
                io_return (Some out))))"

definition post_input :: "claims \<Rightarrow> post_payload \<Rightarrow> string \<Rightarrow> int \<Rightarrow> int \<Rightarrow> create_message_input" where
  "post_input authClaims input newId nextSeq createdAt =
     \<lparr>cm_messageId = ''msg_'' @ newId, cm_threadId = pp_thread_id input,
      cm_schemaVersion = js_int (pp_schema_version input), cm_seq = js_int nextSeq,
      cm_senderAgentId = ac_agentId authClaims, cm_senderSessionId = ac_sessionId authClaims,
      cm_kind = pp_kind input, cm_body = pp_body input, cm_metadata = pp_metadata input,
      cm_inReplyTo = pp_in_reply_to input, cm_idempotencyKey = pp_idempotency_key input,
      cm_createdAt = Some (At createdAt)\<rparr>"

text \<open>The attempts that are left, counted down; \<open>attempt < POST_MESSAGE_MAX_ATTEMPTS\<close> is \<open>0 < n\<close>.\<close>

fun post_attempts ::
  "'w bridge_deps \<Rightarrow> claims \<Rightarrow> post_payload \<Rightarrow> thread_status \<Rightarrow> nat \<Rightarrow> ('w, exn, mcp_output) io" where
  "post_attempts D authClaims input threadStatus 0 =
     io_throw (BridgeExn (BridgeApiError P_CONFLICT 409
       ''Unable to persist message after bounded retries''))"
| "post_attempts D authClaims input threadStatus (Suc n) =
     io_bind (ts_getLatestMessageSeq (d_threadStore D) (pp_thread_id input)) (\<lambda>latestSeq.
     io_bind (io_domain (getNextMessageSequence (js_int latestSeq))) (\<lambda>nextSeq.
       io_catch
         (io_bind (d_idGenerator D) (\<lambda>newId.
          io_bind (d_now D) (\<lambda>createdAt.
          io_bind (ts_createMessage (d_threadStore D)
                     (post_input authClaims input newId nextSeq createdAt)) (\<lambda>created.
            io_lift (toPostMessageOutput D created threadStatus)))))
         (\<lambda>error.
            io_bind (replay_check D authClaims input threadStatus) (\<lambda>replayed.
            case replayed of
              Some out \<Rightarrow> io_return out
            | None \<Rightarrow>
                if be_code (mapUnknownError error) = P_CONFLICT \<and> 0 < n
                then post_attempts D authClaims input threadStatus n
                else io_throw error))))"

definition h_post_message :: "'w bridge_deps \<Rightarrow> json \<Rightarrow> request \<Rightarrow> ('w, exn, mcp_output) io" where
  "h_post_message D payload request =
     io_bind (io_lift (sc_postMessage (d_schemas D) payload)) (\<lambda>input.
     io_bind (io_lift (requireContext request)) (\<lambda>authClaims.
     io_bind (io_auth (authorizeOperation (ac_role authClaims) MessageWrite)) (\<lambda>_.
     io_bind (io_auth (assertPayloadIdentityMatchesClaims authClaims
                (no_hints\<lparr>ih_agent_id := pp_sender_agent_id input,
                   ih_session_id := pp_sender_session_id input\<rparr>))) (\<lambda>_.
     io_bind (ts_getThreadById (d_threadStore D) (pp_thread_id input)) (\<lambda>found.
     case found of
       None \<Rightarrow> io_throw (threadNotFound (pp_thread_id input))
     | Some existingThread \<Rightarrow>
         io_bind (io_auth (assertWorkspaceBoundary authClaims (th_workspaceId existingThread))) (\<lambda>_.
         io_bind (case pp_in_reply_to input of
                    None \<Rightarrow> io_return ()
                  | Some parent \<Rightarrow>
                      io_bind (ts_getMessageById (d_threadStore D) (pp_thread_id input) parent)
                        (\<lambda>parentMessage.
                        if parentMessage = None
                        then io_throw (BridgeExn (BridgeApiError P_INVALID_ARGUMENT 400
                          (quoted ''in_reply_to'' @ '' does not reference a message in this thread'')))
                        else io_return ())) (\<lambda>_.
         io_bind (replay_check D authClaims input (th_status existingThread)) (\<lambda>replayed.
         case replayed of
           Some out \<Rightarrow> io_return out
         | None \<Rightarrow> post_attempts D authClaims input (th_status existingThread)
                     POST_MESSAGE_MAX_ATTEMPTS))))))))"

definition toReadMessage :: "message \<Rightarrow> read_message" where
  "toReadMessage message =
     \<lparr>rm_message_id = ms_messageId message, rm_schema_version = ms_schemaVersion message,
      rm_seq = ms_seq message, rm_kind = ms_kind message, rm_body = ms_body message,
      rm_metadata = ms_metadata message, rm_sender_agent_id = ms_senderAgentId message,
      rm_created_at = ms_createdAt message\<rparr>"

definition h_read_messages :: "'w bridge_deps \<Rightarrow> json \<Rightarrow> request \<Rightarrow> ('w, exn, mcp_output) io" where
  "h_read_messages D payload request =
     io_bind (io_lift (sc_readMessages (d_schemas D) payload)) (\<lambda>input.
     io_bind (io_lift (requireContext request)) (\<lambda>authClaims.
     io_bind (io_auth (authorizeOperation (ac_role authClaims) MessageRead)) (\<lambda>_.
     io_bind (io_auth (if pr_agent_id input = None then Inr ()
                else assertPayloadIdentityMatchesClaims authClaims
                       (hint_agent (pr_agent_id input)))) (\<lambda>_.
     io_bind (ts_getThreadById (d_threadStore D) (pr_thread_id input)) (\<lambda>found.
     case found of
       None \<Rightarrow> io_throw (threadNotFound (pr_thread_id input))
     | Some existingThread \<Rightarrow>
         io_bind (io_auth (assertWorkspaceBoundary authClaims (th_workspaceId existingThread))) (\<lambda>_.
         io_bind (ts_readMessages (d_threadStore D) (pr_thread_id input) (pr_since_seq input)
                    (pr_limit input)) (\<lambda>page.
           io_lift (d_outputSchema D (ReadMessagesOutput (map toReadMessage (rr_messages page))
             (rr_nextSeq page) (rr_hasMore page)))))))))) "

definition h_ack_read :: "'w bridge_deps \<Rightarrow> json \<Rightarrow> request \<Rightarrow> ('w, exn, mcp_output) io" where
  "h_ack_read D payload request =
     io_bind (io_lift (sc_ackRead (d_schemas D) payload)) (\<lambda>input.
     io_bind (io_lift (requireContext request)) (\<lambda>authClaims.
     io_bind (io_auth (authorizeOperation (ac_role authClaims) MessageRead)) (\<lambda>_.
     io_bind (io_auth (if pa_agent_id input = None then Inr ()
                else assertPayloadIdentityMatchesClaims authClaims
                       (hint_agent (pa_agent_id input)))) (\<lambda>_.
     io_bind (ts_getThreadById (d_threadStore D) (pa_thread_id input)) (\<lambda>found.
     case found of
       None \<Rightarrow> io_throw (threadNotFound (pa_thread_id input))
     | Some existingThread \<Rightarrow>
         io_bind (io_auth (assertWorkspaceBoundary authClaims (th_workspaceId existingThread))) (\<lambda>_.
         io_bind (ts_getLatestMessageSeq (d_threadStore D) (pa_thread_id input)) (\<lambda>latestSeq.
         if latestSeq < pa_last_read_seq input
         then io_throw (BridgeExn (BridgeApiError P_INVALID_ARGUMENT 400
                (quoted ''last_read_seq'' @ '' cannot exceed latest thread sequence'')))
         else
         io_bind (ts_getParticipantCursor (d_threadStore D) (pa_thread_id input)
                    (ac_agentId authClaims)) (\<lambda>stored.
         io_bind (case stored of
                    Some c \<Rightarrow> io_return c
                  | None \<Rightarrow>
                      io_bind (d_now D) (\<lambda>createdAt.
                        io_domain (createParticipantCursor createdAt
                          \<lparr>cc_threadId = pa_thread_id input, cc_agentId = ac_agentId authClaims,
                           cc_createdAt = Some (At createdAt)\<rparr>))) (\<lambda>cursor.
         io_bind (d_now D) (\<lambda>updatedAt.
         io_bind (io_domain (acknowledgeRead updatedAt cursor
                    \<lparr>ak_lastReadSeq = js_int (pa_last_read_seq input),
                     ak_lastAckedMessageId = None, ak_updatedAt = Some (At updatedAt)\<rparr>))
           (\<lambda>updatedCursor.
         io_bind (ts_upsertParticipantCursor (d_threadStore D) updatedCursor) (\<lambda>_.
           io_lift (d_outputSchema D (AckReadOutput (cu_updatedAt updatedCursor)))))))))))))))"

end
