(* ===== verification/BridgeHttp.thy ===== *)
theory BridgeHttp
  imports BridgeApp
begin

text \<open>
  The request cycle of \<open>createBridgeApiApp\<close> (\<open>apps/bridge-api/src/app.ts\<close>): the request id,
  the \<open>onRequest\<close> hook that authenticates, the route \<open>/v1/mcp/:method\<close> with its lookup in
  \<open>methodHandlers\<close>, the error handler, and the probes. Fastify itself is outside: the model
  starts where Fastify has matched the route and ends where the answer is sent.
\<close>

section \<open>The request id\<close>

datatype request_id_header = NoHeader | HeaderText string | HeaderList "string list"

definition genReqId ::
  "('w, exn, string) io \<Rightarrow> request_id_header \<Rightarrow> ('w, exn, string) io" where
  "genReqId randomUUID header =
     (case header of
        HeaderText h \<Rightarrow> if 0 < length (trim h) then io_return h else randomUUID
      | HeaderList (firstHeader # _) \<Rightarrow>
          if firstHeader \<noteq> [] \<and> 0 < length (trim firstHeader) then io_return firstHeader
          else randomUUID
      | _ \<Rightarrow> randomUUID)"

section \<open>Authentication\<close>

definition onRequest :: "'w bridge_deps \<Rightarrow> request \<Rightarrow> ('w, exn, request) io" where
  "onRequest D request =
     io_bind (d_now D) (\<lambda>receivedAt.
     if \<not> starts_with (rq_url request) ''/v1/'' then io_return request
     else
       io_bind (io_auth (parseBearerToken (rq_authorization request))) (\<lambda>token.
       io_bind (d_verifyAccessToken D token) (\<lambda>authClaims.
         io_return (request\<lparr>rq_context := Some authClaims\<rparr>))))"

section \<open>The route\<close>

definition methodHandlers ::
  "'w bridge_deps \<Rightarrow> (string \<times> (json \<Rightarrow> request \<Rightarrow> ('w, exn, mcp_output) io)) list" where
  "methodHandlers D =
     [(''create_thread'', h_create_thread D),
      (''get_thread'', h_get_thread D),
      (''update_thread_status'', h_update_thread_status D),
      (''summarize_thread'', h_summarize_thread D),
      (''heartbeat_session'', h_heartbeat_session D),
      (''trigger_participant'', h_trigger_participant D),
      (''post_message'', h_post_message D),
      (''read_messages'', h_read_messages D),
      (''ack_read'', h_ack_read D)]"

text \<open>
  \<open>methodHandlers\<close> is an object literal, so a lookup that finds no own property goes on to
  \<open>Object.prototype\<close>. Its functions are then called with \<open>this\<close> undefined: \<open>Object(body)\<close>
  returns the body, \<open>toString\<close> a constant, \<open>isPrototypeOf\<close> false on a value that is no object,
  and everything else raises a \<open>TypeError\<close>, as does calling \<open>__proto__\<close>, which is no function.
  The text of a \<open>TypeError\<close> depends on the engine.
\<close>

definition typeError :: exn where
  "typeError = OtherExn ''TypeError''"

definition objectPrototype :: "(string \<times> (json \<Rightarrow> exn + json)) list" where
  "objectPrototype =
     [(''constructor'', \<lambda>body. Inr (if body = JNull then JObject [] else body)),
      (''toString'', \<lambda>_. Inr (JString ''[object Undefined]'')),
      (''isPrototypeOf'', \<lambda>body. case body of
          JArray _ \<Rightarrow> Inl typeError | JObject _ \<Rightarrow> Inl typeError | _ \<Rightarrow> Inr (JBool False))] @
     map (\<lambda>name. (name, \<lambda>_. Inl typeError))
       [''valueOf'', ''hasOwnProperty'', ''propertyIsEnumerable'', ''toLocaleString'',
        ''__proto__'', ''__defineGetter__'', ''__defineSetter__'', ''__lookupGetter__'',
        ''__lookupSetter__'']"

definition dispatch :: "'w bridge_deps \<Rightarrow> string \<Rightarrow> request \<Rightarrow> ('w, exn, mcp_output) io" where
  "dispatch D method request =
     (case map_of (methodHandlers D) method of
        Some handler \<Rightarrow> handler (rq_body request) request
      | None \<Rightarrow>
          (case map_of objectPrototype method of
             Some f \<Rightarrow> io_bind (io_lift (f (rq_body request))) (\<lambda>v. io_return (ForeignOutput v))
           | None \<Rightarrow> io_throw (BridgeExn (BridgeApiError P_NOT_FOUND 404
                       (''Unknown MCP method: '' @ method)))))"

section \<open>The error handler\<close>

fun error_code_text :: "protocol_error_code \<Rightarrow> string" where
  "error_code_text P_UNAUTHORIZED = ''UNAUTHORIZED''"
| "error_code_text P_FORBIDDEN = ''FORBIDDEN''"
| "error_code_text P_INVALID_ARGUMENT = ''INVALID_ARGUMENT''"
| "error_code_text P_NOT_FOUND = ''NOT_FOUND''"
| "error_code_text P_CONFLICT = ''CONFLICT''"
| "error_code_text P_WORKSPACE_MISMATCH = ''WORKSPACE_MISMATCH''"
| "error_code_text P_INVALID_THREAD_TRANSITION = ''INVALID_THREAD_TRANSITION''"
| "error_code_text P_IDEMPOTENCY_CONFLICT = ''IDEMPOTENCY_CONFLICT''"
| "error_code_text P_RATE_LIMITED = ''RATE_LIMITED''"
| "error_code_text P_INTERNAL = ''INTERNAL''"

datatype answer =
    Answer mcp_output
  | ErrorAnswer int error_payload

definition rejection_event :: "request \<Rightarrow> string \<Rightarrow> bridge_error \<Rightarrow> int \<Rightarrow> audit_event" where
  "rejection_event request method mapped createdAt =
     (let threadId = extractThreadIdFromBody request
      in \<lparr>au_workspaceId =
            (case rq_context request of
               Some c \<Rightarrow> ac_workspaceId c
             | None \<Rightarrow> (case extractWorkspaceIdFromBody request of
                         Some w \<Rightarrow> w | None \<Rightarrow> ''unknown'')),
          au_actorAgentId = map_option ac_agentId (rq_context request),
          au_actorRole = map_option (\<lambda>c. role_text (ac_role c)) (rq_context request),
          au_operation = deriveOperationName request method,
          au_resourceType = (if threadId = None then ''request'' else ''thread''),
          au_resourceId = (case threadId of Some t \<Rightarrow> t | None \<Rightarrow> rq_url request),
          au_threadId = threadId,
          au_requestId = Some (rq_id request),
          au_result = ''rejected'',
          au_payload = [(''error_code'', JString (error_code_text (be_code mapped))),
                        (''message'', JString (be_message mapped))],
          au_createdAt = Some createdAt\<rparr>)"

lemma rejection_event_fields [simp]:
  "au_createdAt (rejection_event request method mapped t) = Some t"
  "au_result (rejection_event request method mapped t) = ''rejected''"
  "au_requestId (rejection_event request method mapped t) = Some (rq_id request)"
  "map_of (au_payload (rejection_event request method mapped t)) ''error_code'' =
     Some (JString (error_code_text (be_code mapped)))"
  by (simp_all add: rejection_event_def Let_def)

lemma rejection_event_stamped [simp]:
  "rejection_event request method mapped t\<lparr>au_createdAt := Some t\<rparr> = rejection_event request method mapped t"
  by (simp add: rejection_event_def Let_def)

definition errorHandler ::
  "'w bridge_deps \<Rightarrow> string \<Rightarrow> request \<Rightarrow> exn \<Rightarrow> ('w, exn, answer) io" where
  "errorHandler D method request error =
     (let mapped = mapUnknownError error
      in io_bind
           (if be_statusCode mapped = 401 \<or> be_statusCode mapped = 403
            then io_bind (d_now D) (\<lambda>createdAt.
                   writeAuditEvent D (rejection_event request method mapped createdAt))
            else io_return ()) (\<lambda>_.
         io_bind (d_now D) (\<lambda>occurredAt.
         io_bind (io_lift (d_errorSchema D
             \<lparr>ep_code = be_code mapped, ep_message = be_message mapped,
              ep_request_id = rq_id request, ep_occurred_at = occurredAt\<rparr>)) (\<lambda>payload.
           io_return (ErrorAnswer (be_statusCode mapped) payload)))))"

section \<open>A request from its arrival to its answer\<close>

definition handle_request ::
  "'w bridge_deps \<Rightarrow> string \<Rightarrow> request \<Rightarrow> ('w, exn, answer) io" where
  "handle_request D method request w =
     (case onRequest D (request\<lparr>rq_context := None\<rparr>) w of
        (Inl e, w') \<Rightarrow> errorHandler D method (request\<lparr>rq_context := None\<rparr>) e w'
      | (Inr accepted, w') \<Rightarrow>
          (case dispatch D method accepted w' of
             (Inl e, w'') \<Rightarrow> errorHandler D method accepted e w''
           | (Inr out, w'') \<Rightarrow> (Inr (Answer out), w'')))"

fun serve ::
  "'w bridge_deps \<Rightarrow> (string \<times> request) list \<Rightarrow> 'w \<Rightarrow> (exn + answer) list \<times> 'w" where
  "serve D [] w = ([], w)"
| "serve D ((method, request) # rest) w =
     (case handle_request D method request w of (res, w') \<Rightarrow>
        (case serve D rest w' of (results, w'') \<Rightarrow> (res # results, w'')))"

lemma handle_request_wp:
  "wp (onRequest D (r\<lparr>rq_context := None\<rparr>))
     (\<lambda>accepted. wp (dispatch D method accepted) (\<lambda>out. Q (Answer out))
        (\<lambda>e. wp (errorHandler D method accepted e) Q E))
     (\<lambda>e. wp (errorHandler D method (r\<lparr>rq_context := None\<rparr>) e) Q E) w \<Longrightarrow>
   wp (handle_request D method r) Q E w"
  by (auto simp: wp_def handle_request_def split: prod.splits sum.splits)

record probe =
  pb_statusCode :: int
  pb_ok :: bool
  pb_service :: string
  pb_now :: int

definition health :: "'w bridge_deps \<Rightarrow> ('w, exn, probe) io" where
  "health D = io_bind (d_now D) (\<lambda>t.
     io_return \<lparr>pb_statusCode = 200, pb_ok = True, pb_service = ''bridge-api'', pb_now = t\<rparr>)"

definition ready :: "'w bridge_deps \<Rightarrow> ('w, exn, bool) io \<Rightarrow> ('w, exn, probe) io" where
  "ready D readinessCheck =
     io_bind readinessCheck (\<lambda>isReady.
     io_bind (d_now D) (\<lambda>t.
       io_return \<lparr>pb_statusCode = (if isReady then 200 else 503), pb_ok = isReady,
                  pb_service = ''bridge-api'', pb_now = t\<rparr>))"

section \<open>Parsing of the bearer token and of the error codes\<close>

lemma parseBearerToken_Inr:
  assumes "parseBearerToken h = Inr token"
  shows "\<exists>v. h = Some v \<and> take 2 (split_on (CHR '' '') v) = [''Bearer'', token] \<and> trim token \<noteq> []"
  using assms
  by (auto simp: parseBearerToken_def Let_def split: option.split_asm list.split_asm if_split_asm)

lemma parseBearerToken_Inl:
  "parseBearerToken h = Inl e \<Longrightarrow> ae_code e = A_UNAUTHORIZED"
  by (auto simp: parseBearerToken_def Let_def split: option.split_asm list.split_asm if_split_asm)

lemma mapAuthError_status:
  "be_statusCode (mapAuthError (AuthError c m)) =
     (case c of A_UNAUTHORIZED \<Rightarrow> 401 | A_INVALID_CLAIMS \<Rightarrow> 401 | A_INVALID_ARGUMENT \<Rightarrow> 400 | _ \<Rightarrow> 403)"
  by (cases c) simp_all

end
