(* ===== verification/BridgeSafety.thy ===== *)
theory BridgeSafety
  imports BridgeHttp
begin

text \<open>
  What the handlers of the bridge guarantee over any stores that keep their contracts. The
  locale \<open>bridge\<close> joins the contracts of the stores over one view and adds what the handlers
  rely on elsewhere: the clock, the id generator, the verifier and the audit store do not touch
  what the other stores hold, and a schema returns the output it accepts. Every lemma is proved
  in it once; the in-memory stores are an interpretation.
\<close>

section \<open>Changes that stay inside one workspace\<close>

definition owned :: "string \<Rightarrow> thread option \<Rightarrow> bool" where
  "owned ws t \<longleftrightarrow> (case t of None \<Rightarrow> False | Some th \<Rightarrow> th_workspaceId th = ws)"

lemma owned_simps [simp]: "\<not> owned ws None" "owned ws (Some t) \<longleftrightarrow> th_workspaceId t = ws"
  by (simp_all add: owned_def)

definition confined :: "string \<Rightarrow> bridge_view \<Rightarrow> bridge_view \<Rightarrow> bool" where
  "confined ws v v' \<longleftrightarrow>
     (\<forall>t. v_threads v' t \<noteq> v_threads v t \<longrightarrow>
        owned ws (v_threads v' t) \<and> (v_threads v t = None \<or> owned ws (v_threads v t))) \<and>
     (\<forall>t. v_messages v' t \<noteq> v_messages v t \<longrightarrow> owned ws (v_threads v' t)) \<and>
     (\<forall>k. v_cursors v' k \<noteq> v_cursors v k \<longrightarrow>
        (\<exists>c. v_cursors v' k = Some c \<and> owned ws (v_threads v' (cu_threadId c)))) \<and>
     (\<forall>k. v_sessions v' k \<noteq> v_sessions v k \<longrightarrow>
        (\<exists>s. v_sessions v' k = Some s \<and> se_workspaceId s = ws)) \<and>
     (\<forall>k. v_jobs v' k \<noteq> v_jobs v k \<longrightarrow> (\<exists>j. v_jobs v' k = Some j \<and> tj_workspaceId j = ws)) \<and>
     (\<exists>es. v_audit v' = v_audit v @ es \<and> (\<forall>e\<in>set es. au_workspaceId e = ws))"

lemma confined_refl [simp, intro]: "confined ws v v"
  by (simp add: confined_def)

lemma confined_audit [intro!]:
  "confined ws v v1 \<Longrightarrow> v_audit v1 = es \<Longrightarrow> au_workspaceId e = ws \<Longrightarrow>
     confined ws v (v1\<lparr>v_audit := es @ [e]\<rparr>)"
  by (auto simp: confined_def)

lemma confined_new_thread [intro!]:
  "v_threads v tid = None \<Longrightarrow> th_workspaceId t = ws \<Longrightarrow>
     confined ws v (v\<lparr>v_threads := (v_threads v)(tid := Some t),
                      v_messages := (v_messages v)(tid := [])\<rparr>)"
  by (auto simp: confined_def)

lemma confined_thread [intro!]:
  "owned ws (v_threads v tid) \<Longrightarrow> th_workspaceId t = ws \<Longrightarrow>
     confined ws v (v\<lparr>v_threads := (v_threads v)(tid := Some t)\<rparr>)"
  by (auto simp: confined_def)

lemma confined_messages [intro!]:
  "owned ws (v_threads v tid) \<Longrightarrow> confined ws v (v\<lparr>v_messages := (v_messages v)(tid := ms)\<rparr>)"
  by (auto simp: confined_def)

lemma confined_cursor [intro!]:
  "owned ws (v_threads v (cu_threadId c)) \<Longrightarrow>
     confined ws v (v\<lparr>v_cursors := (v_cursors v)(k := Some c)\<rparr>)"
  by (auto simp: confined_def)

lemma confined_session [intro!]:
  "se_workspaceId s = ws \<Longrightarrow> confined ws v (v\<lparr>v_sessions := (v_sessions v)(k := Some s)\<rparr>)"
  by (auto simp: confined_def)

lemma confined_job [intro!]:
  "tj_workspaceId j = ws \<Longrightarrow> confined ws v (v\<lparr>v_jobs := (v_jobs v)(k := Some j)\<rparr>)"
  by (auto simp: confined_def)

section \<open>The invariant of what the stores hold\<close>

text \<open>
  Threads are well formed and filed under their id; messages are numbered 1, 2, ... in their
  thread; a cursor belongs to a thread and never points past its last message; a trigger job
  is for a participant of a thread of its workspace. \<open>plain\<close> describes the thread ids for which
  the cursor keys \<open>ck\<close> cannot collide.
\<close>

definition inv_threads :: "(string \<Rightarrow> bool) \<Rightarrow> bridge_view \<Rightarrow> bool" where
  "inv_threads plain v \<longleftrightarrow>
     (\<forall>tid t. v_threads v tid = Some t \<longrightarrow> wf_thread t \<and> th_threadId t = tid \<and> plain tid)"

definition inv_messages :: "bridge_view \<Rightarrow> bool" where
  "inv_messages v \<longleftrightarrow>
     (\<forall>tid. numbered (v_messages v tid) \<and>
        (\<forall>m\<in>set (v_messages v tid). wf_message m \<and> ms_threadId m = tid))"

definition inv_cursors :: "(string \<Rightarrow> string \<Rightarrow> string) \<Rightarrow> bridge_view \<Rightarrow> bool" where
  "inv_cursors ck v \<longleftrightarrow>
     (\<forall>k c. v_cursors v k = Some c \<longrightarrow>
        k = ck (cu_threadId c) (cu_agentId c) \<and> v_threads v (cu_threadId c) \<noteq> None \<and>
        0 \<le> cu_lastReadSeq c \<and> cu_lastReadSeq c \<le> last_seq (v_messages v (cu_threadId c)))"

definition job_for_thread :: "bridge_view \<Rightarrow> trigger_job \<Rightarrow> bool" where
  "job_for_thread v j \<longleftrightarrow>
     (\<exists>t. v_threads v (tj_threadId j) = Some t \<and> th_workspaceId t = tj_workspaceId j \<and>
        trim (tj_targetAgentId j) \<in> set (th_participants t))"

definition inv_jobs :: "bridge_view \<Rightarrow> bool" where
  "inv_jobs v \<longleftrightarrow>
     (\<forall>k j. v_jobs v k = Some j \<longrightarrow> tj_triggerId j = k \<and> job_for_thread v j \<and>
        tj_attempts j = 0 \<and> tj_status j \<in> {Queued, FallbackResume, FallbackSpawn})"

definition bridge_inv ::
  "(string \<Rightarrow> bool) \<Rightarrow> (string \<Rightarrow> string \<Rightarrow> string) \<Rightarrow> bridge_view \<Rightarrow> bool" where
  "bridge_inv plain ck v \<longleftrightarrow>
     inv_threads plain v \<and> inv_messages v \<and> inv_cursors ck v \<and> inv_jobs v"

lemmas bridge_inv_defs = bridge_inv_def inv_threads_def inv_messages_def inv_cursors_def
  inv_jobs_def job_for_thread_def

text \<open>A thread that is a later state of the one that is stored.\<close>

definition continues :: "thread option \<Rightarrow> thread \<Rightarrow> bool" where
  "continues old t \<longleftrightarrow> (case old of None \<Rightarrow> False
     | Some t0 \<Rightarrow> th_threadId t = th_threadId t0 \<and> th_workspaceId t = th_workspaceId t0 \<and>
         th_participants t = th_participants t0 \<and> (wf_thread t0 \<longrightarrow> wf_thread t))"

lemma continues_simps [simp]:
  "\<not> continues None t"
  "continues (Some t0) t \<longleftrightarrow> th_threadId t = th_threadId t0 \<and> th_workspaceId t = th_workspaceId t0 \<and>
     th_participants t = th_participants t0 \<and> (wf_thread t0 \<longrightarrow> wf_thread t)"
  by (simp_all add: continues_def)

lemma transition_continues: "transitionThreadStatus t0 s d = Inr t \<Longrightarrow> continues (Some t0) t"
  using transition_frame transition_wf by simp

lemma inv_thread_id:
  "bridge_inv plain ck v \<Longrightarrow> v_threads v tid = Some t \<Longrightarrow>
     wf_thread t \<and> th_threadId t = tid \<and> trim tid = tid \<and> plain tid"
  unfolding bridge_inv_def inv_threads_def wf_thread_def normal_string_def by blast

lemma inv_audit [intro!]: "bridge_inv plain ck v \<Longrightarrow> bridge_inv plain ck (v\<lparr>v_audit := as\<rparr>)"
  by (simp add: bridge_inv_defs)

lemma inv_session [intro!]: "bridge_inv plain ck v \<Longrightarrow> bridge_inv plain ck (v\<lparr>v_sessions := ss\<rparr>)"
  by (simp add: bridge_inv_defs)

lemma inv_new_thread [intro!]:
  assumes "bridge_inv plain ck v" "v_threads v tid = None" "wf_thread t" "th_threadId t = tid"
    "plain tid"
  shows "bridge_inv plain ck (v\<lparr>v_threads := (v_threads v)(tid := Some t),
                                v_messages := (v_messages v)(tid := [])\<rparr>)"
  using assms unfolding bridge_inv_defs by (simp; metis option.distinct(1))

lemma inv_thread [intro!]:
  assumes "bridge_inv plain ck v" "continues (v_threads v tid) t"
  shows "bridge_inv plain ck (v\<lparr>v_threads := (v_threads v)(tid := Some t)\<rparr>)"
proof (cases "v_threads v tid")
  case (Some t0)
  with assms show ?thesis
    unfolding bridge_inv_defs by (simp; metis option.inject)
qed (use assms in simp)

lemma inv_message [intro!]:
  assumes "bridge_inv plain ck v" "wf_message m" "ms_threadId m = tid"
    "ms_seq m = last_seq (v_messages v tid) + 1"
  shows "bridge_inv plain ck
     (v\<lparr>v_messages := (v_messages v)(tid := v_messages v tid @ [m])\<rparr>)"
  using assms numbered_snoc [of "v_messages v tid" m]
  unfolding bridge_inv_defs by (simp; smt (verit) option.inject)

lemma inv_cursor [intro!]:
  assumes "bridge_inv plain ck v" "v_threads v (cu_threadId c) \<noteq> None"
    "0 \<le> cu_lastReadSeq c" "cu_lastReadSeq c \<le> last_seq (v_messages v (cu_threadId c))"
    "k = ck (cu_threadId c) (cu_agentId c)"
  shows "bridge_inv plain ck (v\<lparr>v_cursors := (v_cursors v)(k := Some c)\<rparr>)"
  using assms unfolding bridge_inv_defs by simp

lemma inv_job [intro!]:
  assumes "bridge_inv plain ck v" "job_for_thread v j" "tj_attempts j = 0"
    "tj_status j \<in> {Queued, FallbackResume, FallbackSpawn}" "tj_triggerId j = k"
  shows "bridge_inv plain ck (v\<lparr>v_jobs := (v_jobs v)(k := Some j)\<rparr>)"
  using assms unfolding bridge_inv_defs by auto

text \<open>What the handlers know of the results of the domain functions.\<close>

lemma createThread_facts:
  "createThread now i = Inr t \<Longrightarrow> wf_thread t \<and> th_threadId t = trim (ct_threadId i) \<and>
     th_workspaceId t = trim (ct_workspaceId i)"
  using createThread_wf by (auto simp: createThread_Inr_iff)

lemma applyHeartbeat_workspace:
  "applySessionHeartbeat now os i = Inr s \<Longrightarrow>
     se_workspaceId s = hb_workspaceId i \<or> se_workspaceId s = trim (hb_workspaceId i)"
  by (cases os)
    (auto simp: applySessionHeartbeat_def createSessionFromHeartbeat_def split: if_split_asm)

lemma isThreadParticipant_True:
  "isThreadParticipant t a = Inr True \<Longrightarrow> trim a \<in> set (th_participants t)"
  by (simp add: isThreadParticipant_def)

lemma decision_status:
  "resolveTriggerDecision s h n = Inr d \<Longrightarrow> td_jobStatus d \<in> {Queued, FallbackResume, FallbackSpawn}"
  by (auto simp: resolveTriggerDecision_def Let_def split: option.split_asm if_split_asm)

definition posted_by :: "claims \<Rightarrow> post_payload \<Rightarrow> message list \<Rightarrow> message \<Rightarrow> bool" where
  "posted_by c input ms m \<longleftrightarrow>
     (\<exists>newId t. createMessage 0 (post_input c input newId (last_seq ms + 1) t) = Inr m)"

lemma posted_byI:
  "createMessage 0 (post_input c input newId (last_seq ms + 1) t) = Inr m \<Longrightarrow> posted_by c input ms m"
  by (auto simp: posted_by_def)

lemma posted_facts:
  assumes "posted_by c input ms m"
  shows "wf_message m" "ms_threadId m = trim (pp_thread_id input)" "ms_seq m = last_seq ms + 1"
    "ms_senderAgentId m = trim (ac_agentId c)" "ms_senderSessionId m = trim (ac_sessionId c)"
    "ms_body m = trim (pp_body input)" "ms_kind m = pp_kind input"
    "ms_schemaVersion m = pp_schema_version input"
    "normalizeMetadata (pp_metadata input) = Inr (ms_metadata m)"
    "ms_inReplyTo m = map_option trim (pp_in_reply_to input)"
    "ms_idempotencyKey m = map_option trim (pp_idempotency_key input)"
proof -
  from assms obtain i t where m: "createMessage 0 (post_input c input i (last_seq ms + 1) t) = Inr m"
    by (auto simp: posted_by_def)
  from createMessage_wf [OF m] createMessage_Inr_fields [OF m]
  show "wf_message m" "ms_threadId m = trim (pp_thread_id input)" "ms_seq m = last_seq ms + 1"
    "ms_senderAgentId m = trim (ac_agentId c)" "ms_senderSessionId m = trim (ac_sessionId c)"
    "ms_body m = trim (pp_body input)" "ms_kind m = pp_kind input"
    "ms_schemaVersion m = pp_schema_version input"
    "normalizeMetadata (pp_metadata input) = Inr (ms_metadata m)"
    "ms_inReplyTo m = map_option trim (pp_in_reply_to input)"
    "ms_idempotencyKey m = map_option trim (pp_idempotency_key input)"
    by (simp_all add: post_input_def)
qed

lemma post_input_thread [simp]: "cm_threadId (post_input c input newId n t) = pp_thread_id input"
  by (simp add: post_input_def)

definition append_message :: "string \<Rightarrow> message \<Rightarrow> bridge_view \<Rightarrow> bridge_view" where
  "append_message tid m v = v\<lparr>v_messages := (v_messages v)(tid := v_messages v tid @ [m])\<rparr>"

text \<open>The strings of an output go through \<open>z.string().trim()\<close>; the rest is returned as it is.\<close>

fun trim_output :: "mcp_output \<Rightarrow> mcp_output" where
  "trim_output (CreateThreadOutput tid st t) = CreateThreadOutput (trim tid) st t"
| "trim_output (GetThreadOutput t) =
     GetThreadOutput (t\<lparr>th_threadId := trim (th_threadId t), th_workspaceId := trim (th_workspaceId t),
       th_title := trim (th_title t), th_participants := map trim (th_participants t)\<rparr>)"
| "trim_output (UpdateThreadStatusOutput tid st t) = UpdateThreadStatusOutput (trim tid) st t"
| "trim_output (SummarizeThreadOutput s items st) = SummarizeThreadOutput (trim s) (map trim items) st"
| "trim_output (HeartbeatOutput t) = HeartbeatOutput t"
| "trim_output (TriggerOutput t) =
     TriggerOutput (t\<lparr>to_trigger_id := trim (to_trigger_id t),
       to_target_agent_id := trim (to_target_agent_id t),
       to_target_session_id := map_option trim (to_target_session_id t),
       to_runtime := map_option trim (to_runtime t)\<rparr>)"
| "trim_output (PostMessageOutput i n st t) = PostMessageOutput (trim i) n st t"
| "trim_output (ReadMessagesOutput ms n hasMore) =
     ReadMessagesOutput (map (\<lambda>m. m\<lparr>rm_message_id := trim (rm_message_id m),
       rm_body := trim (rm_body m), rm_sender_agent_id := trim (rm_sender_agent_id m)\<rparr>) ms) n hasMore"
| "trim_output (AckReadOutput t) = AckReadOutput t"
| "trim_output (ForeignOutput v) = ForeignOutput v"

section \<open>The bridge over any stores\<close>

text \<open>Everything but the audit log.\<close>

definition data_of :: "bridge_view \<Rightarrow> bridge_view" where
  "data_of v = v\<lparr>v_audit := []\<rparr>"

lemma data_of_audit [simp]: "data_of (v\<lparr>v_audit := es\<rparr>) = data_of v"
  by (simp add: data_of_def)

definition normal_tokens :: "'w bridge_deps \<Rightarrow> bool" where
  "normal_tokens D \<longleftrightarrow> (\<forall>token w c w'. d_verifyAccessToken D token w = (Inr c, w') \<longrightarrow>
     trim (ac_workspaceId c) = ac_workspaceId c)"

text \<open>The id generator never returns the id of a thread there is, nor one that is not \<open>plain\<close>.\<close>

definition fresh_ids ::
  "'w bridge_deps \<Rightarrow> ('w \<Rightarrow> bridge_view) \<Rightarrow> (string \<Rightarrow> bool) \<Rightarrow> bool" where
  "fresh_ids D view plain \<longleftrightarrow> (\<forall>w i w'. d_idGenerator D w = (Inr i, w') \<longrightarrow>
     v_threads (view w) (trim (''th_'' @ i)) = None \<and> plain (trim (''th_'' @ i)))"

locale bridge =
  threads: thread_store_contract "d_threadStore D" view cursor_key +
  sessions: session_store_contract "d_sessionStore D" view session_key +
  jobs: trigger_store_contract "d_triggerStore D" view
  for D :: "'w bridge_deps" and view :: "'w \<Rightarrow> bridge_view"
    and cursor_key :: "string \<Rightarrow> string \<Rightarrow> string" and session_key :: "string \<Rightarrow> string \<Rightarrow> string"
    and plain :: "string \<Rightarrow> bool" +
  assumes audit: "d_auditStore D = Some a \<Longrightarrow> audit_store_contract a view"
    and now_view: "d_now D w = (rt, w') \<Longrightarrow> view w' = view w"
    and id_view: "d_idGenerator D w = (ri, w') \<Longrightarrow> view w' = view w"
    and verify_view: "d_verifyAccessToken D token w = (rc, w') \<Longrightarrow> view w' = view w"
    and output_same: "d_outputSchema D out = Inr out' \<Longrightarrow> out' = trim_output out"
    and output_error: "d_outputSchema D bad = Inl err \<Longrightarrow> \<exists>msg. err = ZodExn msg"
    and key_inj: "plain t1 \<Longrightarrow> plain t2 \<Longrightarrow> cursor_key t1 a1 = cursor_key t2 a2 \<Longrightarrow> t1 = t2 \<and> a1 = a2"
begin

lemma wp_reads [wp_rules]:
  "(\<And>w'. view w' = view w \<Longrightarrow> Q (v_threads (view w) tid) w') \<Longrightarrow>
     (\<And>e w'. view w' = view w \<Longrightarrow> E e w') \<Longrightarrow> wp (ts_getThreadById (d_threadStore D) tid) Q E w"
  "(\<And>s w'. view w' = view w \<Longrightarrow> Q2 s w') \<Longrightarrow>
     (\<And>e w'. view w' = view w \<Longrightarrow> E e w') \<Longrightarrow> wp (ts_summarizeThread (d_threadStore D) tid n) Q2 E w"
  "(\<And>w'. view w' = view w \<Longrightarrow> Q3 (last_seq (v_messages (view w) tid)) w') \<Longrightarrow>
     (\<And>e w'. view w' = view w \<Longrightarrow> E e w') \<Longrightarrow> wp (ts_getLatestMessageSeq (d_threadStore D) tid) Q3 E w"
  "(\<And>p w'. view w' = view w \<Longrightarrow>
       (0 \<le> l \<Longrightarrow> let later = filter (\<lambda>x. sq < ms_seq x) (v_messages (view w) tid)
         in rr_messages p = take (nat l) later \<and>
          rr_nextSeq p = (case js_last (take (nat l) later) of None \<Rightarrow> sq | Some x \<Rightarrow> ms_seq x) \<and>
          rr_hasMore p = (l < int (length later))) \<Longrightarrow> Q4 p w') \<Longrightarrow>
     (\<And>e w'. view w' = view w \<Longrightarrow> E e w') \<Longrightarrow> wp (ts_readMessages (d_threadStore D) tid sq l) Q4 E w"
  "(\<And>w'. view w' = view w \<Longrightarrow>
       Q5 (find (\<lambda>x. ms_messageId x = mid) (v_messages (view w) tid)) w') \<Longrightarrow>
     (\<And>e w'. view w' = view w \<Longrightarrow> E e w') \<Longrightarrow> wp (ts_getMessageById (d_threadStore D) tid mid) Q5 E w"
  "(\<And>w'. view w' = view w \<Longrightarrow>
       Q6 (find (\<lambda>x. ms_senderAgentId x = ag \<and> ms_idempotencyKey x = Some k)
            (v_messages (view w) tid)) w') \<Longrightarrow>
     (\<And>e w'. view w' = view w \<Longrightarrow> E e w') \<Longrightarrow>
     wp (ts_getMessageByIdempotency (d_threadStore D) tid ag k) Q6 E w"
  "(\<And>w'. view w' = view w \<Longrightarrow> Q7 (v_cursors (view w) (cursor_key tid ag)) w') \<Longrightarrow>
     (\<And>e w'. view w' = view w \<Longrightarrow> E e w') \<Longrightarrow>
     wp (ts_getParticipantCursor (d_threadStore D) tid ag) Q7 E w"
  "(\<And>w'. view w' = view w \<Longrightarrow> Q8 (v_sessions (view w) (session_key ag ws)) w') \<Longrightarrow>
     (\<And>e w'. view w' = view w \<Longrightarrow> E e w') \<Longrightarrow> wp (ss_getSession (d_sessionStore D) ag ws) Q8 E w"
  "(\<And>t w'. view w' = view w \<Longrightarrow> Q9 t w') \<Longrightarrow> (\<And>e w'. view w' = view w \<Longrightarrow> E e w') \<Longrightarrow> wp (d_now D) Q9 E w"
  "(\<And>i w'. view w' = view w \<Longrightarrow>
       (fresh_ids D view plain \<Longrightarrow> v_threads (view w) (trim (''th_'' @ i)) = None \<and>
          plain (trim (''th_'' @ i))) \<Longrightarrow> Q10 i w') \<Longrightarrow>
     (\<And>e w'. view w' = view w \<Longrightarrow> E e w') \<Longrightarrow> wp (d_idGenerator D) Q10 E w"
  "(\<And>c w'. view w' = view w \<Longrightarrow> d_verifyAccessToken D token w = (Inr c, w') \<Longrightarrow> Q11 c w') \<Longrightarrow>
     (\<And>e w'. view w' = view w \<Longrightarrow> E e w') \<Longrightarrow> wp (d_verifyAccessToken D token) Q11 E w"
  unfolding fresh_ids_def
  by (rule wpI; blast dest: threads.getThread_ok threads.getThread_view threads.summarize_view
      threads.latestSeq_view threads.latestSeq_ok threads.readMessages_view threads.readMessages_ok
      threads.messageById_view threads.messageById_ok threads.messageByKey_view
      threads.messageByKey_ok threads.getCursor_view threads.getCursor_ok
      sessions.getSession_view sessions.getSession_ok now_view id_view verify_view)+

lemma wp_writes [wp_rules]:
  "(\<And>t w'. createThread 0 (ci\<lparr>ct_status := None\<rparr>) = Inr t \<Longrightarrow>
       view w' = (view w)\<lparr>v_threads := (v_threads (view w))(th_threadId t := Some t),
                          v_messages := (v_messages (view w))(th_threadId t := [])\<rparr> \<Longrightarrow> Q t w') \<Longrightarrow>
     (\<And>e w'. view w' = view w \<Longrightarrow> E e w') \<Longrightarrow> wp (ts_createThread (d_threadStore D) ci) Q E w"
  "(\<And>t t0 w'. v_threads (view w) tid = Some t0 \<Longrightarrow> transitionThreadStatus t0 s d = Inr t \<Longrightarrow>
       (\<forall>x. ex = Some x \<longrightarrow> th_status t0 = x) \<Longrightarrow>
       view w' = (view w)\<lparr>v_threads := (v_threads (view w))(tid := Some t)\<rparr> \<Longrightarrow> Q2 (Some t) w') \<Longrightarrow>
     (\<And>w'. view w' = view w \<Longrightarrow> Q2 None w') \<Longrightarrow> (\<And>e w'. view w' = view w \<Longrightarrow> E e w') \<Longrightarrow>
     wp (ts_updateThreadStatus (d_threadStore D) tid s d ex) Q2 E w"
  "(\<And>m w'. createMessage 0 mi = Inr m \<Longrightarrow>
       view w' = (view w)\<lparr>v_messages := (v_messages (view w))
         (cm_threadId mi := v_messages (view w) (cm_threadId mi) @ [m])\<rparr> \<Longrightarrow> Q3 m w') \<Longrightarrow>
     (\<And>e w'. view w' = view w \<Longrightarrow> E e w') \<Longrightarrow> wp (ts_createMessage (d_threadStore D) mi) Q3 E w"
  "(\<And>w'. view w' = (view w)\<lparr>v_cursors := (v_cursors (view w))
         (cursor_key (cu_threadId c) (cu_agentId c) := Some c)\<rparr> \<Longrightarrow> Q4 c w') \<Longrightarrow>
     (\<And>e w'. view w' = view w \<Longrightarrow> E e w') \<Longrightarrow>
     wp (ts_upsertParticipantCursor (d_threadStore D) c) Q4 E w"
  "hb_heartbeatAt hi = Some (At t) \<Longrightarrow>
     (\<And>se w'. applySessionHeartbeat 0
           (v_sessions (view w) (session_key (hb_agentId hi) (hb_workspaceId hi))) hi = Inr se \<Longrightarrow>
       view w' = (view w)\<lparr>v_sessions := (v_sessions (view w))
         (session_key (hb_agentId hi) (hb_workspaceId hi) := Some se)\<rparr> \<Longrightarrow> Q5 se w') \<Longrightarrow>
     (\<And>e w'. view w' = view w \<Longrightarrow> E e w') \<Longrightarrow>
     wp (ss_heartbeatSession (d_sessionStore D) hi) Q5 E w"
  "(\<And>old w'. v_jobs (view w) (tj_triggerId j) = Some old \<Longrightarrow> view w' = view w \<Longrightarrow>
       Q6 \<lparr>cr_record = old, cr_created = False\<rparr> w') \<Longrightarrow>
     (\<And>w'. v_jobs (view w) (tj_triggerId j) = None \<Longrightarrow>
       view w' = (view w)\<lparr>v_jobs := (v_jobs (view w))(tj_triggerId j := Some j)\<rparr> \<Longrightarrow>
       Q6 \<lparr>cr_record = j, cr_created = True\<rparr> w') \<Longrightarrow>
     (\<And>e w'. view w' = view w \<Longrightarrow> E e w') \<Longrightarrow>
     wp (trs_createOrReuseTriggerJob (d_triggerStore D) j) Q6 E w"
  subgoal by (rule wpI; blast dest: threads.createThread_ok threads.createThread_fail)
  subgoal
  proof (rule wpI, goal_cases)
    case (1 r w')
    show ?case
    proof (cases r)
      case None
      with 1(4) have "view w' = view w" by (intro threads.updateStatus_none) simp
      with None 1(2) show ?thesis by simp
    next
      case (Some t)
      with 1(4) have "ts_updateThreadStatus (d_threadStore D) tid s d ex w = (Inr (Some t), w')"
        by simp
      from threads.updateStatus_ok [OF this] Some 1(1) show ?thesis by blast
    qed
  next
    case (2 e w')
    show ?case by (rule 2(3) [OF threads.updateStatus_fail [OF 2(4)]])
  qed
  subgoal by (rule wpI; blast dest: threads.createMessage_ok threads.createMessage_fail)
  subgoal by (rule wpI; blast dest: threads.upsertCursor_ok threads.upsertCursor_fail)
  subgoal by (rule wpI; blast dest: sessions.heartbeat_ok sessions.heartbeat_fail)
  subgoal
  proof (rule wpI, goal_cases)
    case (1 r w')
    then show ?case
      using jobs.createOrReuse_ok [OF 1(4)] by (auto split: option.split_asm)
  next
    case (2 e w')
    show ?case by (rule 2(3) [OF jobs.createOrReuse_fail [OF 2(4)]])
  qed
  done

text \<open>An audit event is appended or, when there is no audit store or it fails, dropped.\<close>

lemma wp_audit [wp_rules]:
  assumes "au_createdAt e = Some t"
    and "\<And>w'. view w' = (view w)\<lparr>v_audit := v_audit (view w) @ [e]\<rparr> \<Longrightarrow> Q () w'"
    and "\<And>w'. view w' = view w \<Longrightarrow> Q () w'"
  shows "wp (writeAuditEvent D e) Q E w"
proof (cases "d_auditStore D")
  case None
  with assms(3) show ?thesis by (simp add: writeAuditEvent_def wp_def)
next
  case (Some a)
  note a = audit [OF Some]
  show ?thesis
    unfolding writeAuditEvent_def Some option.case
    by (rule wp_catch, rule wpI)
      (use assms audit_store_contract.writeEvent_ok [OF a] audit_store_contract.writeEvent_fail [OF a]
        in \<open>auto intro: wp_return\<close>)
qed

end

section \<open>Every handler stays inside the workspace of the caller\<close>

lemma createThread_workspace:
  "createThread n i = Inr t \<Longrightarrow> th_workspaceId t = trim (ct_workspaceId i) \<and>
     th_threadId t = trim (ct_threadId i)"
  by (auto simp: createThread_Inr_iff)

text \<open>Without an authenticated context no method returns, nor changes anything.\<close>

lemma needs_context:
  "rq_context r = None \<Longrightarrow> io_bind (io_lift q) (\<lambda>a. io_bind (io_lift (requireContext r)) (f a)) w = (res, w') \<Longrightarrow>
     (\<exists>e. res = Inl e) \<and> w' = w"
  by (auto simp: requireContext_def io_bind_iff)

lemma handler_cases:
  assumes "map_of (methodHandlers D) method = Some h"
  shows "h \<in> {h_create_thread D, h_get_thread D, h_update_thread_status D, h_summarize_thread D,
    h_heartbeat_session D, h_trigger_participant D, h_post_message D, h_read_messages D, h_ack_read D}"
  using map_of_SomeD [OF assms] by (auto simp: methodHandlers_def)

lemma no_context:
  assumes "rq_context r = None" "map_of (methodHandlers D) method = Some h" "h p r w = (res, w')"
  shows "(\<exists>e. res = Inl e) \<and> w' = w"
  using handler_cases [OF assms(2)] assms(3)
  unfolding insert_iff empty_iff simp_thms h_create_thread_def h_get_thread_def
    h_update_thread_status_def h_summarize_thread_def h_heartbeat_session_def
    h_trigger_participant_def h_post_message_def h_read_messages_def h_ack_read_def
  by (elim disjE) (hypsubst, erule needs_context [OF assms(1)])+

section \<open>Every handler keeps the invariant and stays inside the caller's workspace\<close>

context bridge
begin

abbreviation good :: "string \<Rightarrow> 'w \<Rightarrow> 'w \<Rightarrow> bool" where
  "good ws w w' \<equiv> bridge_inv plain cursor_key (view w') \<and> confined ws (view w) (view w')"

abbreviation keeps :: "string \<Rightarrow> 'w \<Rightarrow> ('w, exn, 'a) io \<Rightarrow> bool" where
  "keeps ws w m \<equiv> wp m (\<lambda>_ w'. good ws w w') (\<lambda>_ w'. good ws w w') w"

lemma keeps_get:
  assumes "bridge_inv plain cursor_key (view w)" "rq_context r = Some c"
  shows "keeps (ac_workspaceId c) w (h_get_thread D p r)"
  unfolding h_get_thread_def requireContext_def using assms
  by (intro wp_rules) auto

lemma keeps_create:
  assumes "bridge_inv plain cursor_key (view w)" "rq_context r = Some c"
    "trim (ac_workspaceId c) = ac_workspaceId c" "fresh_ids D view plain"
  shows "keeps (ac_workspaceId c) w (h_create_thread D p r)"
  unfolding h_create_thread_def requireContext_def using assms
  by (intro wp_rules) (auto dest!: createThread_facts)

lemma keeps_update:
  assumes "bridge_inv plain cursor_key (view w)" "rq_context r = Some c"
  shows "keeps (ac_workspaceId c) w (h_update_thread_status D p r)"
  unfolding h_update_thread_status_def requireContext_def using assms
  by (intro wp_rules) (auto dest!: transition_continues)

lemma keeps_summarize:
  assumes "bridge_inv plain cursor_key (view w)" "rq_context r = Some c"
  shows "keeps (ac_workspaceId c) w (h_summarize_thread D p r)"
  unfolding h_summarize_thread_def requireContext_def using assms
  by (intro wp_rules) auto

lemma keeps_heartbeat:
  assumes "bridge_inv plain cursor_key (view w)" "rq_context r = Some c"
    "trim (ac_workspaceId c) = ac_workspaceId c"
  shows "keeps (ac_workspaceId c) w (h_heartbeat_session D p r)"
  unfolding h_heartbeat_session_def requireContext_def using assms
  by (intro wp_rules) (auto dest!: applyHeartbeat_workspace)

lemma keeps_trigger:
  assumes "bridge_inv plain cursor_key (view w)" "rq_context r = Some c"
  shows "keeps (ac_workspaceId c) w (h_trigger_participant D p r)"
  unfolding h_trigger_participant_def requireContext_def using assms
  apply (intro wp_rules)
  apply (auto simp: job_for_thread_def dest!: isThreadParticipant_True decision_status)
  done

lemma keeps_read:
  assumes "bridge_inv plain cursor_key (view w)" "rq_context r = Some c"
  shows "keeps (ac_workspaceId c) w (h_read_messages D p r)"
  unfolding h_read_messages_def requireContext_def using assms
  by (intro wp_rules) auto

text \<open>The cursor that \<open>ack_read\<close> writes, from the stored one or from a new one.\<close>

lemma ack_cursor:
  assumes inv: "bridge_inv plain cursor_key v" and t: "v_threads v tid = Some t"
    and cur: "v_cursors v (cursor_key tid a) = Some cur \<or>
      createParticipantCursor now \<lparr>cc_threadId = tid, cc_agentId = a, cc_createdAt = d\<rparr> = Inr cur"
    and ack: "acknowledgeRead now' cur \<lparr>ak_lastReadSeq = js_int n, ak_lastAckedMessageId = None,
      ak_updatedAt = d'\<rparr> = Inr c"
    and le: "n \<le> last_seq (v_messages v tid)"
  shows "cu_threadId c = tid" "cu_lastReadSeq c = n" "cu_lastReadSeq cur \<le> n"
    "bridge_inv plain cursor_key
      (v\<lparr>v_cursors := (v_cursors v)(cursor_key (cu_threadId c) (cu_agentId c) := Some c)\<rparr>)"
proof -
  have pt: "plain tid" "trim tid = tid"
    using inv_thread_id [OF inv t] by simp_all
  have "cu_threadId cur = tid \<and> 0 \<le> cu_lastReadSeq cur"
    using cur
  proof
    assume c: "v_cursors v (cursor_key tid a) = Some cur"
    with inv obtain t' where "cursor_key tid a = cursor_key (cu_threadId cur) (cu_agentId cur)"
      "v_threads v (cu_threadId cur) = Some t'" "0 \<le> cu_lastReadSeq cur"
      unfolding bridge_inv_defs by blast
    moreover from this(2) inv have "plain (cu_threadId cur)"
      unfolding bridge_inv_defs by blast
    ultimately show ?thesis using key_inj [OF pt(1)] by metis
  qed (auto simp: createParticipantCursor_def pt)
  with acknowledgeRead_Inr [OF ack] t show "cu_threadId c = tid" "cu_lastReadSeq c = n"
    "cu_lastReadSeq cur \<le> n" by auto
  moreover have "0 \<le> n"
    using \<open>cu_threadId cur = tid \<and> 0 \<le> cu_lastReadSeq cur\<close> \<open>cu_lastReadSeq cur \<le> n\<close> by simp
  ultimately show "bridge_inv plain cursor_key
      (v\<lparr>v_cursors := (v_cursors v)(cursor_key (cu_threadId c) (cu_agentId c) := Some c)\<rparr>)"
    using inv t le by (intro inv_cursor) simp_all
qed

lemma ack_step:
  assumes "acknowledgeRead now' cur \<lparr>ak_lastReadSeq = js_int n, ak_lastAckedMessageId = None,
      ak_updatedAt = d'\<rparr> = Inr c"
    and "bridge_inv plain cursor_key v" "v_threads v tid = Some t" "ws = th_workspaceId t"
    and "v_cursors v (cursor_key tid a) = Some cur \<or>
      createParticipantCursor now \<lparr>cc_threadId = tid, cc_agentId = a, cc_createdAt = d\<rparr> = Inr cur"
    and "\<not> last_seq (v_messages v tid) < n"
  shows "bridge_inv plain cursor_key
      (v\<lparr>v_cursors := (v_cursors v)(cursor_key (cu_threadId c) (cu_agentId c) := Some c)\<rparr>) \<and>
    confined ws v
      (v\<lparr>v_cursors := (v_cursors v)(cursor_key (cu_threadId c) (cu_agentId c) := Some c)\<rparr>)"
proof -
  from assms(6) have "n \<le> last_seq (v_messages v tid)" by simp
  note c = ack_cursor [OF assms(2,3,5,1) this]
  from c(1,4) assms(3,4) show ?thesis by auto
qed

lemma keeps_ack:
  assumes "bridge_inv plain cursor_key (view w)" "rq_context r = Some c"
  shows "keeps (ac_workspaceId c) w (h_ack_read D p r)"
  unfolding h_ack_read_def requireContext_def using assms
  by (intro wp_rules) (simp_all, (erule ack_step,
      (assumption | (rule disjI1, assumption) | (rule disjI2, assumption) | simp)+)+)

text \<open>
  Posting. An attempt that fails to create the message leaves no trace; one that creates it
  never runs into another attempt, so a request appends at most one message.
\<close>

abbreviation earlier :: "claims \<Rightarrow> post_payload \<Rightarrow> string \<Rightarrow> message list \<Rightarrow> message option" where
  "earlier c input key ms \<equiv>
     find (\<lambda>x. ms_senderAgentId x = ac_agentId c \<and> ms_idempotencyKey x = Some key) ms"

lemma replay_check_wp [wp_rules]:
  assumes "\<And>w'. view w' = view w \<Longrightarrow> (\<forall>key. pp_idempotency_key input = Some key \<longrightarrow>
      earlier c input key (v_messages (view w) (pp_thread_id input)) = None) \<Longrightarrow> Q None w'"
    and "\<And>key m out w'. view w' = view w \<Longrightarrow> pp_idempotency_key input = Some key \<Longrightarrow>
      earlier c input key (v_messages (view w) (pp_thread_id input)) = Some m \<Longrightarrow>
      isIdempotentReplayMatch input m \<Longrightarrow> toPostMessageOutput D m st = Inr out \<Longrightarrow> Q (Some out) w'"
    and "\<And>e w'. view w' = view w \<Longrightarrow> E e w'"
  shows "wp (replay_check D c input st) Q E w"
  unfolding replay_check_def
  by (intro wp_rules) (simp_all add: assms)

lemma toPost_error: "toPostMessageOutput D m st = Inl e \<Longrightarrow> \<exists>msg. e = ZodExn msg"
  by (auto simp: toPostMessageOutput_def dest: output_error)

lemma attempt_wp:
  assumes "view w = v" "nextSeq = last_seq (v_messages v (pp_thread_id input)) + 1"
  shows "wp (io_bind (d_idGenerator D) (\<lambda>newId.
       io_bind (d_now D) (\<lambda>createdAt.
       io_bind (ts_createMessage (d_threadStore D) (post_input c input newId nextSeq createdAt))
         (\<lambda>created. io_lift (toPostMessageOutput D created st)))))
     (\<lambda>out w'. \<exists>m. posted_by c input (v_messages v (pp_thread_id input)) m \<and>
        view w' = append_message (pp_thread_id input) m v \<and> toPostMessageOutput D m st = Inr out)
     (\<lambda>e w'. view w' = v \<or>
        (\<exists>m. posted_by c input (v_messages v (pp_thread_id input)) m \<and>
           view w' = append_message (pp_thread_id input) m v \<and>
           toPostMessageOutput D m st = Inl e)) w"
  using assms
  by (intro wp_rules) (auto simp: append_message_def dest: posted_byI)

lemma post_attempts_wp:
  assumes "view w = v" "\<forall>key. pp_idempotency_key input = Some key \<longrightarrow>
    earlier c input key (v_messages v (pp_thread_id input)) = None"
  shows "wp (post_attempts D c input st n)
    (\<lambda>out w'. \<exists>m. posted_by c input (v_messages v (pp_thread_id input)) m \<and>
       view w' = append_message (pp_thread_id input) m v \<and> toPostMessageOutput D m st = Inr out)
    (\<lambda>_ w'. view w' = v \<or>
       (\<exists>m. posted_by c input (v_messages v (pp_thread_id input)) m \<and>
          view w' = append_message (pp_thread_id input) m v)) w"
  using assms
proof (induction n arbitrary: w)
  case 0
  then show ?case by (simp add: wp_def)
next
  case (Suc n)
  show ?case
    unfolding post_attempts.simps
  proof (rule wp_bind, rule wp_reads(3), rule wp_bind, rule wp_lift, rule wp_catch, goal_cases)
    case (1 w1 nextSeq)
    with Suc.prems(1) have v: "view w1 = v" and n: "nextSeq = last_seq (v_messages v (pp_thread_id input)) + 1"
      by (auto simp: getNextMessageSequence_Inr_iff)
    note attempt = attempt_wp [OF v n, of c st]
    show ?case
    proof (rule wp_mono [OF attempt], goal_cases)
      case (2 e w2)
      then consider "view w2 = v" |
        (app) m where "posted_by c input (v_messages v (pp_thread_id input)) m"
          "view w2 = append_message (pp_thread_id input) m v"
          "toPostMessageOutput D m st = Inl e" by blast
      then show ?case
      proof cases
        case 1
        with Suc show ?thesis
          by (intro wp_rules) simp_all
      next
        case app
        from toPost_error [OF app(3)] have "be_code (mapUnknownError e) \<noteq> P_CONFLICT" by auto
        with app Suc.prems show ?thesis
          by (intro wp_rules) (auto simp: append_message_def find_snoc split: if_split_asm)
      qed
    qed simp
  qed (use Suc.prems(1) in simp_all)
qed

text \<open>What a request to post does, on every path.\<close>

lemma post_wp:
  assumes "rq_context r = Some c" "view w = v"
  shows "wp (h_post_message D p r)
    (\<lambda>out w'. \<exists>input t. sc_postMessage (d_schemas D) p = Inr input \<and>
       ac_role c \<noteq> Auditor \<and> v_threads v (pp_thread_id input) = Some t \<and>
       th_workspaceId t = ac_workspaceId c \<and> trim (ac_workspaceId c) \<noteq> [] \<and>
       (\<forall>x. pp_sender_agent_id input = Some x \<longrightarrow> x = ac_agentId c) \<and>
       (\<forall>x. pp_sender_session_id input = Some x \<longrightarrow> x = ac_sessionId c) \<and>
       (\<forall>parent. pp_in_reply_to input = Some parent \<longrightarrow>
          find (\<lambda>x. ms_messageId x = parent) (v_messages v (pp_thread_id input)) \<noteq> None) \<and>
       ((\<exists>key m. pp_idempotency_key input = Some key \<and>
            earlier c input key (v_messages v (pp_thread_id input)) = Some m \<and> view w' = v \<and>
            isIdempotentReplayMatch input m \<and> toPostMessageOutput D m (th_status t) = Inr out) \<or>
        (\<forall>key. pp_idempotency_key input = Some key \<longrightarrow>
            earlier c input key (v_messages v (pp_thread_id input)) = None) \<and>
        (\<exists>m. posted_by c input (v_messages v (pp_thread_id input)) m \<and>
            view w' = append_message (pp_thread_id input) m v \<and>
            toPostMessageOutput D m (th_status t) = Inr out)))
    (\<lambda>_ w'. view w' = v \<or>
       (\<exists>input t m. sc_postMessage (d_schemas D) p = Inr input \<and>
          v_threads v (pp_thread_id input) = Some t \<and> th_workspaceId t = ac_workspaceId c \<and>
          posted_by c input (v_messages v (pp_thread_id input)) m \<and>
          view w' = append_message (pp_thread_id input) m v)) w"
  unfolding h_post_message_def requireContext_def using assms
  apply (intro wp_rules post_attempts_wp [THEN wp_mono])
  apply auto
  done

lemma append_good:
  assumes "bridge_inv plain cursor_key v" "v_threads v (pp_thread_id input) = Some t"
    "th_workspaceId t = ws" "posted_by c input (v_messages v (pp_thread_id input)) m"
  shows "bridge_inv plain cursor_key (append_message (pp_thread_id input) m v)"
    "confined ws v (append_message (pp_thread_id input) m v)"
proof -
  have "trim (pp_thread_id input) = pp_thread_id input"
    using inv_thread_id [OF assms(1,2)] by simp
  with assms posted_facts [OF assms(4)]
  show "bridge_inv plain cursor_key (append_message (pp_thread_id input) m v)"
    "confined ws v (append_message (pp_thread_id input) m v)"
    by (auto simp: append_message_def)
qed

lemma keeps_post:
  assumes "bridge_inv plain cursor_key (view w)" "rq_context r = Some c"
  shows "keeps (ac_workspaceId c) w (h_post_message D p r)"
  using post_wp [OF assms(2) refl, of p w]
  by (rule wp_mono) (use assms(1) in \<open>auto dest: append_good split: if_split_asm\<close>)

section \<open>Requests\<close>

lemma keeps_handler:
  assumes "bridge_inv plain cursor_key (view w)" "rq_context r = Some c"
    "trim (ac_workspaceId c) = ac_workspaceId c" "fresh_ids D view plain"
    and "map_of (methodHandlers D) method = Some h"
  shows "keeps (ac_workspaceId c) w (h p r)"
  using handler_cases [OF assms(5)] keeps_create [OF assms(1-4)] keeps_get [OF assms(1,2)]
    keeps_update [OF assms(1,2)] keeps_summarize [OF assms(1,2)] keeps_heartbeat [OF assms(1,2,3)]
    keeps_trigger [OF assms(1,2)] keeps_post [OF assms(1,2)] keeps_read [OF assms(1,2)]
    keeps_ack [OF assms(1,2)]
  unfolding insert_iff by blast

lemma keeps_dispatch:
  assumes "bridge_inv plain cursor_key (view w)" "rq_context r = Some c"
    "trim (ac_workspaceId c) = ac_workspaceId c" "fresh_ids D view plain"
  shows "keeps (ac_workspaceId c) w (dispatch D method r)"
proof (cases "map_of (methodHandlers D) method")
  case None
  then show ?thesis
    unfolding dispatch_def None option.case by (intro wp_rules) (simp_all add: assms)
next
  case (Some h)
  with keeps_handler [OF assms this] show ?thesis
    by (simp add: dispatch_def)
qed

lemma no_context_dispatch:
  assumes "rq_context r = None" "dispatch D method r w = (res, w')"
  shows "w' = w"
  using assms no_context [OF assms(1), of D "method" _ "rq_body r" w res w']
  by (auto simp: dispatch_def io_bind_iff split: option.split_asm)

lemma onRequest_wp [wp_rules]:
  assumes "\<And>token c w1 w'. parseBearerToken (rq_authorization r) = Inr token \<Longrightarrow> view w1 = view w \<Longrightarrow>
      d_verifyAccessToken D token w1 = (Inr c, w') \<Longrightarrow> view w' = view w \<Longrightarrow>
      Q (r\<lparr>rq_context := Some c\<rparr>) w'"
    and "\<And>w'. \<not> starts_with (rq_url r) ''/v1/'' \<Longrightarrow> view w' = view w \<Longrightarrow> Q r w'"
    and "\<And>e w'. view w' = view w \<Longrightarrow> E e w'"
  shows "wp (onRequest D r) Q E w"
  unfolding onRequest_def using assms
  by (intro wp_rules) simp_all

lemma errorHandler_wp [wp_rules]:
  assumes "\<And>ans w'. view w' = view w \<Longrightarrow> Q ans w'"
    and "\<And>ans w' t. be_statusCode (mapUnknownError e) \<in> {401, 403} \<Longrightarrow>
      view w' = (view w)\<lparr>v_audit := v_audit (view w) @
        [rejection_event r method (mapUnknownError e) t]\<rparr> \<Longrightarrow> Q ans w'"
    and "\<And>e' w'. view w' = view w \<Longrightarrow> E e' w'"
    and "\<And>e' w' t. be_statusCode (mapUnknownError e) \<in> {401, 403} \<Longrightarrow>
      view w' = (view w)\<lparr>v_audit := v_audit (view w) @
        [rejection_event r method (mapUnknownError e) t]\<rparr> \<Longrightarrow> E e' w'"
  shows "wp (errorHandler D method r e) Q E w"
  unfolding errorHandler_def Let_def using assms
  by (intro wp_rules) simp_all

lemma dispatch_authenticated:
  assumes "bridge_inv plain cursor_key (view w)" "trim (ac_workspaceId c) = ac_workspaceId c"
    "fresh_ids D view plain" "rq_context r = Some c"
  shows "wp (dispatch D method r) (\<lambda>out w'. good (ac_workspaceId c) w w')
    (\<lambda>e. wp (errorHandler D method r e) (\<lambda>_ w'. good (ac_workspaceId c) w w')
       (\<lambda>_ w'. good (ac_workspaceId c) w w')) w"
  using keeps_dispatch [OF assms(1,4,2,3), of "method"]
proof (rule wp_mono)
  fix e w1
  assume "good (ac_workspaceId c) w w1"
  then show "wp (errorHandler D method r e) (\<lambda>_ w'. good (ac_workspaceId c) w w')
       (\<lambda>_ w'. good (ac_workspaceId c) w w') w1"
    by (intro wp_rules) (auto simp: rejection_event_def assms(4) Let_def)
qed simp

definition request_effect :: "request \<Rightarrow> 'w \<Rightarrow> 'w \<Rightarrow> bool" where
  "request_effect r w w' \<longleftrightarrow> bridge_inv plain cursor_key (view w') \<and>
     (data_of (view w') = data_of (view w) \<or>
      (\<exists>token c w1 w2. parseBearerToken (rq_authorization r) = Inr token \<and>
         d_verifyAccessToken D token w1 = (Inr c, w2) \<and>
         confined (ac_workspaceId c) (view w) (view w')))"

lemma handle_request_effect:
  assumes inv: "bridge_inv plain cursor_key (view w)" and "fresh_ids D view plain" "normal_tokens D"
  shows "wp (handle_request D method r) (\<lambda>_. request_effect r w) (\<lambda>_. request_effect r w) w"
proof (rule handle_request_wp, rule onRequest_wp, goal_cases)
  case (1 token c w1 w2)
  let ?r = "r\<lparr>rq_context := None, rq_context := Some c\<rparr>"
  have "trim (ac_workspaceId c) = ac_workspaceId c"
    using 1(3) assms(3) by (auto simp: normal_tokens_def)
  with 1 inv dispatch_authenticated [of w2 c ?r "method"] assms(2)
  show ?case
    unfolding request_effect_def
    by (auto elim!: wp_mono)
next
  case (2 w1)
  have same: "w3 = w2" if "dispatch D method (r\<lparr>rq_context := None\<rparr>) w2 = (res, w3)" for w2 res w3
    by (rule no_context_dispatch [OF _ that]) simp
  show ?case
    using 2 inv by (rule_tac wpI) (auto simp: request_effect_def dest!: same intro!: wp_rules)
next
  case (3 e w1)
  with inv show ?case
    by (intro wp_rules) (auto simp: request_effect_def)
qed

lemma serve_inv:
  assumes "bridge_inv plain cursor_key (view w)" "fresh_ids D view plain" "normal_tokens D"
    "serve D rs w = (out, w')"
  shows "bridge_inv plain cursor_key (view w')"
  using assms
proof (induction rs arbitrary: w out w')
  case (Cons mr rs)
  obtain m r where mr: "mr = (m, r)" by (cases mr)
  obtain res w1 where h: "handle_request D m r w = (res, w1)"
    by (cases "handle_request D m r w")
  have "bridge_inv plain cursor_key (view w1)"
    using handle_request_effect [OF Cons.prems(1-3), of m r] h
    by (auto simp: wp_def request_effect_def split: sum.split_asm)
  with Cons h mr show ?case by (auto split: prod.split_asm)
qed simp

section \<open>What the handlers compute\<close>

text \<open>Changing the status of a thread: who may, when, and what is left behind.\<close>

lemma update_wp:
  assumes "rq_context r = Some c" "view w = v"
  shows "wp (h_update_thread_status D p r)
    (\<lambda>out w'. \<exists>input t0 t d. sc_updateThreadStatus (d_schemas D) p = Inr input \<and>
       ac_role c = Coordinator \<and> v_threads v (pu_thread_id input) = Some t0 \<and>
       th_workspaceId t0 = ac_workspaceId c \<and>
       (th_status t0 = Blocked \<and> pu_status input = Closed \<longrightarrow>
          hasExplicitOverrideReason (pu_reason input)) \<and>
       transitionThreadStatus t0 (pu_status input) d = Inr t \<and>
       data_of (view w') = data_of (v\<lparr>v_threads := (v_threads v)(pu_thread_id input := Some t)\<rparr>))
    (\<lambda>e w'. True) w"
  unfolding h_update_thread_status_def requireContext_def using assms
  by (intro wp_rules) (auto simp: data_of_def)

text \<open>A page of a thread, in a store whose messages are numbered.\<close>

lemma trim_page:
  assumes "\<forall>m\<in>set ms. wf_message m"
  shows "trim_output (ReadMessagesOutput (map toReadMessage ms) n hasMore) =
    ReadMessagesOutput (map toReadMessage ms) n hasMore"
  using assms by (auto simp: toReadMessage_def wf_message_def normal_string_def)

lemma read_wp:
  assumes "rq_context r = Some c" "bridge_inv plain cursor_key (view w)"
    "sc_readMessages (d_schemas D) p = Inr input" "pr_since_seq input = int n"
    "pr_limit input = int k"
    "v_messages (view w) (pr_thread_id input) = ms"
  shows "wp (h_read_messages D p r)
    (\<lambda>out w'. (\<exists>t. v_threads (view w) (pr_thread_id input) = Some t \<and>
         th_workspaceId t = ac_workspaceId c) \<and> view w' = view w \<and>
       out = ReadMessagesOutput (map toReadMessage (take k (drop n ms)))
         (int (n + length (take k (drop n ms)))) (n + k < length ms))
    (\<lambda>e w'. view w' = view w) w"
proof -
  from assms(2,6) have ms: "numbered ms" "\<forall>m\<in>set ms. wf_message m"
    by (auto simp: bridge_inv_def inv_messages_def)
  have page: "trim_output (ReadMessagesOutput (map toReadMessage (take k (drop n ms))) x more) =
      ReadMessagesOutput (map toReadMessage (take k (drop n ms))) x more" for x more
    using ms by (intro trim_page) (auto dest: in_set_takeD in_set_dropD)
  have "(case js_last (take k (drop n ms)) of None \<Rightarrow> pr_since_seq input | Some m \<Rightarrow> ms_seq m) =
      int (n + length (take k (drop n ms)))"
    unfolding assms(4) by (rule numbered_page_end [OF ms(1)])
  with page show ?thesis
    unfolding h_read_messages_def requireContext_def using assms(1,3-6)
    by (intro wp_rules)
      (auto simp: Let_def numbered_filter [OF ms(1)] simp del: trim_output.simps dest!: output_same)
qed

lemma ack_fields:
  assumes "acknowledgeRead now' cur \<lparr>ak_lastReadSeq = js_int n, ak_lastAckedMessageId = None,
      ak_updatedAt = d'\<rparr> = Inr c"
    and "bridge_inv plain cursor_key v" "v_threads v tid = Some t"
    and "v_cursors v (cursor_key tid a) = Some cur \<or> v_cursors v (cursor_key tid a) = None \<and>
      createParticipantCursor now \<lparr>cc_threadId = tid, cc_agentId = a, cc_createdAt = d\<rparr> = Inr cur"
    and "\<not> last_seq (v_messages v tid) < n" "trim a = a"
  shows "cu_threadId c = tid \<and> cu_lastReadSeq c = n \<and>
    (\<forall>old. v_cursors v (cursor_key tid a) = Some old \<longrightarrow> cu_lastReadSeq old \<le> n) \<and> cu_agentId c = a"
proof -
  from assms(5) have "n \<le> last_seq (v_messages v tid)" by simp
  moreover from assms(4) have "v_cursors v (cursor_key tid a) = Some cur \<or>
      createParticipantCursor now \<lparr>cc_threadId = tid, cc_agentId = a, cc_createdAt = d\<rparr> = Inr cur"
    by blast
  ultimately have c: "cu_threadId c = tid" "cu_lastReadSeq c = n" "cu_lastReadSeq cur \<le> n"
    using ack_cursor(1-3) [OF assms(2,3) _ assms(1)] by blast+
  have "cu_agentId cur = a"
  proof (cases "v_cursors v (cursor_key tid a)")
    case None
    with assms(4,6) show ?thesis by (auto simp: createParticipantCursor_def)
  next
    case (Some x)
    with assms(4) have x: "v_cursors v (cursor_key tid a) = Some cur" by simp
    with assms(2) have "cursor_key tid a = cursor_key (cu_threadId cur) (cu_agentId cur)"
      unfolding bridge_inv_def inv_cursors_def by blast
    moreover have "cu_threadId cur = tid" using c(1) acknowledgeRead_Inr(3) [OF assms(1)] by simp
    ultimately show ?thesis using key_inj inv_thread_id [OF assms(2,3)] by metis
  qed
  with assms(4) c acknowledgeRead_Inr(4) [OF assms(1)] show ?thesis by auto
qed

lemma ack_wp:
  assumes "rq_context r = Some c" "bridge_inv plain cursor_key (view w)" "trim (ac_agentId c) = ac_agentId c"
  shows "wp (h_ack_read D p r)
    (\<lambda>out w'. \<exists>input cu. sc_ackRead (d_schemas D) p = Inr input \<and>
       v_cursors (view w') (cursor_key (pa_thread_id input) (ac_agentId c)) = Some cu \<and>
       cu_lastReadSeq cu = pa_last_read_seq input \<and>
       pa_last_read_seq input \<le> last_seq (v_messages (view w) (pa_thread_id input)) \<and>
       (\<forall>old. v_cursors (view w) (cursor_key (pa_thread_id input) (ac_agentId c)) = Some old \<longrightarrow>
          cu_lastReadSeq old \<le> pa_last_read_seq input))
    (\<lambda>e w'. True) w"
  unfolding h_ack_read_def requireContext_def using assms
  by (intro wp_rules) (simp_all, (drule ack_fields,
      (assumption | (rule disjI1, assumption) | (rule disjI2, rule conjI, assumption, assumption)
        | simp)+)+)

lemma trigger_wp:
  assumes "rq_context r = Some c" "view w = v"
  shows "wp (h_trigger_participant D p r)
    (\<lambda>out w'. \<exists>input t now d. sc_triggerParticipant (d_schemas D) p = Inr input \<and>
       ac_role c = Coordinator \<and> v_threads v (pt_thread_id input) = Some t \<and>
       th_workspaceId t = ac_workspaceId c \<and>
       trim (pt_target_agent_id input) \<in> set (th_participants t) \<and>
       resolveTriggerDecision (v_sessions v (session_key (pt_target_agent_id input) (ac_workspaceId c)))
         (d_sessionStaleAfterHours D) now = Inr d \<and>
       (case v_jobs v (''trg_'' @ rq_id r) of
          None \<Rightarrow> (\<forall>k. k \<noteq> ''trg_'' @ rq_id r \<longrightarrow> v_jobs (view w') k = v_jobs v k) \<and>
            (\<exists>j. v_jobs (view w') (''trg_'' @ rq_id r) = Some j \<and>
            tj_triggerId j = ''trg_'' @ rq_id r \<and> tj_status j = td_jobStatus d \<and>
            tj_attempts j = 0 \<and> tj_threadId j = pt_thread_id input \<and>
            tj_targetAgentId j = pt_target_agent_id input \<and> tj_prompt j = pt_trigger_prompt input)
        | Some old \<Rightarrow> data_of (view w') = data_of v \<and> tj_threadId old = pt_thread_id input \<and>
            tj_targetAgentId old = pt_target_agent_id input \<and> tj_prompt old = pt_trigger_prompt input))
    (\<lambda>e w'. True) w"
  unfolding h_trigger_participant_def requireContext_def using assms
  apply (intro wp_rules)
  apply (auto simp: data_of_def hasTriggerReplayMatch_def dest!: isThreadParticipant_True)
  done

lemma heartbeat_wp:
  assumes "rq_context r = Some c" "view w = v"
  shows "wp (h_heartbeat_session D p r)
    (\<lambda>out w'. \<exists>s. v_sessions (view w') (session_key (ac_agentId c) (ac_workspaceId c)) = Some s \<and>
       (\<forall>k. k \<noteq> session_key (ac_agentId c) (ac_workspaceId c) \<longrightarrow>
          v_sessions (view w') k = v_sessions v k) \<and>
       (\<forall>old. v_sessions v (session_key (ac_agentId c) (ac_workspaceId c)) = Some old \<longrightarrow>
          se_lastHeartbeatAt old \<le> se_lastHeartbeatAt s) \<and>
       out = HeartbeatOutput (se_lastHeartbeatAt s))
    (\<lambda>e w'. True) w"
  unfolding h_heartbeat_session_def requireContext_def using assms
  by (intro wp_rules) (auto dest: output_same applyHeartbeat_frame(3))

end

end
