(* ===== verification/BridgeInMemory.thy ===== *)
theory BridgeInMemory
  imports BridgeSafety
begin

text \<open>
  The bridge on its in-memory stores, as \<open>createBridgeApiApp\<close> is assembled by the tests and the
  local server: the stores of \<open>BridgeMemory\<close>, and a clock, an id generator and a verifier that
  work on their own part of the world. \<open>z.parse\<close> either returns the output with its strings
  trimmed or throws a \<open>ZodError\<close>. The id generator may look at the ids in use, so that
  "it never returns an id in use" can be said of it.
\<close>

record 'e bridge_env =
  me_now :: "('e, exn, int) io"
  me_newId :: "string list \<Rightarrow> ('e, exn, string) io"
  me_verify :: "string \<Rightarrow> ('e, exn, claims) io"
  me_storeNow :: int
  me_staleAfterHours :: js_number
  me_maxRetries :: int
  me_schemas :: input_schemas
  me_accepts :: "mcp_output \<Rightarrow> bool"
  me_errorSchema :: "error_payload \<Rightarrow> exn + error_payload"

definition used_ids :: "'e bridge_world \<Rightarrow> string list" where
  "used_ids w = map fst (mt_threadRecords (bw_threads w))"

definition mem_deps :: "'e bridge_env \<Rightarrow> 'e bridge_world bridge_deps" where
  "mem_deps P =
     \<lparr>d_threadStore = memThreadStore, d_sessionStore = memSessionStore (me_storeNow P),
      d_triggerStore = memTriggerStore, d_auditStore = Some (memAuditStore (me_storeNow P)),
      d_verifyAccessToken = (\<lambda>token. on_env (me_verify P token)),
      d_sessionStaleAfterHours = me_staleAfterHours P, d_triggerMaxRetries = me_maxRetries P,
      d_now = on_env (me_now P),
      d_idGenerator = (\<lambda>w. on_env (me_newId P (used_ids w)) w),
      d_schemas = me_schemas P,
      d_outputSchema = (\<lambda>out. if me_accepts P out then Inr (trim_output out)
                              else Inl (ZodExn ''invalid output'')),
      d_errorSchema = me_errorSchema P\<rparr>"

lemma mem_deps_sel [simp]:
  "d_threadStore (mem_deps P) = memThreadStore"
  "d_sessionStore (mem_deps P) = memSessionStore (me_storeNow P)"
  "d_triggerStore (mem_deps P) = memTriggerStore"
  "d_auditStore (mem_deps P) = Some (memAuditStore (me_storeNow P))"
  "d_verifyAccessToken (mem_deps P) token = on_env (me_verify P token)"
  "d_now (mem_deps P) = on_env (me_now P)"
  "d_idGenerator (mem_deps P) w = on_env (me_newId P (used_ids w)) w"
  "d_schemas (mem_deps P) = me_schemas P"
  "d_sessionStaleAfterHours (mem_deps P) = me_staleAfterHours P"
  "d_triggerMaxRetries (mem_deps P) = me_maxRetries P"
  "d_errorSchema (mem_deps P) = me_errorSchema P"
  "d_outputSchema (mem_deps P) out =
     (if me_accepts P out then Inr (trim_output out) else Inl (ZodExn ''invalid output''))"
  by (simp_all add: mem_deps_def)

lemma mem_view_env [simp]: "mem_view (w\<lparr>bw_env := e\<rparr>) = mem_view w"
  by (simp add: mem_view_def)

lemma on_env_view: "on_env m w = (r, w') \<Longrightarrow> mem_view w' = mem_view w"
  by (auto simp: io_zoom_iff)

lemma cursorKey_inj:
  "plain_id t1 \<Longrightarrow> plain_id t2 \<Longrightarrow> cursorKey t1 a1 = cursorKey t2 a2 \<Longrightarrow> t1 = t2 \<and> a1 = a2"
  by (rule joined_key_inj) (simp_all add: cursorKey_def)

interpretation mem_bridge: bridge "mem_deps P" mem_view cursorKey sessionKey plain_id
proof (rule bridge.intro)
  show "bridge_axioms (mem_deps P) mem_view cursorKey plain_id"
    by (rule bridge_axioms.intro)
      (auto simp: mem_as.audit_store_contract_axioms on_env_view dest: cursorKey_inj split: if_split_asm)
qed (simp_all add: mem_ts.thread_store_contract_axioms mem_ss.session_store_contract_axioms
      mem_js.trigger_store_contract_axioms)

section \<open>A concrete bridge\<close>

text \<open>
  One workspace, one token, a clock that stands still, and an id generator that returns a word
  longer than every id in use. The parsers return a fixed payload, whatever the body.
\<close>

definition demo_claims :: "auth_role \<Rightarrow> claims" where
  "demo_claims role =
     \<lparr>ac_agentId = ''a1'', ac_workspaceId = ''w1'', ac_role = role, ac_sessionId = ''s1'',
      ac_issuedAt = 1, ac_expiresAt = 2, ac_jwtId = ''j'', ac_raw = []\<rparr>"

definition demo_post :: post_payload where
  "demo_post = \<lparr>pp_thread_id = ''th_x'', pp_schema_version = 1, pp_sender_agent_id = None,
     pp_sender_session_id = None, pp_kind = Chat, pp_body = ''hello'', pp_metadata = None,
     pp_in_reply_to = None, pp_idempotency_key = Some ''k''\<rparr>"

definition demo_schemas :: "thread_status \<Rightarrow> string \<Rightarrow> int \<Rightarrow> input_schemas" where
  "demo_schemas status reason n =
     \<lparr>sc_createThread = (\<lambda>_. Inr \<lparr>pc_workspace_id = ''w1'', pc_title = ''t'',
        pc_type = Conversation, pc_participants = [''a1'', ''a2''], pc_created_by = None\<rparr>),
      sc_getThread = (\<lambda>_. Inr ''th_x''),
      sc_updateThreadStatus = (\<lambda>_. Inr \<lparr>pu_thread_id = ''th_x'', pu_agent_id = None,
        pu_status = status, pu_reason = reason, pu_metadata = None\<rparr>),
      sc_summarizeThread = (\<lambda>_. Inr \<lparr>pz_thread_id = ''th_x'', pz_max_messages = 200\<rparr>),
      sc_heartbeatSession = (\<lambda>_. Inr \<lparr>ph_agent_id = None, ph_workspace_id = None,
        ph_session_id = ''s1'', ph_runtime = ''r'', ph_management_mode = Managed,
        ph_resumable = True, ph_status = SActive\<rparr>),
      sc_triggerParticipant = (\<lambda>_. Inr \<lparr>pt_thread_id = ''th_x'', pt_target_agent_id = ''a2'',
        pt_reason = ''r'', pt_trigger_prompt = ''p''\<rparr>),
      sc_postMessage = (\<lambda>_. Inr demo_post),
      sc_readMessages = (\<lambda>_. Inr \<lparr>pr_thread_id = ''th_x'', pr_agent_id = None,
        pr_since_seq = 0, pr_limit = 50\<rparr>),
      sc_ackRead = (\<lambda>_. Inr \<lparr>pa_thread_id = ''th_x'', pa_agent_id = None,
        pa_last_read_seq = n\<rparr>)\<rparr>"

definition demo_env :: "thread_status \<Rightarrow> string \<Rightarrow> int \<Rightarrow> auth_role \<Rightarrow> unit bridge_env" where
  "demo_env status reason n role =
     \<lparr>me_now = io_return 1000,
      me_newId = (\<lambda>used. io_return (replicate (Suc (sum_list (map length used))) CHR ''x'')),
      me_verify = (\<lambda>token. if token = ''tok'' then io_return (demo_claims role)
                   else io_throw (AuthExn (AuthError A_UNAUTHORIZED ''no''))),
      me_storeNow = 1000, me_staleAfterHours = js_int 12, me_maxRetries = 2,
      me_schemas = demo_schemas status reason n, me_accepts = (\<lambda>_. True), me_errorSchema = Inr\<rparr>"

definition demo_request :: "claims option \<Rightarrow> request" where
  "demo_request c = \<lparr>rq_id = ''q1'', rq_method = ''POST'', rq_url = ''/v1/mcp/x'',
     rq_authorization = Some ''Bearer tok'', rq_context = c, rq_body = JNull\<rparr>"

abbreviation demo_deps :: "unit bridge_world bridge_deps" where
  "demo_deps \<equiv> mem_deps (demo_env Resolved ''done'' 1 Coordinator)"

definition demo_world :: "unit bridge_world" where
  "demo_world = snd (serve demo_deps
     [(''create_thread'', demo_request None), (''post_message'', demo_request None)] (empty_world ()))"

lemma trim_replicate_x: "trim (''th_'' @ replicate n CHR ''x'') = ''th_'' @ replicate n CHR ''x''"
  by (rule trim_same) (simp add: is_space_def)

lemma length_le_sum: "k \<in> set ks \<Longrightarrow> length k \<le> sum_list (map length ks)"
  by (induction ks) auto

lemma demo_fresh: "fresh_ids (mem_deps (demo_env st rs n role)) mem_view plain_id"
proof -
  have "v_threads (mem_view w) (''th_'' @ replicate (Suc (sum_list (map length (used_ids w)))) CHR ''x'') = None"
    for w :: "unit bridge_world"
  proof (rule ccontr)
    let ?k = "''th_'' @ replicate (Suc (sum_list (map length (used_ids w)))) CHR ''x''"
    assume "v_threads (mem_view w) ?k \<noteq> None"
    then have "?k \<in> set (used_ids w)"
      by (auto simp: mem_view_def used_ids_def dest: map_of_SomeD intro: image_eqI [rotated])
    then have "length ?k \<le> sum_list (map length (used_ids w))"
      by (rule length_le_sum)
    then show False by simp
  qed
  moreover have "plain_id (''th_'' @ replicate m CHR ''x'')" for m
    by (simp add: plain_id_def)
  ultimately show ?thesis
    unfolding fresh_ids_def demo_env_def
    by (auto simp: io_zoom_iff trim_replicate_x simp del: replicate.simps append.simps)
qed

lemma demo_tokens: "normal_tokens (mem_deps (demo_env st rs n role))"
  by (auto simp: normal_tokens_def demo_env_def io_zoom_iff demo_claims_def trim_def trim_start_def
      is_space_def split: if_split_asm)

lemma empty_inv: "bridge_inv plain_id cursorKey (mem_view (empty_world e))"
  by (simp add: bridge_inv_defs mem_view_def empty_world_def mem_messages_def)

lemma demo_inv: "bridge_inv plain_id cursorKey (mem_view demo_world)"
  unfolding demo_world_def
  by (rule mem_bridge.serve_inv [OF empty_inv demo_fresh demo_tokens]) (rule surjective_pairing)

text \<open>The same bridge before the message is posted.\<close>

definition demo_thread_world :: "unit bridge_world" where
  "demo_thread_world = snd (serve demo_deps [(''create_thread'', demo_request None)] (empty_world ()))"

lemma demo_thread_inv: "bridge_inv plain_id cursorKey (mem_view demo_thread_world)"
  unfolding demo_thread_world_def
  by (rule mem_bridge.serve_inv [OF empty_inv demo_fresh demo_tokens]) (rule surjective_pairing)

abbreviation demo_auth :: "auth_role \<Rightarrow> request" where
  "demo_auth role \<equiv> demo_request (Some (demo_claims role))"

lemma demo_context [simp]: "rq_context (demo_request c) = c"
  by (simp add: demo_request_def)

end
