(* ===== verification/BridgeProperties.thy ===== *)
theory BridgeProperties
  imports BridgeInMemory
begin

text \<open>The properties of the bridge, over its in-memory stores and, where no store matters, over any.\<close>

section \<open>Access control\<close>

text \<open>C17: whoever gets an answer from one of the nine methods is authenticated, and in a role
  that may use the method: only a coordinator creates a thread, changes its status or triggers a
  participant, and an auditor never posts.\<close>

theorem methods_respect_roles:
  assumes "map_of (methodHandlers D) method = Some h" "h p r w = (Inr out, w')"
  shows "\<exists>c. rq_context r = Some c \<and>
    (method \<in> {''create_thread'', ''update_thread_status'', ''trigger_participant''} \<longrightarrow>
       ac_role c = Coordinator) \<and>
    (method = ''post_message'' \<longrightarrow> ac_role c \<noteq> Auditor)"
proof -
  have "(method, h) \<in> set (methodHandlers D)"
    using assms(1) by (rule map_of_SomeD)
  with assms(2) show ?thesis
    by (auto simp: methodHandlers_def h_create_thread_def h_get_thread_def
      h_update_thread_status_def h_summarize_thread_def h_heartbeat_session_def
      h_trigger_participant_def h_post_message_def h_read_messages_def h_ack_read_def
      requireContext_def split: if_split_asm option.split_asm)
qed

lemma demo_get:
  "map_of (methodHandlers demo_deps) ''get_thread'' = Some (h_get_thread demo_deps)"
  "isl (fst (h_get_thread demo_deps JNull (demo_request (Some (demo_claims Auditor))) demo_world)) = False"
  by (simp add: methodHandlers_def) code_simp

theorem methods_respect_roles_witness:
  "\<exists>c. rq_context (demo_request (Some (demo_claims Auditor))) = Some c \<and>
    (''get_thread'' \<in> {''create_thread'', ''update_thread_status'', ''trigger_participant''} \<longrightarrow>
       ac_role c = Coordinator) \<and> (''get_thread'' = ''post_message'' \<longrightarrow> ac_role c \<noteq> Auditor)"
  by (rule methods_respect_roles [OF demo_get(1) run_ok [OF demo_get(2)]])



text \<open>A method that is called without an authenticated context fails and leaves the whole
  world as it was, whatever the stores are and however the request got past the hook.\<close>

theorem no_context_no_effect:
  assumes "rq_context r = None" "map_of (methodHandlers D) method = Some h" "h p r w = (res, w')"
  shows "(\<exists>e. res = Inl e) \<and> w' = w"
  by (rule no_context [OF assms])

theorem no_context_no_effect_witness:
  "(\<exists>e. fst (h_get_thread demo_deps JNull (demo_request None) demo_world) = Inl e) \<and>
   snd (h_get_thread demo_deps JNull (demo_request None) demo_world) = demo_world"
  by (rule no_context_no_effect [OF _ demo_get(1) surjective_pairing]) (simp add: demo_request_def)

section \<open>The invariant\<close>

text \<open>C1: whatever requests arrive, in whatever order and with whatever results, the stores hold
  well-formed threads under their ids, messages numbered 1, 2, ... in their thread, cursors that
  never point past the last message, and trigger jobs for participants of a thread.\<close>

theorem requests_keep_invariant:
  assumes "fresh_ids (mem_deps P) mem_view plain_id" "normal_tokens (mem_deps P)"
    "serve (mem_deps P) requests (empty_world e) = (results, w)"
  shows "bridge_inv plain_id cursorKey (mem_view w)"
  by (rule mem_bridge.serve_inv [OF empty_inv assms])

theorem requests_keep_invariant_witness:
  "bridge_inv plain_id cursorKey (mem_view (snd (serve demo_deps
     [(''create_thread'', demo_request None), (''ack_read'', demo_request None)] (empty_world ()))))"
  by (rule requests_keep_invariant [OF demo_fresh demo_tokens surjective_pairing])

section \<open>Messages\<close>

text \<open>C8: a message that is posted under a new idempotency key, or without one, is appended to its
  thread with the next sequence number and the sender and session of the token, nothing else
  changes, and the answer describes it. The thread is in the workspace of the token, and a
  message it replies to is in the same thread.\<close>

theorem post_message_appends:
  assumes "bridge_inv plain_id cursorKey (mem_view w)" "rq_context r = Some c"
    "h_post_message (mem_deps P) p r w = (Inr out, w')"
    "sc_postMessage (me_schemas P) p = Inr input"
    "\<And>key. pp_idempotency_key input = Some key \<Longrightarrow>
       find (\<lambda>x. ms_senderAgentId x = ac_agentId c \<and> ms_idempotencyKey x = Some key)
         (v_messages (mem_view w) (pp_thread_id input)) = None"
  shows "\<exists>t m. v_threads (mem_view w) (pp_thread_id input) = Some t \<and>
    th_workspaceId t = ac_workspaceId c \<and>
    mem_view w' = append_message (pp_thread_id input) m (mem_view w) \<and>
    ms_threadId m = pp_thread_id input \<and>
    ms_seq m = int (length (v_messages (mem_view w) (pp_thread_id input))) + 1 \<and>
    ms_senderAgentId m = trim (ac_agentId c) \<and> ms_senderSessionId m = trim (ac_sessionId c) \<and>
    ms_body m = trim (pp_body input) \<and>
    (\<forall>parent. pp_in_reply_to input = Some parent \<longrightarrow>
       (\<exists>x\<in>set (v_messages (mem_view w) (pp_thread_id input)). ms_messageId x = parent)) \<and>
    out = PostMessageOutput (ms_messageId m) (ms_seq m) (th_status t) (ms_createdAt m)"
proof -
  let ?ms = "v_messages (mem_view w) (pp_thread_id input)"
  note spec = mem_bridge.post_wp [OF assms(2) refl, of P p w]
  from wp_Inr [OF spec assms(3)] assms(4,5) obtain t m where
    t: "v_threads (mem_view w) (pp_thread_id input) = Some t" "th_workspaceId t = ac_workspaceId c"
    and parent: "\<forall>parent. pp_in_reply_to input = Some parent \<longrightarrow> find (\<lambda>x. ms_messageId x = parent) ?ms \<noteq> None"
    and m: "posted_by c input ?ms m" "mem_view w' = append_message (pp_thread_id input) m (mem_view w)"
      "toPostMessageOutput (mem_deps P) m (th_status t) = Inr out"
    by (auto split: if_split_asm)
  note f = posted_facts [OF m(1)]
  have "numbered ?ms" using assms(1) by (simp add: bridge_inv_def inv_messages_def)
  then have "ms_seq m = int (length ?ms) + 1" using f(3) by (simp add: numbered_last_seq)
  moreover have "out = PostMessageOutput (ms_messageId m) (ms_seq m) (th_status t) (ms_createdAt m)"
    using m(3) f(1) by (auto simp: toPostMessageOutput_def wf_message_def normal_string_def split: if_split_asm)
  moreover have "trim (pp_thread_id input) = pp_thread_id input"
    using inv_thread_id [OF assms(1) t(1)] by simp
  moreover have "\<exists>x\<in>set ?ms. ms_messageId x = q" if "find (\<lambda>x. ms_messageId x = q) ?ms \<noteq> None" for q
    using that by (auto simp: find_None_iff)
  ultimately show ?thesis
    using t m(2) f parent by (intro exI [of _ t] exI [of _ m]) auto
qed

lemma demo_post_runs:
  "isl (fst (h_post_message demo_deps JNull (demo_auth Participant) demo_thread_world)) = False"
  "isl (fst (h_post_message demo_deps JNull (demo_auth Coordinator) demo_world)) = False"
  by code_simp+

theorem post_message_appends_witness:
  "\<exists>t m. v_threads (mem_view demo_thread_world) ''th_x'' = Some t \<and>
    mem_view (snd (h_post_message demo_deps JNull (demo_auth Participant) demo_thread_world)) =
      append_message ''th_x'' m (mem_view demo_thread_world) \<and> ms_seq m = 1 \<and> ms_body m = ''hello''"
proof -
  have log: "v_messages (mem_view demo_thread_world) ''th_x'' = []"
    by code_simp
  have sc: "sc_postMessage (me_schemas (demo_env Resolved ''done'' 1 Coordinator)) JNull = Inr demo_post"
    by (simp add: demo_env_def demo_schemas_def)
  have tid: "pp_thread_id demo_post = ''th_x''" "trim (pp_body demo_post) = ''hello''"
    by code_simp+
  show ?thesis
    using post_message_appends [OF demo_thread_inv demo_context
        run_ok [OF demo_post_runs(1)] sc, unfolded tid log]
    by auto
qed

text \<open>C9: sending a message again under its idempotency key, by the same agent and with the same
  payload, returns the first answer and changes nothing. The strings of the payload are the
  trimmed ones that the schema returns.\<close>

theorem post_message_replay:
  assumes "bridge_inv plain_id cursorKey (mem_view w)" "rq_context r = Some c" "rq_context r' = Some c"
    "h_post_message (mem_deps P) p r w = (Inr out, w')"
    "sc_postMessage (me_schemas P) p = Inr input" "pp_idempotency_key input = Some key"
    "trim (ac_agentId c) = ac_agentId c" "trim key = key" "trim (pp_body input) = pp_body input"
    "map_option trim (pp_in_reply_to input) = pp_in_reply_to input"
    "normalizeMetadata (pp_metadata input) = Inr (pp_metadata input)"
  shows "h_post_message (mem_deps P) p r' w' = (Inr out, w')"
proof -
  let ?P = "\<lambda>x. ms_senderAgentId x = ac_agentId c \<and> ms_idempotencyKey x = Some key"
  let ?tid = "pp_thread_id input"
  from wp_Inr [OF mem_bridge.post_wp [OF assms(2) refl, of P p w] assms(4)] assms(5,6) obtain t where
    t: "v_threads (mem_view w) ?tid = Some t" "th_workspaceId t = ac_workspaceId c"
      "trim (ac_workspaceId c) \<noteq> []" "ac_role c \<noteq> Auditor"
      "\<forall>x. pp_sender_agent_id input = Some x \<longrightarrow> x = ac_agentId c"
      "\<forall>x. pp_sender_session_id input = Some x \<longrightarrow> x = ac_sessionId c"
    and parent: "\<forall>q. pp_in_reply_to input = Some q \<longrightarrow>
      find (\<lambda>x. ms_messageId x = q) (v_messages (mem_view w) ?tid) \<noteq> None"
    and effect: "(\<exists>m. find ?P (v_messages (mem_view w) ?tid) = Some m \<and> mem_view w' = mem_view w \<and>
         isIdempotentReplayMatch input m \<and> toPostMessageOutput (mem_deps P) m (th_status t) = Inr out) \<or>
      find ?P (v_messages (mem_view w) ?tid) = None \<and>
      (\<exists>m. posted_by c input (v_messages (mem_view w) ?tid) m \<and>
         mem_view w' = append_message ?tid m (mem_view w) \<and>
         toPostMessageOutput (mem_deps P) m (th_status t) = Inr out)"
    by auto
  have t': "v_threads (mem_view w') ?tid = Some t"
    using effect t(1) by (auto simp: append_message_def split: if_split_asm)
  have parent': "\<forall>q. pp_in_reply_to input = Some q \<longrightarrow>
      find (\<lambda>x. ms_messageId x = q) (v_messages (mem_view w') ?tid) \<noteq> None"
    using effect parent by (auto simp: append_message_def find_snoc split: if_split_asm)
  obtain m where m: "find ?P (v_messages (mem_view w') ?tid) = Some m"
    "isIdempotentReplayMatch input m" "toPostMessageOutput (mem_deps P) m (th_status t) = Inr out"
  proof (cases "\<exists>m. find ?P (v_messages (mem_view w) ?tid) = Some m")
    case True
    with effect that show ?thesis by auto
  next
    case False
    with effect obtain m where p: "posted_by c input (v_messages (mem_view w) ?tid) m"
      and rest: "mem_view w' = append_message ?tid m (mem_view w)"
        "toPostMessageOutput (mem_deps P) m (th_status t) = Inr out" by auto
    note f = posted_facts [OF p]
    show ?thesis
      using False rest f assms(6-11)
      by (intro that [of m])
        (auto simp: append_message_def find_snoc isIdempotentReplayMatch_def)
  qed
  have ok: "authorizeOperation (ac_role c) MessageWrite = Inr ()"
    "assertPayloadIdentityMatchesClaims c (no_hints\<lparr>ih_agent_id := pp_sender_agent_id input,
       ih_session_id := pp_sender_session_id input\<rparr>) = Inr ()"
    "assertWorkspaceBoundary c (th_workspaceId t) = Inr ()"
    using t(2-6) by simp_all
  show ?thesis
    using t' parent' m assms(3,5,6)
    by (auto simp: ok h_post_message_def requireContext_def io_bind_def io_zoom_def memThreadStore_def
        mem_getThreadById_def mem_getMessageById_def mem_getMessageByIdempotency_def mem_view_def
        replay_check_def split: option.split)
qed

theorem post_message_replay_witness:
  "h_post_message demo_deps JNull (demo_auth Coordinator)
      (snd (h_post_message demo_deps JNull (demo_auth Coordinator) demo_world)) =
    (Inr (projr (fst (h_post_message demo_deps JNull (demo_auth Coordinator) demo_world))),
     snd (h_post_message demo_deps JNull (demo_auth Coordinator) demo_world))"
proof -
  have sc: "sc_postMessage (me_schemas (demo_env Resolved ''done'' 1 Coordinator)) JNull = Inr demo_post"
    by (simp add: demo_env_def demo_schemas_def)
  have strings: "pp_idempotency_key demo_post = Some ''k''"
    "trim (ac_agentId (demo_claims Coordinator)) = ac_agentId (demo_claims Coordinator)"
    "trim ''k'' = ''k''" "trim (pp_body demo_post) = pp_body demo_post"
    "map_option trim (pp_in_reply_to demo_post) = pp_in_reply_to demo_post"
    "normalizeMetadata (pp_metadata demo_post) = Inr (pp_metadata demo_post)"
    by code_simp+
  show ?thesis
    by (rule post_message_replay [OF demo_inv demo_context demo_context run_ok [OF demo_post_runs(2)]
          sc strings])
qed

text \<open>C33: a page of \<open>read_messages\<close> after number \<open>n\<close> with limit \<open>k\<close> holds the next \<open>k\<close> messages of the
  thread, in order and without gaps; \<open>next_seq\<close> is where the following page starts, and
  \<open>has_more\<close> says whether it holds anything. Reading changes nothing.\<close>

theorem read_messages_page:
  assumes "bridge_inv plain_id cursorKey (mem_view w)" "rq_context r = Some c"
    "h_read_messages (mem_deps P) p r w = (Inr out, w')"
    "sc_readMessages (me_schemas P) p = Inr input" "pr_since_seq input = int n"
    "pr_limit input = int k" "ms = v_messages (mem_view w) (pr_thread_id input)"
  shows "out = ReadMessagesOutput (map toReadMessage (take k (drop n ms)))
      (int (n + length (take k (drop n ms)))) (n + k < length ms) \<and>
    mem_view w' = mem_view w \<and>
    (\<exists>t. v_threads (mem_view w) (pr_thread_id input) = Some t \<and> th_workspaceId t = ac_workspaceId c)"
proof -
  have "sc_readMessages (d_schemas (mem_deps P)) p = Inr input" using assms(4) by simp
  from wp_Inr [OF mem_bridge.read_wp [OF assms(2,1) this assms(5,6) assms(7) [symmetric]] assms(3)]
  show ?thesis by simp
qed

lemma demo_reads:
  "isl (fst (h_read_messages demo_deps JNull (demo_auth Auditor) demo_world)) = False"
  "isl (fst (h_ack_read demo_deps JNull (demo_auth Auditor) demo_world)) = False"
  by code_simp+

theorem read_messages_page_witness:
  "\<exists>m. projr (fst (h_read_messages demo_deps JNull (demo_auth Auditor) demo_world)) =
    ReadMessagesOutput [toReadMessage m] 1 False"
proof -
  let ?input = "\<lparr>pr_thread_id = ''th_x'', pr_agent_id = None, pr_since_seq = 0, pr_limit = 50\<rparr>"
  have sc: "sc_readMessages (me_schemas (demo_env Resolved ''done'' 1 Coordinator)) JNull = Inr ?input"
    by (simp add: demo_env_def demo_schemas_def)
  have n: "pr_since_seq ?input = int 0" "pr_limit ?input = int 50" by simp_all
  have "length (v_messages (mem_view demo_world) ''th_x'') = 1" by code_simp
  then obtain m where ms: "v_messages (mem_view demo_world) ''th_x'' = [m]"
    by (auto simp: length_Suc_conv)
  show ?thesis
    using read_messages_page [OF demo_inv demo_context run_ok [OF demo_reads(1)] sc n refl] ms by auto
qed

text \<open>An acknowledgement that is accepted moves the read cursor of the caller forward, never
  backward, and never past the last message of the thread.\<close>

theorem ack_read_moves_forward:
  assumes "bridge_inv plain_id cursorKey (mem_view w)" "rq_context r = Some c"
    "trim (ac_agentId c) = ac_agentId c" "h_ack_read (mem_deps P) p r w = (Inr out, w')"
    "sc_ackRead (me_schemas P) p = Inr input" "key = cursorKey (pa_thread_id input) (ac_agentId c)"
  shows "\<exists>cu. v_cursors (mem_view w') key = Some cu \<and> cu_lastReadSeq cu = pa_last_read_seq input \<and>
    pa_last_read_seq input \<le> last_seq (v_messages (mem_view w) (pa_thread_id input)) \<and>
    (\<forall>old. v_cursors (mem_view w) key = Some old \<longrightarrow> cu_lastReadSeq old \<le> cu_lastReadSeq cu)"
  using wp_Inr [OF mem_bridge.ack_wp [OF assms(2,1,3)] assms(4)] assms(5,6) by auto

theorem ack_read_moves_forward_witness:
  "\<exists>cu. v_cursors (mem_view (snd (h_ack_read demo_deps JNull (demo_auth Auditor) demo_world)))
     (cursorKey ''th_x'' ''a1'') = Some cu \<and> cu_lastReadSeq cu = 1"
proof -
  let ?input = "\<lparr>pa_thread_id = ''th_x'', pa_agent_id = None, pa_last_read_seq = 1\<rparr>"
  have sc: "sc_ackRead (me_schemas (demo_env Resolved ''done'' 1 Coordinator)) JNull = Inr ?input"
    by (simp add: demo_env_def demo_schemas_def)
  have a: "trim (ac_agentId (demo_claims Auditor)) = ac_agentId (demo_claims Auditor)"
    "ac_agentId (demo_claims Auditor) = ''a1''" by code_simp+
  show ?thesis
    using ack_read_moves_forward [OF demo_inv demo_context a(1) run_ok [OF demo_reads(2)] sc refl] a(2)
    by auto
qed

section \<open>Thread status, sessions and triggers\<close>

text \<open>C13: an accepted status change was made by a coordinator of the thread's workspace, is a
  transition that the thread life cycle allows, closes a blocked thread only with an explicit
  override reason, and changes no other stored data.\<close>

theorem update_status_guarded:
  assumes "rq_context r = Some c" "h_update_thread_status (mem_deps P) p r w = (Inr out, w')"
    "sc_updateThreadStatus (me_schemas P) p = Inr input"
  shows "\<exists>t0 t d. v_threads (mem_view w) (pu_thread_id input) = Some t0 \<and>
    ac_role c = Coordinator \<and> th_workspaceId t0 = ac_workspaceId c \<and>
    transitionThreadStatus t0 (pu_status input) d = Inr t \<and>
    (th_status t0 = Blocked \<and> pu_status input = Closed \<longrightarrow>
       list_ex (starts_with (pu_reason input)) [''human_override:'', ''coordinator_override:'']) \<and>
    data_of (mem_view w') = data_of ((mem_view w)\<lparr>v_threads :=
       (v_threads (mem_view w))(pu_thread_id input := Some t)\<rparr>)"
  using wp_Inr [OF mem_bridge.update_wp [OF assms(1) refl] assms(2)] assms(3)
  by (auto simp: hasExplicitOverrideReason_def OVERRIDE_REASON_PREFIXES_def)

lemma demo_updates:
  "isl (fst (h_update_thread_status demo_deps JNull (demo_auth Coordinator) demo_world)) = False"
  "isl (fst (h_heartbeat_session demo_deps JNull (demo_auth Auditor) demo_world)) = False"
  "isl (fst (h_trigger_participant demo_deps JNull (demo_auth Coordinator) demo_world)) = False"
  by code_simp+

theorem update_status_guarded_witness:
  "\<exists>t0 t d. v_threads (mem_view demo_world) ''th_x'' = Some t0 \<and>
    transitionThreadStatus t0 Resolved d = Inr t \<and>
    v_threads (mem_view (snd (h_update_thread_status demo_deps JNull (demo_auth Coordinator) demo_world)))
      ''th_x'' = Some t"
proof -
  let ?input = "\<lparr>pu_thread_id = ''th_x'', pu_agent_id = None, pu_status = Resolved,
    pu_reason = ''done'', pu_metadata = None\<rparr>"
  let ?w = "snd (h_update_thread_status demo_deps JNull (demo_auth Coordinator) demo_world)"
  have sc: "sc_updateThreadStatus (me_schemas (demo_env Resolved ''done'' 1 Coordinator)) JNull = Inr ?input"
    by (simp add: demo_env_def demo_schemas_def)
  from update_status_guarded [OF demo_context run_ok [OF demo_updates(1)] sc]
  obtain t0 t d where t: "v_threads (mem_view demo_world) ''th_x'' = Some t0"
    "transitionThreadStatus t0 Resolved d = Inr t"
    and eq: "data_of (mem_view ?w) = data_of ((mem_view demo_world)\<lparr>v_threads :=
       (v_threads (mem_view demo_world))(''th_x'' := Some t)\<rparr>)"
    by auto
  from arg_cong [OF eq, of v_threads] have "v_threads (mem_view ?w) ''th_x'' = Some t"
    by (simp add: data_of_def)
  with t show ?thesis by blast
qed

text \<open>A heartbeat records only the session of the caller, and the recorded time of that
  session, which the answer returns, never goes back.\<close>

theorem heartbeat_own_session:
  assumes "rq_context r = Some c" "h_heartbeat_session (mem_deps P) p r w = (Inr out, w')"
    "key = sessionKey (ac_agentId c) (ac_workspaceId c)"
  shows "\<exists>s. v_sessions (mem_view w') key = Some s \<and> out = HeartbeatOutput (se_lastHeartbeatAt s) \<and>
    (\<forall>old. v_sessions (mem_view w) key = Some old \<longrightarrow> se_lastHeartbeatAt old \<le> se_lastHeartbeatAt s) \<and>
    (\<forall>k. k \<noteq> key \<longrightarrow> v_sessions (mem_view w') k = v_sessions (mem_view w) k)"
  using wp_Inr [OF mem_bridge.heartbeat_wp [OF assms(1) refl] assms(2)] assms(3) by blast

theorem heartbeat_own_session_witness:
  "\<exists>s. v_sessions (mem_view (snd (h_heartbeat_session demo_deps JNull (demo_auth Auditor) demo_world)))
     (sessionKey ''a1'' ''w1'') = Some s"
  using heartbeat_own_session [OF demo_context run_ok [OF demo_updates(2)] refl]
  by (auto simp: demo_claims_def)

text \<open>C18: an accepted trigger is for a participant of a thread of the caller's workspace. The first
  request under an id records one job, whose status follows the decision on the target's session;
  any later request under that id must repeat it and leaves all jobs as they are.\<close>

theorem trigger_records_decision:
  assumes "rq_context r = Some c" "h_trigger_participant (mem_deps P) p r w = (Inr out, w')"
    "sc_triggerParticipant (me_schemas P) p = Inr input" "key = ''trg_'' @ rq_id r"
  shows "\<exists>t now d. ac_role c = Coordinator \<and> v_threads (mem_view w) (pt_thread_id input) = Some t \<and>
    th_workspaceId t = ac_workspaceId c \<and>
    trim (pt_target_agent_id input) \<in> set (th_participants t) \<and>
    resolveTriggerDecision
      (v_sessions (mem_view w) (sessionKey (pt_target_agent_id input) (ac_workspaceId c)))
      (me_staleAfterHours P) now = Inr d \<and>
    (\<forall>k. k \<noteq> key \<longrightarrow> v_jobs (mem_view w') k = v_jobs (mem_view w) k) \<and>
    (\<exists>j. v_jobs (mem_view w') key = Some j \<and> tj_threadId j = pt_thread_id input \<and>
       tj_targetAgentId j = pt_target_agent_id input \<and> tj_prompt j = pt_trigger_prompt input \<and>
       (if v_jobs (mem_view w) key = None then tj_status j = td_jobStatus d \<and> tj_attempts j = 0
        else v_jobs (mem_view w) key = Some j))"
proof -
  note spec = mem_bridge.trigger_wp [OF assms(1) refl, of P p w, folded assms(4)]
  from wp_Inr [OF spec assms(2)] assms(3) obtain t now d where
    t: "ac_role c = Coordinator" "v_threads (mem_view w) (pt_thread_id input) = Some t"
    "th_workspaceId t = ac_workspaceId c" "trim (pt_target_agent_id input) \<in> set (th_participants t)"
    "resolveTriggerDecision
      (v_sessions (mem_view w) (sessionKey (pt_target_agent_id input) (ac_workspaceId c)))
      (me_staleAfterHours P) now = Inr d"
    and jobs: "case v_jobs (mem_view w) key of
      None \<Rightarrow> (\<forall>k. k \<noteq> key \<longrightarrow> v_jobs (mem_view w') k = v_jobs (mem_view w) k) \<and>
        (\<exists>j. v_jobs (mem_view w') key = Some j \<and> tj_triggerId j = key \<and> tj_status j = td_jobStatus d \<and>
          tj_attempts j = 0 \<and> tj_threadId j = pt_thread_id input \<and>
          tj_targetAgentId j = pt_target_agent_id input \<and> tj_prompt j = pt_trigger_prompt input)
    | Some old \<Rightarrow> data_of (mem_view w') = data_of (mem_view w) \<and> tj_threadId old = pt_thread_id input \<and>
        tj_targetAgentId old = pt_target_agent_id input \<and> tj_prompt old = pt_trigger_prompt input"
    by (auto simp del: append.simps)
  have same: "v_jobs v = v_jobs v'" if "data_of v = data_of v'" for v v'
    using arg_cong [OF that, of v_jobs] by (simp add: data_of_def)
  show ?thesis
    using t jobs by (cases "v_jobs (mem_view w) key") (auto dest: same)
qed

theorem trigger_records_decision_witness:
  "\<exists>j. v_jobs (mem_view (snd (h_trigger_participant demo_deps JNull (demo_auth Coordinator) demo_world)))
     ''trg_q1'' = Some j \<and> tj_targetAgentId j = ''a2''"
proof -
  let ?input = "\<lparr>pt_thread_id = ''th_x'', pt_target_agent_id = ''a2'', pt_reason = ''r'',
    pt_trigger_prompt = ''p''\<rparr>"
  have sc: "sc_triggerParticipant (me_schemas (demo_env Resolved ''done'' 1 Coordinator)) JNull = Inr ?input"
    by (simp add: demo_env_def demo_schemas_def)
  have key: "''trg_q1'' = ''trg_'' @ rq_id (demo_auth Coordinator)"
    by (simp add: demo_request_def)
  show ?thesis
    using trigger_records_decision [OF demo_context run_ok [OF demo_updates(3)] sc key] by auto
qed

text \<open>The decision on a trigger, by cases. A managed session that is online and fresh is used as
  it is; any other session that is fresh and resumable is resumed; otherwise a session is spawned.
  Fresh means that at most the configured number of hours have passed since its last heartbeat.\<close>

theorem trigger_decision_cases:
  assumes "0 < h"
  shows "\<exists>d. resolveTriggerDecision session (js_int h) now = Inr d \<and>
    td_jobStatus d =
      (case session of None \<Rightarrow> FallbackSpawn
       | Some s \<Rightarrow>
           let fresh = (now - se_lastHeartbeatAt s \<le> h * 3600000) in
           if fresh \<and> se_managementMode s = Managed \<and> se_status s \<noteq> SOffline then Queued
           else if fresh \<and> se_resumable s then FallbackResume else FallbackSpawn) \<and>
    toDecisionFromJobStatus (td_jobStatus d) = (td_action d, td_result d, td_fallbackAction d)"
proof (cases session)
  case None
  then show ?thesis by (simp add: resolveTriggerDecision_def toDecisionFromJobStatus_def)
next
  case (Some s)
  have "isSessionRecordStale now s (js_int h) (Some (At now)) = Inr (stale_at h now s)"
    using assms unfolding isSessionRecordStale_def by (simp only: option.case isSessionStale_valid)
  with Some show ?thesis
    by (auto simp: resolveTriggerDecision_def toDecisionFromJobStatus_def Let_def stale_at_def
        simp del: of_int_eq_iff)
qed

theorem trigger_decision_cases_witness:
  "\<exists>d. resolveTriggerDecision None (js_int 12) 1000 = Inr d \<and> td_jobStatus d = FallbackSpawn"
  using trigger_decision_cases [of 12 None 1000] by auto

section \<open>Rejections\<close>



end
