(* ===== verification/CoreProperties.thy ===== *)
theory CoreProperties
  imports DomainThread DomainMessage DomainSession Auth
begin

text \<open>The properties of the domain rules and of authentication.\<close>

section \<open>Threads\<close>


text \<open>A status change of a thread either is one the map of transitions lists, and then only the
  status and the time of update change; or it keeps the status, and then nothing changes; or it
  is refused with \<open>INVALID_THREAD_TRANSITION\<close>.\<close>

theorem transition_outcome:
  "case transitionThreadStatus t s (At u) of
     Inr t' \<Rightarrow> th_status t = s \<and> t' = t \<or>
       s \<in> set (transitionMap (th_status t)) \<and> t' = t\<lparr>th_status := s, th_updatedAt := u\<rparr>
   | Inl e \<Rightarrow> de_code e = D_INVALID_THREAD_TRANSITION \<and> th_status t \<noteq> s \<and>
       s \<notin> set (transitionMap (th_status t))"
  using transition_Inr_iff [of t s "At u"] transition_Inl_code [of t s u]
  by (auto split: sum.split)

text \<open>A thread is created exactly when every string is non-empty after trimming and the
  participants are distinct after trimming. What is created is well formed, and everything
  else is refused with \<open>INVALID_ARGUMENT\<close>.\<close>

theorem createThread_outcome:
  "case createThread now i of
     Inr t \<Rightarrow> wf_thread t \<and> th_threadId t = trim (ct_threadId i) \<and>
       th_participants t = map trim (ct_participants i) \<and> th_updatedAt t = th_createdAt t
   | Inl e \<Rightarrow> de_code e = D_INVALID_ARGUMENT \<and>
       \<not> (trim (ct_threadId i) \<noteq> [] \<and> trim (ct_workspaceId i) \<noteq> [] \<and> trim (ct_title i) \<noteq> [] \<and>
          ct_participants i \<noteq> [] \<and> [] \<notin> trim ` set (ct_participants i) \<and>
          distinct (map trim (ct_participants i)) \<and> ct_createdAt i \<noteq> Some InvalidDate)"
proof (cases "createThread now i")
  case (Inr t)
  from Inr [unfolded createThread_Inr_iff] show ?thesis
    unfolding Inr sum.case using createThread_wf [OF Inr] by auto
next
  case (Inl e)
  have "\<nexists>t. createThread now i = Inr t" using Inl by simp
  then have "\<not> (trim (ct_threadId i) \<noteq> [] \<and> trim (ct_workspaceId i) \<noteq> [] \<and> trim (ct_title i) \<noteq> [] \<and>
          ct_participants i \<noteq> [] \<and> [] \<notin> trim ` set (ct_participants i) \<and>
          distinct (map trim (ct_participants i)) \<and> ct_createdAt i \<noteq> Some InvalidDate)"
    unfolding createThread_Inr_iff
    by (cases "ct_createdAt i"; cases "the (ct_createdAt i)") (auto simp: image_iff, metis+)
  with createThread_Inl [OF Inl] show ?thesis
    unfolding Inl sum.case by blast
qed

section \<open>Messages and cursors\<close>

text \<open>A series of acknowledgements, accepted or refused, never moves a read cursor back.\<close>

theorem acknowledgements_monotone:
  "cu_lastReadSeq c \<le> cu_lastReadSeq (ack_run now c (is @ js)) \<and>
   cu_lastReadSeq (ack_run now c is) \<le> cu_lastReadSeq (ack_run now c (is @ js))"
proof -
  have "ack_run now c (is @ js) = ack_run now (ack_run now c is) js"
    by (induction "is" arbitrary: c) auto
  then show ?thesis using ack_run_mono [of c now "is"] ack_run_mono [of "ack_run now c is" now js] by simp
qed

section \<open>Sessions\<close>

text \<open>The search for a session to resume returns the latest resumable session of the agent in
  the workspace, if its last heartbeat is recent enough, and nothing if there is no recent one.\<close>

theorem resumable_session_is_latest:
  assumes "0 < h" "trim (lk_agentId l) \<noteq> []" "trim (lk_workspaceId l) \<noteq> []"
    "lk_staleAfterHours l = js_int h" "lk_referenceTime l = Some (At t)"
  shows "\<exists>r. findLatestResumableSession now sessions l = Inr r \<and>
    (let mine = resumable_of sessions (trim (lk_agentId l)) (trim (lk_workspaceId l)) in
     case r of
       None \<Rightarrow> \<forall>s\<in>set mine. h * 3600000 < t - se_lastHeartbeatAt s
     | Some s \<Rightarrow> s \<in> set mine \<and> t - se_lastHeartbeatAt s \<le> h * 3600000 \<and>
         (\<forall>s'\<in>set mine. se_lastHeartbeatAt s' \<le> se_lastHeartbeatAt s))"
proof -
  let ?mine = "resumable_of sessions (trim (lk_agentId l)) (trim (lk_workspaceId l))"
  show ?thesis
  proof (cases "sort_desc se_lastHeartbeatAt ?mine")
    case Nil
    with findLatest_eq [OF assms, of now sessions] show ?thesis by simp
  next
    case (Cons c cs)
    have "c \<in> set ?mine" using Cons set_sort_desc [of se_lastHeartbeatAt ?mine] by auto
    moreover note max = sort_desc_Cons_max [OF Cons]
    moreover have "\<forall>s\<in>set ?mine. h * 3600000 < t - se_lastHeartbeatAt s" if "stale_at h t c"
      using max that by (fastforce simp: stale_at_def)
    ultimately show ?thesis
      using findLatest_eq [OF assms, of now sessions] Cons
      by (auto simp: Let_def stale_at_def)
  qed
qed

definition demo_session :: session where
  "demo_session = \<lparr>se_agentId = ''a'', se_workspaceId = ''w'', se_sessionId = ''s'', se_runtime = ''r'',
     se_managementMode = Managed, se_resumable = True, se_status = SIdle,
     se_lastHeartbeatAt = 1000, se_updatedAt = 1000\<rparr>"

definition demo_lookup :: session_lookup where
  "demo_lookup = \<lparr>lk_agentId = ''a'', lk_workspaceId = ''w'', lk_staleAfterHours = js_int 12,
     lk_referenceTime = Some (At 2000)\<rparr>"

theorem resumable_session_is_latest_witness:
  "\<exists>r. findLatestResumableSession 0 [demo_session] demo_lookup = Inr r"
proof -
  have "trim (lk_agentId demo_lookup) \<noteq> []" "trim (lk_workspaceId demo_lookup) \<noteq> []"
    by (simp_all add: demo_lookup_def trim_def trim_start_def is_space_def)
  from resumable_session_is_latest [of 12, OF _ this, of 2000 0 "[demo_session]"]
  show ?thesis by (auto simp: demo_lookup_def)
qed

text \<open>C38: the heartbeats of a session may arrive in any order. After all of them the record is that
  of the latest heartbeat, so a late heartbeat never hides a newer one.\<close>

theorem heartbeats_any_order:
  assumes "\<forall>i\<in>set is. good_heartbeat a w i (hb_time i)" "mset is = mset js"
    "inj_on hb_time (set is)" "b \<in> set is" "\<forall>i\<in>set is. hb_time i \<le> hb_time b"
  shows "heartbeat_run now None is = Inr (Some (session_of b (hb_time b))) \<and>
    heartbeat_run now None js = Inr (Some (session_of b (hb_time b)))"
proof -
  obtain i0 rest where is0: "is = i0 # rest" using assms(4) by (cases "is") auto
  let ?x = "latest_heartbeat i0 rest"
  have "?x \<in> set is" using latest_heartbeat_in [of i0 rest] is0 by simp
  moreover have "hb_time ?x = hb_time b"
    using latest_heartbeat_max [of b i0 rest] assms(4,5) is0 \<open>?x \<in> set is\<close>
    by (metis order_antisym)
  ultimately have "?x = b" using assms(3,4) by (meson inj_onD)
  then have "heartbeat_run now None is = Inr (Some (session_of b (hb_time b)))"
    using heartbeat_run_latest [of i0 rest a w now] assms(1) is0 by simp
  with heartbeat_run_perm [OF assms(1-3), of now] show ?thesis by simp
qed

definition demo_heartbeat :: "int \<Rightarrow> heartbeat_input" where
  "demo_heartbeat t = \<lparr>hb_agentId = ''a'', hb_workspaceId = ''w'', hb_sessionId = ''s'',
     hb_runtime = ''r'', hb_managementMode = Managed, hb_resumable = True, hb_status = SIdle,
     hb_heartbeatAt = Some (At t)\<rparr>"

lemma demo_heartbeat_good: "good_heartbeat ''a'' ''w'' (demo_heartbeat t) t" "hb_time (demo_heartbeat t) = t"
  by (simp_all add: demo_heartbeat_def good_heartbeat_def hb_time_def normal_string_def trim_def
      trim_start_def is_space_def)

theorem heartbeats_any_order_witness:
  "heartbeat_run 0 None [demo_heartbeat 1, demo_heartbeat 2] =
     Inr (Some (session_of (demo_heartbeat 2) (hb_time (demo_heartbeat 2)))) \<and>
   heartbeat_run 0 None [demo_heartbeat 2, demo_heartbeat 1] =
     Inr (Some (session_of (demo_heartbeat 2) (hb_time (demo_heartbeat 2))))"
  by (rule heartbeats_any_order [where a = "''a''" and w = "''w''"])
    (auto simp: demo_heartbeat_good)

section \<open>Authentication\<close>

text \<open>The two tables of permissions agree: the operations a role may use are those its row of
  permissions grants.\<close>

theorem role_tables_agree:
  "authorizeOperation role operation = Inr () \<longleftrightarrow>
   (case operation of
      ThreadRead \<Rightarrow> canReadThread (rolePermissions role)
    | MessageRead \<Rightarrow> canReadThread (rolePermissions role)
    | MessageWrite \<Rightarrow> canWriteMessage (rolePermissions role)
    | ThreadManage \<Rightarrow> canManageThread (rolePermissions role)
    | AuditRead \<Rightarrow> canReadAudit (rolePermissions role)
    | SessionHeartbeat \<Rightarrow> True)"
  by (cases role; cases operation) (simp_all add: allowed_def)

text \<open>The claims of a token payload are accepted exactly when the five string claims are
  non-blank strings, the role is one of the three roles, and both times are finite numbers of at
  least 1; then they are taken over unchanged. Every refusal has the code \<open>INVALID_CLAIMS\<close>.\<close>

theorem claims_accepted_iff:
  "(mapVerifiedClaims payload = Inr c \<longleftrightarrow>
     map_of payload ''agent_id'' = Some (JString (ac_agentId c)) \<and> trim (ac_agentId c) \<noteq> [] \<and>
     map_of payload ''workspace_id'' = Some (JString (ac_workspaceId c)) \<and> trim (ac_workspaceId c) \<noteq> [] \<and>
     map_of payload ''role'' = Some (JString (role_text (ac_role c))) \<and>
     map_of payload ''session_id'' = Some (JString (ac_sessionId c)) \<and> trim (ac_sessionId c) \<noteq> [] \<and>
     map_of payload ''jti'' = Some (JString (ac_jwtId c)) \<and> trim (ac_jwtId c) \<noteq> [] \<and>
     map_of payload ''iat'' = Some (JNumber (Finite (ac_issuedAt c))) \<and> 1 \<le> ac_issuedAt c \<and>
     map_of payload ''exp'' = Some (JNumber (Finite (ac_expiresAt c))) \<and> 1 \<le> ac_expiresAt c \<and>
     ac_raw c = payload) \<and>
   (case mapVerifiedClaims payload of Inl e \<Rightarrow> ae_code e = A_INVALID_CLAIMS | Inr _ \<Rightarrow> True)"
proof (rule conjI)
  show "case mapVerifiedClaims payload of Inl e \<Rightarrow> ae_code e = A_INVALID_CLAIMS | Inr _ \<Rightarrow> True"
    by (auto split: sum.split dest: mapVerifiedClaims_Inl)
qed (cases c, auto simp: mapVerifiedClaims_def)

text \<open>C39: a verifier that resolves its options once answers as one that resolves them on every
  call, and it accepts a token only if \<open>jwtVerify\<close> accepted it for the configured issuer and
  audience and its payload holds valid claims.\<close>

theorem verifier_sound:
  assumes "createAccessTokenVerifier jwtVerify mk options = Inr verify"
  shows "verify token = verifyAccessToken jwtVerify mk token options \<and>
    (case verify token of Inl _ \<Rightarrow> True
     | Inr c \<Rightarrow> \<exists>key payload opts. jwtVerify (trim token) key opts = Inr payload \<and>
         jv_issuer opts = trim (vo_issuer options) \<and> jv_audience opts = trim (vo_audience options) \<and>
         mapVerifiedClaims payload = Inr c)"
proof -
  from assms obtain r where r: "resolveVerifierOptions mk options = Inr r"
    and v: "verify = (\<lambda>token. verifyAccessToken jwtVerify mk token
         \<lparr>vo_issuer = ro_issuer r, vo_audience = ro_audience r, vo_jwksUrl = None,
          vo_keyResolver = Some (ro_keyResolver r),
          vo_clockToleranceSeconds = ro_clockToleranceSeconds r\<rparr>)"
    unfolding createAccessTokenVerifier_def by auto
  have eq: "verify token = verifyAccessToken jwtVerify mk token options"
    using resolve_resolved [OF r] r by (simp add: v verifyAccessToken_def)
  have ro: "ro_issuer r = trim (vo_issuer options)" "ro_audience r = trim (vo_audience options)"
    using resolve_fields [OF r] by simp_all
  show ?thesis
  proof (cases "verify token")
    case (Inr c)
    with verify_success [of jwtVerify mk token options c] eq r obtain payload where
      p: "jwtVerify (trim token) (ro_keyResolver r)
         \<lparr>jv_issuer = ro_issuer r, jv_audience = ro_audience r, jv_clockTolerance =
            (case ro_clockToleranceSeconds r of None \<Rightarrow> 0 | Some s \<Rightarrow> s)\<rparr> = Inr payload"
      "mapVerifiedClaims payload = Inr c" by auto
    have "\<exists>key payload opts. jwtVerify (trim token) key opts = Inr payload \<and>
         jv_issuer opts = trim (vo_issuer options) \<and> jv_audience opts = trim (vo_audience options) \<and>
         mapVerifiedClaims payload = Inr c"
      by (intro exI conjI, rule p(1)) (simp_all add: ro p(2))
    with eq show ?thesis unfolding Inr sum.case by simp
  qed (simp add: eq)
qed

definition demo_verifier_options :: "unit verifier_options" where
  "demo_verifier_options = \<lparr>vo_issuer = ''i'', vo_audience = ''a'', vo_jwksUrl = None,
     vo_keyResolver = Some (), vo_clockToleranceSeconds = None\<rparr>"

theorem verifier_sound_witness:
  "\<exists>verify. createAccessTokenVerifier (\<lambda>_ _ _. Inr []) (\<lambda>_. Inl (OtherExn []))
       demo_verifier_options = Inr verify \<and>
    verify ''t'' = verifyAccessToken (\<lambda>_ _ _. Inr []) (\<lambda>_. Inl (OtherExn [])) ''t'' demo_verifier_options"
proof -
  let ?v = "createAccessTokenVerifier (\<lambda>_ _ _. Inr []) (\<lambda>_. Inl (OtherExn [])) demo_verifier_options"
  have "trim ''i'' = ''i''" "trim ''a'' = ''a''" by code_simp+
  then obtain verify where v: "?v = Inr verify"
    by (simp add: createAccessTokenVerifier_def resolveVerifierOptions_def demo_verifier_options_def
        auth_requireNonEmptyString_def)
  from verifier_sound [OF v, of "''t''"] v show ?thesis by auto
qed

end
