(* ===== verification/UnreadReconciliation.thy ===== *)
theory UnreadReconciliation
  imports DomainSession DomainThread Exceptions
begin

text \<open>
  The reconciliation of unread messages
  (\<open>apps/supervisor-worker/src/unread-reconciliation.ts\<close>): participants with unread messages
  whose session is dormant become candidates for a trigger, once per latest message. The stores
  are interfaces; the in-memory ones are modelled here, the snapshots of the database in DbUnread.
\<close>

section \<open>Data and interfaces\<close>

record session_snapshot =
  sn_sessionId :: string
  sn_managementMode :: management_mode
  sn_resumable :: bool
  sn_status :: session_status
  sn_lastHeartbeatAt :: int

record unread_snapshot =
  up_threadId :: string
  up_workspaceId :: string
  up_threadStatus :: thread_status
  up_participantAgentId :: string
  up_latestSeq :: int
  up_lastReadSeq :: int
  up_session :: "session_snapshot option"

text \<open>\<open>listParticipantSnapshots\<close>, with the workspace and \<open>includeClosedThreads\<close>.\<close>

type_synonym 'w snapshot_store = "string \<Rightarrow> bool \<Rightarrow> ('w, exn, unread_snapshot list) io"

record 'w unread_state_store =
  us_getLastNotifiedSeq :: "string \<Rightarrow> string \<Rightarrow> ('w, exn, int option) io"
  us_markNotified :: "string \<Rightarrow> string \<Rightarrow> int \<Rightarrow> int \<Rightarrow> ('w, exn, unit) io"

text \<open>A status of \<open>None\<close> is the text \<open>missing\<close>.\<close>

record unread_candidate =
  uc_threadId :: string
  uc_workspaceId :: string
  uc_participantAgentId :: string
  uc_unreadCount :: int
  uc_latestSeq :: int
  uc_lastReadSeq :: int
  uc_sessionStatus :: "session_status option"
  uc_sessionId :: "string option"
  uc_managementMode :: "management_mode option"
  uc_resumable :: "bool option"
  uc_staleSession :: bool

record unread_stats =
  ut_participantsScanned :: nat
  ut_unreadParticipants :: nat
  ut_dormantUnreadParticipants :: nat
  ut_deduplicatedParticipants :: nat

record unread_result =
  ur_workspaceId :: string
  ur_polledAt :: int
  ur_candidates :: "unread_candidate list"
  ur_stats :: unread_stats

section \<open>The service\<close>

definition reconciliationStateKey :: "string \<Rightarrow> string \<Rightarrow> string" where
  "reconciliationStateKey threadId agentId = threadId @ ''::'' @ agentId"

definition session_of_snapshot :: "session_snapshot \<Rightarrow> session" where
  "session_of_snapshot s =
     \<lparr>se_agentId = ''n/a'', se_workspaceId = ''n/a'', se_sessionId = sn_sessionId s,
      se_runtime = ''n/a'', se_managementMode = sn_managementMode s,
      se_resumable = sn_resumable s, se_status = sn_status s,
      se_lastHeartbeatAt = sn_lastHeartbeatAt s, se_updatedAt = sn_lastHeartbeatAt s\<rparr>"

definition isDormantSession ::
  "session_snapshot option \<Rightarrow> js_number \<Rightarrow> int \<Rightarrow> domain_error + bool" where
  "isDormantSession snapshot staleAfterHours referenceTime =
     (case snapshot of
        None \<Rightarrow> Inr True
      | Some s \<Rightarrow>
          if sn_status s \<noteq> SActive then Inr True
          else isSessionStale (session_of_snapshot s) staleAfterHours (At referenceTime))"

definition stale_snapshot ::
  "session_snapshot option \<Rightarrow> js_number \<Rightarrow> int \<Rightarrow> domain_error + bool" where
  "stale_snapshot snapshot staleAfterHours referenceTime =
     (case snapshot of None \<Rightarrow> Inr False
      | Some s \<Rightarrow> isSessionStale (session_of_snapshot s) staleAfterHours (At referenceTime))"

definition candidate_of :: "unread_snapshot \<Rightarrow> bool \<Rightarrow> unread_candidate" where
  "candidate_of s stale =
     \<lparr>uc_threadId = up_threadId s, uc_workspaceId = up_workspaceId s,
      uc_participantAgentId = up_participantAgentId s,
      uc_unreadCount = up_latestSeq s - up_lastReadSeq s, uc_latestSeq = up_latestSeq s,
      uc_lastReadSeq = up_lastReadSeq s,
      uc_sessionStatus = map_option sn_status (up_session s),
      uc_sessionId = map_option sn_sessionId (up_session s),
      uc_managementMode = map_option sn_managementMode (up_session s),
      uc_resumable = map_option sn_resumable (up_session s), uc_staleSession = stale\<rparr>"

record unread_counts =
  un_unread :: nat
  un_dormant :: nat
  un_deduplicated :: nat
  un_candidates :: "unread_candidate list"

text \<open>
  The loop over the snapshots. A candidate is marked as notified before the rest of it is
  computed, as in the code.
\<close>

fun reconcile_snapshots ::
  "'w unread_state_store \<Rightarrow> js_number \<Rightarrow> int \<Rightarrow> unread_snapshot list \<Rightarrow> unread_counts \<Rightarrow>
     ('w, exn, unread_counts) io" where
  "reconcile_snapshots U staleAfterHours polledAt [] c = io_return c"
| "reconcile_snapshots U staleAfterHours polledAt (s # rest) c =
     (if up_latestSeq s \<le> up_lastReadSeq s
      then reconcile_snapshots U staleAfterHours polledAt rest c
      else
        let c1 = c\<lparr>un_unread := un_unread c + 1\<rparr> in
        io_bind (io_lift (map_exn DomainExn
            (isDormantSession (up_session s) staleAfterHours polledAt))) (\<lambda>isDormant.
        if \<not> isDormant then reconcile_snapshots U staleAfterHours polledAt rest c1
        else
          let c2 = c1\<lparr>un_dormant := un_dormant c1 + 1\<rparr> in
          io_bind (us_getLastNotifiedSeq U (up_threadId s) (up_participantAgentId s))
            (\<lambda>lastNotifiedSeq.
          if (case lastNotifiedSeq of None \<Rightarrow> False | Some n \<Rightarrow> up_latestSeq s \<le> n)
          then reconcile_snapshots U staleAfterHours polledAt rest
                 (c2\<lparr>un_deduplicated := un_deduplicated c2 + 1\<rparr>)
          else
            io_bind (us_markNotified U (up_threadId s) (up_participantAgentId s)
                (up_latestSeq s) polledAt) (\<lambda>_.
            io_bind (io_lift (map_exn DomainExn
                (stale_snapshot (up_session s) staleAfterHours polledAt))) (\<lambda>stale.
              reconcile_snapshots U staleAfterHours polledAt rest
                (c2\<lparr>un_candidates := un_candidates c2 @ [candidate_of s stale]\<rparr>))))))"

record 'w unread_service =
  uv_snapshotStore :: "'w snapshot_store"
  uv_stateStore :: "'w unread_state_store"

text \<open>\<open>includeClosedThreads\<close> defaults to false; \<open>polledAt\<close> to the time, which a tick always gives.\<close>

definition reconcile ::
  "'w unread_service \<Rightarrow> string \<Rightarrow> js_number \<Rightarrow> bool option \<Rightarrow> int \<Rightarrow> ('w, exn, unread_result) io" where
  "reconcile V workspaceId staleAfterHours includeClosed polledAt =
     io_bind (uv_snapshotStore V workspaceId (case includeClosed of None \<Rightarrow> False | Some b \<Rightarrow> b))
       (\<lambda>snapshots.
     io_bind (reconcile_snapshots (uv_stateStore V) staleAfterHours polledAt snapshots
        \<lparr>un_unread = 0, un_dormant = 0, un_deduplicated = 0, un_candidates = []\<rparr>) (\<lambda>c.
       io_return
         \<lparr>ur_workspaceId = workspaceId, ur_polledAt = polledAt, ur_candidates = un_candidates c,
          ur_stats = \<lparr>ut_participantsScanned = length snapshots,
                      ut_unreadParticipants = un_unread c,
                      ut_dormantUnreadParticipants = un_dormant c,
                      ut_deduplicatedParticipants = un_deduplicated c\<rparr>\<rparr>))"

section \<open>The in-memory stores\<close>

definition mu_listParticipantSnapshots ::
  "string \<Rightarrow> bool \<Rightarrow> (unread_snapshot list, exn, unread_snapshot list) io" where
  "mu_listParticipantSnapshots workspaceId includeClosedThreads snapshots =
     (Inr (filter (\<lambda>s. up_workspaceId s = workspaceId \<and>
         (includeClosedThreads \<or> up_threadStatus s \<noteq> Closed)) snapshots), snapshots)"

definition mu_setSnapshots :: "unread_snapshot list \<Rightarrow> (unread_snapshot list, exn, unit) io" where
  "mu_setSnapshots new old = (Inr (), new)"

type_synonym notified_map = "(string, int \<times> int) js_map"

definition mu_getLastNotifiedSeq :: "string \<Rightarrow> string \<Rightarrow> (notified_map, exn, int option) io" where
  "mu_getLastNotifiedSeq threadId agentId s =
     (Inr (map_option fst (js_get s (reconciliationStateKey threadId agentId))), s)"

definition mu_markNotified :: "string \<Rightarrow> string \<Rightarrow> int \<Rightarrow> int \<Rightarrow> (notified_map, exn, unit) io" where
  "mu_markNotified threadId agentId latestSeq notifiedAt s =
     (Inr (), js_set (reconciliationStateKey threadId agentId) (latestSeq, notifiedAt) s)"

definition mem_snapshot_store :: "('w, unread_snapshot list) cell \<Rightarrow> 'w snapshot_store" where
  "mem_snapshot_store C workspaceId includeClosed =
     io_cell C (mu_listParticipantSnapshots workspaceId includeClosed)"

definition mem_unread_state :: "('w, notified_map) cell \<Rightarrow> 'w unread_state_store" where
  "mem_unread_state C =
     \<lparr>us_getLastNotifiedSeq = (\<lambda>th a. io_cell C (mu_getLastNotifiedSeq th a)),
      us_markNotified = (\<lambda>th a n t. io_cell C (mu_markNotified th a n t))\<rparr>"

section \<open>Notifications\<close>

text \<open>Numbers that go up strictly from \<open>a\<close> (nothing yet if \<open>None\<close>) and end in \<open>b\<close>.\<close>

fun climbs :: "int option \<Rightarrow> int list \<Rightarrow> int option \<Rightarrow> bool" where
  "climbs a [] b \<longleftrightarrow> a = b"
| "climbs a (x # xs) b \<longleftrightarrow> (case a of None \<Rightarrow> True | Some y \<Rightarrow> y < x) \<and> climbs (Some x) xs b"

lemma climbs_append: "climbs a xs b \<Longrightarrow> climbs b ys c \<Longrightarrow> climbs a (xs @ ys) c"
  by (induction xs arbitrary: a) auto

lemma climbs_mono: "climbs (Some n) xs b \<Longrightarrow> \<exists>m. b = Some m \<and> n \<le> m"
  by (induction xs arbitrary: n) force+

lemma climbs_sorted: "climbs a xs b \<Longrightarrow> sorted_wrt (<) xs \<and> (\<forall>x\<in>set xs. \<forall>y. a = Some y \<longrightarrow> y < x)"
proof (induction xs arbitrary: a)
  case (Cons x xs)
  from Cons.prems have "climbs (Some x) xs b" by simp
  from Cons.IH [OF this] Cons.prems show ?case by (auto split: option.split_asm)
qed simp

text \<open>A snapshot that asks for a notification.\<close>

definition dormant :: "int \<Rightarrow> int \<Rightarrow> session_snapshot option \<Rightarrow> bool" where
  "dormant h t ss \<longleftrightarrow> (case ss of None \<Rightarrow> True
     | Some s \<Rightarrow> sn_status s \<noteq> SActive \<or> h * 3600000 < t - sn_lastHeartbeatAt s)"

definition unread :: "unread_snapshot \<Rightarrow> bool" where
  "unread s \<longleftrightarrow> up_lastReadSeq s < up_latestSeq s"

definition candidate_from :: "int \<Rightarrow> int \<Rightarrow> unread_snapshot list \<Rightarrow> unread_candidate \<Rightarrow> bool" where
  "candidate_from h t ss x \<longleftrightarrow>
     (\<exists>s b. s \<in> set ss \<and> unread s \<and> dormant h t (up_session s) \<and> x = candidate_of s b)"

lemma candidate_from_Cons: "candidate_from h t ss x \<Longrightarrow> candidate_from h t (s # ss) x"
  unfolding candidate_from_def by auto

lemma candidate_from_hd:
  "unread s \<Longrightarrow> dormant h t (up_session s) \<Longrightarrow> candidate_from h t (s # ss) (candidate_of s b)"
  unfolding candidate_from_def by auto

lemma isDormantSession_valid:
  "0 < h \<Longrightarrow> isDormantSession ss (js_int h) t = Inr (dormant h t ss)"
  by (auto simp: isDormantSession_def dormant_def stale_at_def session_of_snapshot_def split: option.split)

lemma stale_snapshot_valid:
  "0 < h \<Longrightarrow> \<exists>b. stale_snapshot ss (js_int h) t = Inr b"
  by (auto simp: stale_snapshot_def split: option.split)

locale unread_state_contract =
  fixes U :: "'w unread_state_store" and notified :: "'w \<Rightarrow> 'k \<Rightarrow> int option"
    and key :: "string \<Rightarrow> string \<Rightarrow> 'k"
  assumes get_ok: "us_getLastNotifiedSeq U th a w = (g, w') \<Longrightarrow> notified w' = notified w \<and>
      (\<forall>v. g = Inr v \<longrightarrow> v = notified w (key th a))"
    and mark_ok: "us_markNotified U th a n t w = (Inr u, w') \<Longrightarrow>
      notified w' = (notified w)(key th a := Some n)"
begin

abbreviation key_of :: "unread_snapshot \<Rightarrow> 'k" where
  "key_of s \<equiv> key (up_threadId s) (up_participantAgentId s)"

abbreviation cand_key :: "unread_candidate \<Rightarrow> 'k" where
  "cand_key c \<equiv> key (uc_threadId c) (uc_participantAgentId c)"

abbreviation seqs_for :: "'k \<Rightarrow> unread_candidate list \<Rightarrow> int list" where
  "seqs_for k cs \<equiv> map uc_latestSeq (filter (\<lambda>c. cand_key c = k) cs)"

text \<open>
  A run of the loop: each candidate comes from an unread, dormant snapshot; the numbers notified
  to a participant go up; every snapshot that asks for it has been notified at the end.
\<close>

lemma reconcile_loop:
  assumes "reconcile_snapshots U (js_int h) t ss c w = (Inr c', w')" "0 < h"
  shows "\<exists>new. un_candidates c' = un_candidates c @ new \<and>
    (\<forall>x\<in>set new. candidate_from h t ss x) \<and>
    (\<forall>k. climbs (notified w k) (seqs_for k new) (notified w' k)) \<and>
    (\<forall>s\<in>set ss. unread s \<longrightarrow> dormant h t (up_session s) \<longrightarrow>
       (\<exists>n. notified w' (key_of s) = Some n \<and> up_latestSeq s \<le> n)) \<and>
    un_unread c' = un_unread c + length (filter unread ss) \<and>
    un_dormant c' = un_dormant c + length (filter (\<lambda>s. unread s \<and> dormant h t (up_session s)) ss) \<and>
    un_dormant c' - un_dormant c = length new + (un_deduplicated c' - un_deduplicated c) \<and>
    un_deduplicated c \<le> un_deduplicated c'"
  using assms
proof (induction ss arbitrary: c w)
  case Nil
  then show ?case by auto
next
  case (Cons s ss)
  consider (readall) "\<not> unread s" | (awake) "unread s" "\<not> dormant h t (up_session s)"
    | (wants) "unread s" "dormant h t (up_session s)" by blast
  then show ?case
  proof cases
    case readall
    then have "reconcile_snapshots U (js_int h) t ss c w = (Inr c', w')"
      using Cons.prems by (simp add: unread_def)
    from Cons.IH [OF this Cons.prems(2)] readall show ?thesis by (auto intro: candidate_from_Cons)
  next
    case awake
    then have "reconcile_snapshots U (js_int h) t ss (c\<lparr>un_unread := un_unread c + 1\<rparr>) w = (Inr c', w')"
      using Cons.prems by (simp add: unread_def isDormantSession_valid Let_def split: if_split_asm)
    from Cons.IH [OF this Cons.prems(2)] awake show ?thesis by (auto intro: candidate_from_Cons)
  next
    case wants
    let ?c = "c\<lparr>un_unread := un_unread c + 1, un_dormant := un_dormant c + 1\<rparr>"
    from wants Cons.prems obtain last w1 where
      get: "us_getLastNotifiedSeq U (up_threadId s) (up_participantAgentId s) w = (Inr last, w1)"
      and rest: "(if (case last of None \<Rightarrow> False | Some n \<Rightarrow> up_latestSeq s \<le> n)
          then reconcile_snapshots U (js_int h) t ss (?c\<lparr>un_deduplicated := un_deduplicated ?c + 1\<rparr>)
          else
            io_bind (us_markNotified U (up_threadId s) (up_participantAgentId s)
                (up_latestSeq s) t) (\<lambda>_.
            io_bind (io_lift (map_exn DomainExn
                (stale_snapshot (up_session s) (js_int h) t))) (\<lambda>stale.
              reconcile_snapshots U (js_int h) t ss
                (?c\<lparr>un_candidates := un_candidates ?c @ [candidate_of s stale]\<rparr>)))) w1 = (Inr c', w')"
      by (auto simp: unread_def isDormantSession_valid Let_def split: if_split_asm)
    have w1: "notified w1 = notified w" "last = notified w (key_of s)" using get_ok [OF get] by auto
    show ?thesis
    proof (cases "case last of None \<Rightarrow> False | Some n \<Rightarrow> up_latestSeq s \<le> n")
      case True
      then obtain n where n: "last = Some n" "up_latestSeq s \<le> n" by (auto split: option.split_asm)
      from rest True have "reconcile_snapshots U (js_int h) t ss (?c\<lparr>un_deduplicated := un_deduplicated ?c + 1\<rparr>) w1 = (Inr c', w')"
        by simp
      from Cons.IH [OF this Cons.prems(2)] obtain new where IH:
        "un_candidates c' = un_candidates c @ new"
        "\<forall>x\<in>set new. candidate_from h t ss x"
        "\<forall>k. climbs (notified w k) (seqs_for k new) (notified w' k)"
        "\<forall>s\<in>set ss. unread s \<longrightarrow> dormant h t (up_session s) \<longrightarrow>
           (\<exists>n. notified w' (key_of s) = Some n \<and> up_latestSeq s \<le> n)"
        "un_unread c' = un_unread c + 1 + length (filter unread ss)"
        "un_dormant c' = un_dormant c + 1 + length (filter (\<lambda>s. unread s \<and> dormant h t (up_session s)) ss)"
        "un_dormant c' - (un_dormant c + 1) = length new + (un_deduplicated c' - (un_deduplicated c + 1))"
        "un_deduplicated c + 1 \<le> un_deduplicated c'"
        by (auto simp: w1(1))
      have "\<exists>m. notified w' (key_of s) = Some m \<and> up_latestSeq s \<le> m"
        using IH(3) climbs_mono n w1(2) by (metis order_trans)
      with IH wants show ?thesis by (intro exI [of _ new]) (auto intro: candidate_from_Cons)
    next
      case False
      with rest obtain w2 b where
        mk: "us_markNotified U (up_threadId s) (up_participantAgentId s) (up_latestSeq s) t w1 = (Inr (), w2)"
        and go: "reconcile_snapshots U (js_int h) t ss
            (?c\<lparr>un_candidates := un_candidates ?c @ [candidate_of s b]\<rparr>) w2 = (Inr c', w')"
        by auto
      have w2: "notified w2 = (notified w)(key_of s := Some (up_latestSeq s))"
        using mark_ok [OF mk] w1(1) by simp
      from Cons.IH [OF go Cons.prems(2)] obtain new where IH:
        "un_candidates c' = un_candidates c @ candidate_of s b # new"
        "\<forall>x\<in>set new. candidate_from h t ss x"
        "\<forall>k. climbs (notified w2 k) (seqs_for k new) (notified w' k)"
        "\<forall>s\<in>set ss. unread s \<longrightarrow> dormant h t (up_session s) \<longrightarrow>
           (\<exists>n. notified w' (key_of s) = Some n \<and> up_latestSeq s \<le> n)"
        "un_unread c' = un_unread c + 1 + length (filter unread ss)"
        "un_dormant c' = un_dormant c + 1 + length (filter (\<lambda>s. unread s \<and> dormant h t (up_session s)) ss)"
        "un_dormant c' - (un_dormant c + 1) = length new + (un_deduplicated c' - un_deduplicated c)"
        "un_deduplicated c \<le> un_deduplicated c'"
        by auto
      have ck: "cand_key (candidate_of s b) = key_of s" "uc_latestSeq (candidate_of s b) = up_latestSeq s"
        by (simp_all add: candidate_of_def)
      have up: "case notified w (key_of s) of None \<Rightarrow> True | Some y \<Rightarrow> y < up_latestSeq s"
        using False w1(2) by (auto split: option.splits)
      have "climbs (notified w k) (seqs_for k (candidate_of s b # new)) (notified w' k)" for k
        using IH(3) [rule_format, of k] up by (cases "k = key_of s") (auto simp: w2 ck)
      moreover have "\<exists>m. notified w' (key_of s) = Some m \<and> up_latestSeq s \<le> m"
        using IH(3) [rule_format, of "key_of s"] by (auto simp: w2 dest: climbs_mono)
      moreover have "un_dormant c' - un_dormant c = Suc (length new) + (un_deduplicated c' - un_deduplicated c)"
        using IH(6,7) by simp
      ultimately show ?thesis
        using IH wants by (intro exI [of _ "candidate_of s b # new"])
          (auto intro: candidate_from_Cons candidate_from_hd)
    qed
  qed
qed

end

lemma mem_unread_contract:
  assumes C: "cell_laws C"
  shows "unread_state_contract (mem_unread_state C)
    (\<lambda>w k. map_option fst (js_get (cell_get C w) k)) reconciliationStateKey"
  using C by unfold_locales
    (auto simp: mem_unread_state_def io_cell_iff mu_getLastNotifiedSeq_def mu_markNotified_def fun_eq_iff)

end
