(* ===== verification/RuntimeRegistry.thy ===== *)
theory RuntimeRegistry
  imports DomainSession Exceptions
begin

text \<open>
  The registry of agent runtimes (\<open>apps/supervisor-worker/src/runtime-registry.ts\<close>): the
  interface of its store, the in-memory store, the service that registers runtimes and takes
  the stale ones offline, and what that reconciliation does over any store that keeps the
  contract \<open>runtime_registry_contract\<close>. A runtime is a session record.
\<close>

section \<open>The store\<close>

record 'w runtime_store =
  rs_upsertFromHeartbeat :: "heartbeat_input \<Rightarrow> ('w, exn, session) io"
  rs_getRuntime :: "string \<Rightarrow> string \<Rightarrow> ('w, exn, session option) io"
  rs_listWorkspaceRuntimes :: "string \<Rightarrow> ('w, exn, session list) io"
  rs_markRuntimeStatus ::
    "string \<Rightarrow> string \<Rightarrow> session_status \<Rightarrow> bool option \<Rightarrow> int \<Rightarrow> ('w, exn, session option) io"

type_synonym mem_runtimes = "(string, session) js_map"

definition runtimeKey :: "string \<Rightarrow> string \<Rightarrow> string" where
  "runtimeKey agentId workspaceId = agentId @ ''::'' @ workspaceId"

text \<open>\<open>now\<close> is what \<open>new Date()\<close> gives, for a heartbeat that has no time of its own.\<close>

definition mr_upsertFromHeartbeat :: "int \<Rightarrow> heartbeat_input \<Rightarrow> (mem_runtimes, exn, session) io" where
  "mr_upsertFromHeartbeat now input s =
     (let key = runtimeKey (hb_agentId input) (hb_workspaceId input)
      in case applySessionHeartbeat now (js_get s key) input of
           Inl e \<Rightarrow> (Inl (DomainExn e), s)
         | Inr updated \<Rightarrow> (Inr updated, js_set key updated s))"

definition mr_getRuntime :: "string \<Rightarrow> string \<Rightarrow> (mem_runtimes, exn, session option) io" where
  "mr_getRuntime agentId workspaceId s = (Inr (js_get s (runtimeKey agentId workspaceId)), s)"

definition mr_listWorkspaceRuntimes :: "string \<Rightarrow> (mem_runtimes, exn, session list) io" where
  "mr_listWorkspaceRuntimes workspaceId s =
     (Inr (filter (\<lambda>runtime. se_workspaceId runtime = workspaceId) (js_values s)), s)"

definition marked :: "session_status \<Rightarrow> bool option \<Rightarrow> int \<Rightarrow> session \<Rightarrow> session" where
  "marked status resumable updatedAt existing =
     existing\<lparr>se_status := status,
       se_resumable := (case resumable of None \<Rightarrow> se_resumable existing | Some b \<Rightarrow> b),
       se_updatedAt := updatedAt\<rparr>"

definition mr_markRuntimeStatus ::
  "string \<Rightarrow> string \<Rightarrow> session_status \<Rightarrow> bool option \<Rightarrow> int \<Rightarrow> (mem_runtimes, exn, session option) io" where
  "mr_markRuntimeStatus agentId workspaceId status resumable updatedAt s =
     (let key = runtimeKey agentId workspaceId
      in case js_get s key of
           None \<Rightarrow> (Inr None, s)
         | Some existing \<Rightarrow>
             let updated = marked status resumable updatedAt existing
             in (Inr (Some updated), js_set key updated s))"

definition mem_runtime_store :: "int \<Rightarrow> ('w, mem_runtimes) cell \<Rightarrow> 'w runtime_store" where
  "mem_runtime_store now C =
     \<lparr>rs_upsertFromHeartbeat = (\<lambda>i. io_cell C (mr_upsertFromHeartbeat now i)),
      rs_getRuntime = (\<lambda>a w. io_cell C (mr_getRuntime a w)),
      rs_listWorkspaceRuntimes = (\<lambda>w. io_cell C (mr_listWorkspaceRuntimes w)),
      rs_markRuntimeStatus = (\<lambda>a w st r u. io_cell C (mr_markRuntimeStatus a w st r u))\<rparr>"

section \<open>The service\<close>

record register_input =
  ri_agentId :: string
  ri_workspaceId :: string
  ri_sessionId :: string
  ri_runtime :: string
  ri_managementMode :: management_mode
  ri_resumable :: bool
  ri_status :: "session_status option"
  ri_registeredAt :: "js_date option"

record reconcile_result =
  rc_workspaceId :: string
  rc_reconciledAt :: int
  rc_checkedRuntimes :: nat
  rc_transitionedOffline :: nat

record 'w registry_service =
  rg_store :: "'w runtime_store"
  rg_now :: "('w, exn, int) io"

text \<open>\<open>given ?? this.now()\<close>\<close>

definition or_now :: "'w registry_service \<Rightarrow> js_date option \<Rightarrow> ('w, exn, js_date) io" where
  "or_now R given = (case given of Some d \<Rightarrow> io_return d
     | None \<Rightarrow> io_bind (rg_now R) (\<lambda>t. io_return (At t)))"

definition registerRuntime :: "'w registry_service \<Rightarrow> register_input \<Rightarrow> ('w, exn, session) io" where
  "registerRuntime R input =
     io_bind (or_now R (ri_registeredAt input)) (\<lambda>heartbeatAt.
       rs_upsertFromHeartbeat (rg_store R)
         \<lparr>hb_agentId = ri_agentId input, hb_workspaceId = ri_workspaceId input,
          hb_sessionId = ri_sessionId input, hb_runtime = ri_runtime input,
          hb_managementMode = ri_managementMode input, hb_resumable = ri_resumable input,
          hb_status = (case ri_status input of None \<Rightarrow> SIdle | Some st \<Rightarrow> st),
          hb_heartbeatAt = Some heartbeatAt\<rparr>)"

definition heartbeatRuntime :: "'w registry_service \<Rightarrow> heartbeat_input \<Rightarrow> ('w, exn, session) io" where
  "heartbeatRuntime R input =
     io_bind (or_now R (hb_heartbeatAt input)) (\<lambda>heartbeatAt.
       rs_upsertFromHeartbeat (rg_store R) (input\<lparr>hb_heartbeatAt := Some heartbeatAt\<rparr>))"

text \<open>The loop over the runtimes of the workspace, with the count of \<open>transitionedOffline\<close>.\<close>

fun reconcile_runtimes ::
  "'w registry_service \<Rightarrow> js_number \<Rightarrow> int \<Rightarrow> session list \<Rightarrow> nat \<Rightarrow> ('w, exn, nat) io" where
  "reconcile_runtimes R staleAfterHours reconciledAt [] n = io_return n"
| "reconcile_runtimes R staleAfterHours reconciledAt (runtime # rest) n =
     (if se_status runtime = SOffline
      then reconcile_runtimes R staleAfterHours reconciledAt rest n
      else
        io_bind (io_lift (map_exn DomainExn
            (isSessionStale runtime staleAfterHours (At reconciledAt)))) (\<lambda>stale.
        if \<not> stale then reconcile_runtimes R staleAfterHours reconciledAt rest n
        else
          io_bind (rs_markRuntimeStatus (rg_store R) (se_agentId runtime) (se_workspaceId runtime)
              SOffline None reconciledAt) (\<lambda>updated.
            reconcile_runtimes R staleAfterHours reconciledAt rest
              (if updated \<noteq> None then n + 1 else n))))"

definition reconcileWorkspaceRuntimes ::
  "'w registry_service \<Rightarrow> string \<Rightarrow> js_number \<Rightarrow> int option \<Rightarrow> ('w, exn, reconcile_result) io" where
  "reconcileWorkspaceRuntimes R workspaceId staleAfterHours given =
     io_bind (case given of Some t \<Rightarrow> io_return t | None \<Rightarrow> rg_now R) (\<lambda>reconciledAt.
     io_bind (rs_listWorkspaceRuntimes (rg_store R) workspaceId) (\<lambda>runtimes.
     io_bind (reconcile_runtimes R staleAfterHours reconciledAt runtimes 0) (\<lambda>transitionedOffline.
       io_return
         \<lparr>rc_workspaceId = workspaceId, rc_reconciledAt = reconciledAt,
          rc_checkedRuntimes = length runtimes, rc_transitionedOffline = transitionedOffline\<rparr>)))"

definition deregisterRuntime ::
  "'w registry_service \<Rightarrow> string \<Rightarrow> string \<Rightarrow> int option \<Rightarrow> ('w, exn, session option) io" where
  "deregisterRuntime R agentId workspaceId deregisteredAt =
     io_bind (case deregisteredAt of Some t \<Rightarrow> io_return t | None \<Rightarrow> rg_now R) (\<lambda>t.
       rs_markRuntimeStatus (rg_store R) agentId workspaceId SOffline (Some False) t)"

section \<open>The contract of a store\<close>

type_synonym 'k runtime_view = "'k \<rightharpoonup> session"

definition runtimes_filed :: "(string \<Rightarrow> string \<Rightarrow> 'k) \<Rightarrow> 'k runtime_view \<Rightarrow> bool" where
  "runtimes_filed key v \<longleftrightarrow> (\<forall>k s. v k = Some s \<longrightarrow> key (se_agentId s) (se_workspaceId s) = k)"

text \<open>What a reconciliation does to one record.\<close>

definition expire :: "string \<Rightarrow> int \<Rightarrow> int \<Rightarrow> session \<Rightarrow> session" where
  "expire ws h t s =
     (if se_workspaceId s = ws \<and> se_status s \<noteq> SOffline \<and> stale_at h t s
      then marked SOffline None t s else s)"

definition expires :: "int \<Rightarrow> int \<Rightarrow> session \<Rightarrow> bool" where
  "expires h t s \<longleftrightarrow> se_status s \<noteq> SOffline \<and> stale_at h t s"

lemma marked_simps [simp]:
  "se_agentId (marked st r u s) = se_agentId s" "se_workspaceId (marked st r u s) = se_workspaceId s"
  "se_status (marked st r u s) = st" "se_lastHeartbeatAt (marked st r u s) = se_lastHeartbeatAt s"
  "se_sessionId (marked st r u s) = se_sessionId s"
  by (simp_all add: marked_def)

locale runtime_registry_contract =
  fixes S :: "'w runtime_store" and rts :: "'w \<Rightarrow> 'k runtime_view"
    and key :: "string \<Rightarrow> string \<Rightarrow> 'k" and rinv :: "'w \<Rightarrow> bool"
  assumes filed: "rinv w \<Longrightarrow> runtimes_filed key (rts w)"
    and get_ok: "rs_getRuntime S a ws w = (g, w') \<Longrightarrow> rinv w \<Longrightarrow> rinv w' \<and> rts w' = rts w \<and>
      (\<forall>s. g = Inr s \<longrightarrow> s = rts w (key a ws))"
    and list_ok: "rs_listWorkspaceRuntimes S ws w = (ls, w') \<Longrightarrow> rinv w \<Longrightarrow>
      rinv w' \<and> rts w' = rts w \<and>
      (\<forall>rs. ls = Inr rs \<longrightarrow> distinct (map (\<lambda>s. key (se_agentId s) (se_workspaceId s)) rs) \<and>
         set rs = {s. se_workspaceId s = ws \<and> rts w (key (se_agentId s) (se_workspaceId s)) = Some s})"
    and mark_ok: "rs_markRuntimeStatus S a ws st r u w = (Inr m, w') \<Longrightarrow> rinv w \<Longrightarrow>
      rinv w' \<and> m = map_option (marked st r u) (rts w (key a ws)) \<and>
      rts w' = (case m of None \<Rightarrow> rts w | Some s \<Rightarrow> (rts w)(key a ws \<mapsto> s))"
    and mark_fail: "rs_markRuntimeStatus S a ws st r u w = (Inl e, w') \<Longrightarrow> rinv w \<Longrightarrow>
      rinv w' \<and> rts w' = rts w"
begin

abbreviation key_of :: "session \<Rightarrow> 'k" where
  "key_of s \<equiv> key (se_agentId s) (se_workspaceId s)"

lemma reconcile_loop:
  assumes "reconcile_runtimes R (js_int h) t rs n w = (Inr m, w')" "rg_store R = S" "0 < h" "rinv w"
    "distinct (map key_of rs)" "\<forall>s\<in>set rs. se_workspaceId s = ws \<and> rts w (key_of s) = Some s"
  shows "rinv w' \<and> m = n + length (filter (expires h t) rs) \<and>
    rts w' = (\<lambda>k. if k \<in> key_of ` set rs then map_option (expire ws h t) (rts w k) else rts w k)"
  using assms
proof (induction rs arbitrary: n w)
  case Nil
  then show ?case by simp
next
  case (Cons s rs)
  have s: "se_workspaceId s = ws" "rts w (key_of s) = Some s" by (meson Cons.prems(6) list.set_intros(1))+
  have new: "key_of s \<notin> key_of ` set rs" and d: "distinct (map key_of rs)"
    using Cons.prems(5) by simp_all
  have rest: "\<forall>s\<in>set rs. se_workspaceId s = ws \<and> rts w (key_of s) = Some s"
    by (meson Cons.prems(6) list.set_intros(2))
  show ?case
  proof (cases "expires h t s")
    case False
    with Cons.prems(1-3) have "reconcile_runtimes R (js_int h) t rs n w = (Inr m, w')"
      by (auto simp: expires_def split: if_split_asm)
    from Cons.IH [OF this Cons.prems(2-4) d rest] False s show ?thesis
      by (auto simp: expires_def expire_def fun_eq_iff)
  next
    case True
    with Cons.prems(1-3) obtain m1 w1 where
      mk: "rs_markRuntimeStatus S (se_agentId s) (se_workspaceId s) SOffline None t w = (Inr m1, w1)"
      and go: "reconcile_runtimes R (js_int h) t rs (if m1 \<noteq> None then n + 1 else n) w1 = (Inr m, w')"
      by (auto simp: expires_def split: if_split_asm)
    from mark_ok [OF mk Cons.prems(4)] s(2) have w1: "rinv w1" "m1 = Some (marked SOffline None t s)"
      "rts w1 = (rts w)(key_of s \<mapsto> marked SOffline None t s)" by simp_all
    have "\<forall>s\<in>set rs. se_workspaceId s = ws \<and> rts w1 (key_of s) = Some s"
      using rest new by (auto simp: w1(3) image_iff)
    from Cons.IH [OF go Cons.prems(2,3) w1(1) d this] True s new w1 show ?thesis
      by (auto simp: expires_def expire_def fun_eq_iff)
  qed
qed

text \<open>
  A reconciliation takes offline exactly the runtimes of the workspace that are stale and not
  offline yet, and counts them. Nothing else changes.
\<close>

theorem reconcile_effect:
  assumes "reconcileWorkspaceRuntimes R ws (js_int h) (Some t) w = (Inr res, w')" "rg_store R = S"
    "0 < h" "rinv w"
  shows "rinv w'" "rts w' = (\<lambda>k. map_option (expire ws h t) (rts w k))"
    "rc_transitionedOffline res =
       card {s. se_workspaceId s = ws \<and> rts w (key_of s) = Some s \<and> expires h t s}"
    "rc_checkedRuntimes res = card {s. se_workspaceId s = ws \<and> rts w (key_of s) = Some s}"
proof -
  from assms(1,2) obtain rs w1 n where ls: "rs_listWorkspaceRuntimes S ws w = (Inr rs, w1)"
    and go: "reconcile_runtimes R (js_int h) t rs 0 w1 = (Inr n, w')"
    and res: "rc_transitionedOffline res = n" "rc_checkedRuntimes res = length rs"
    unfolding reconcileWorkspaceRuntimes_def by auto
  from list_ok [OF ls assms(4)] have w1: "rinv w1" "rts w1 = rts w" "distinct (map key_of rs)"
    "set rs = {s. se_workspaceId s = ws \<and> rts w (key_of s) = Some s}" by simp_all
  have "\<forall>s\<in>set rs. se_workspaceId s = ws \<and> rts w1 (key_of s) = Some s"
    unfolding w1(2,4) by blast
  from reconcile_loop [OF go assms(2,3) w1(1,3) this, unfolded w1(2)] have l: "rinv w'"
    "n = length (filter (expires h t) rs)"
    "rts w' = (\<lambda>k. if k \<in> key_of ` set rs then map_option (expire ws h t) (rts w k) else rts w k)"
    by simp_all
  have "distinct rs" using w1(3) by (simp add: distinct_map)
  then show "rinv w'" "rc_transitionedOffline res =
       card {s. se_workspaceId s = ws \<and> rts w (key_of s) = Some s \<and> expires h t s}"
    "rc_checkedRuntimes res = card {s. se_workspaceId s = ws \<and> rts w (key_of s) = Some s}"
    using l(1,2) w1(4) by (simp_all add: res distinct_card [symmetric] conj_assoc)
  show "rts w' = (\<lambda>k. map_option (expire ws h t) (rts w k))"
  proof
    fix k
    show "rts w' k = map_option (expire ws h t) (rts w k)"
    proof (cases "rts w k")
      case None
      then show ?thesis by (simp add: l(3))
    next
      case (Some s)
      with filed [OF assms(4)] have "key_of s = k" by (simp add: runtimes_filed_def)
      with Some show ?thesis by (auto simp: l(3) w1(4) expire_def image_iff)
    qed
  qed
qed

end

section \<open>The in-memory store keeps the contract\<close>

definition mem_runtimes_inv :: "mem_runtimes \<Rightarrow> bool" where
  "mem_runtimes_inv s \<longleftrightarrow> js_keys_distinct s \<and> runtimes_filed runtimeKey (js_get s)"

lemma mem_runtime_contract:
  assumes C: "cell_laws C"
  shows "runtime_registry_contract (mem_runtime_store now C) (\<lambda>w. js_get (cell_get C w)) runtimeKey
    (\<lambda>w. mem_runtimes_inv (cell_get C w))"
proof (unfold_locales, goal_cases)
  case (1 w)
  then show ?case by (simp add: mem_runtimes_inv_def)
next
  case (2 a ws w g w')
  then show ?case using C by (auto simp: mem_runtime_store_def io_cell_iff mr_getRuntime_def)
next
  case (3 ws w ls w')
  let ?m = "cell_get C w"
  have m: "js_keys_distinct ?m" "\<And>k s. js_get ?m k = Some s \<Longrightarrow> runtimeKey (se_agentId s) (se_workspaceId s) = k"
    using 3(2) by (simp_all add: mem_runtimes_inv_def runtimes_filed_def)
  have k: "map (\<lambda>s. runtimeKey (se_agentId s) (se_workspaceId s)) (js_values ?m) = map fst ?m"
    using m by (auto simp: comp_def)
  have "distinct (map (\<lambda>s. runtimeKey (se_agentId s) (se_workspaceId s))
      (filter (\<lambda>runtime. se_workspaceId runtime = ws) (js_values ?m)))"
    by (rule distinct_map_filter) (simp only: k m(1))
  moreover have "s \<in> set (js_values ?m) \<longleftrightarrow> js_get ?m (runtimeKey (se_agentId s) (se_workspaceId s)) = Some s" for s
    using m by (force simp: image_iff)
  ultimately show ?case
    using 3 C by (auto simp: mem_runtime_store_def io_cell_iff mr_listWorkspaceRuntimes_def)
next
  case (4 a ws st r u w m w')
  then show ?case using C
    by (auto simp: mem_runtime_store_def io_cell_iff mr_markRuntimeStatus_def Let_def fun_eq_iff
        mem_runtimes_inv_def runtimes_filed_def distinct_update split: option.split_asm)
next
  case (5 a ws st r u w e w')
  then show ?case
    by (auto simp: mem_runtime_store_def io_cell_iff mr_markRuntimeStatus_def Let_def
        split: option.split_asm)
qed

text \<open>A heartbeat of an agent whose ids need no trimming keeps the records filed.\<close>

lemma upsert_inv:
  assumes "mr_upsertFromHeartbeat now i s = (r, s')" "mem_runtimes_inv s"
    "trim (hb_agentId i) = hb_agentId i" "trim (hb_workspaceId i) = hb_workspaceId i"
  shows "mem_runtimes_inv s'"
proof (cases r)
  case (Inl e)
  with assms show ?thesis by (auto simp: mr_upsertFromHeartbeat_def Let_def split: sum.split_asm)
next
  case (Inr u)
  let ?k = "runtimeKey (hb_agentId i) (hb_workspaceId i)"
  have ap: "applySessionHeartbeat now (js_get s ?k) i = Inr u" and s': "s' = js_set ?k u s"
    using assms(1) Inr by (auto simp: mr_upsertFromHeartbeat_def Let_def split: sum.split_asm)
  have "runtimeKey (se_agentId u) (se_workspaceId u) = ?k"
  proof (cases "js_get s ?k")
    case None
    with ap assms(3,4) show ?thesis
      by (simp add: applySessionHeartbeat_def createSession_fields)
  next
    case (Some old)
    with ap applyHeartbeat_frame [of now old i u] applyHeartbeat_scope [of now old i u]
    show ?thesis by simp
  qed
  with assms(2) show ?thesis
    by (auto simp: mem_runtimes_inv_def runtimes_filed_def s' distinct_update split: if_split_asm)
qed

end
