(* ===== verification/IsoDate.thy ===== *)
theory IsoDate
  imports DomainCore
begin

text \<open>
  \<open>Date.prototype.toISOString\<close> on a valid date, which is a number of milliseconds since the
  epoch: the civil date of the day, and the time of day.
\<close>

definition pad :: "nat \<Rightarrow> int \<Rightarrow> string" where
  "pad n i = (let s = show_nat (nat i) in replicate (n - length s) (CHR ''0'') @ s)"

text \<open>Days since the epoch to year, month and day, with eras of 400 years that start in March.\<close>

definition civil_of_days :: "int \<Rightarrow> int \<times> int \<times> int" where
  "civil_of_days days =
     (let z = days + 719468;
          era = z div 146097;
          doe = z mod 146097;
          yoe = (doe - doe div 1460 + doe div 36524 - doe div 146096) div 365;
          doy = doe - (365 * yoe + yoe div 4 - yoe div 100);
          mp = (5 * doy + 2) div 153;
          d = doy - (153 * mp + 2) div 5 + 1;
          m = (if mp < 10 then mp + 3 else mp - 9)
      in (yoe + era * 400 + (if m \<le> 2 then 1 else 0), m, d))"

definition iso_year :: "int \<Rightarrow> string" where
  "iso_year y =
     (if 0 \<le> y \<and> y \<le> 9999 then pad 4 y
      else (if y < 0 then CHR ''-'' else CHR ''+'') # pad 6 \<bar>y\<bar>)"

definition toISOString :: "int \<Rightarrow> string" where
  "toISOString t =
     (let days = t div 86400000; ms = t mod 86400000
      in case civil_of_days days of (y, m, d) \<Rightarrow>
        iso_year y @ ''-'' @ pad 2 m @ ''-'' @ pad 2 d @ ''T'' @
        pad 2 (ms div 3600000) @ '':'' @ pad 2 (ms div 60000 mod 60) @ '':'' @
        pad 2 (ms div 1000 mod 60) @ ''.'' @ pad 3 (ms mod 1000) @ ''Z'')"

lemma toISOString_examples:
  "toISOString 0 = ''1970-01-01T00:00:00.000Z''"
  "toISOString 951825599999 = ''2000-02-29T11:59:59.999Z''"
  by code_simp+

end
