(* ===== verification/TriggerQueue.thy ===== *)
theory TriggerQueue
  imports TriggerJob IsoDate Exceptions
begin

text \<open>
  The trigger queue of the supervisor worker
  (\<open>apps/supervisor-worker/src/trigger-queue.ts\<close>): the interfaces of the store, of the executor
  of a job and of the fallback, and the processor that claims the due jobs, runs each of them
  once and records what came of it. The two \<open>Map\<close>s of a processor are its state, a part of the
  world that \<open>pd_state\<close> reads and writes.
\<close>

section \<open>Data and interfaces\<close>

datatype attempt_result = ADelivered | ADeferred | ATimeout | AFailed | AResumeStarted
  | AResumeSucceeded | AResumeFailed | ASpawned

type_synonym details = "(string \<times> json) list"

definition DUE_TRIGGER_STATUSES :: "job_status list" where
  "DUE_TRIGGER_STATUSES = [Queued, Timeout, Deferred]"

record transition_input =
  tr_triggerId :: string
  tr_attemptNo :: int
  tr_attemptResult :: attempt_result
  tr_errorCode :: "string option"
  tr_details :: "details option"
  tr_nextStatus :: job_status
  tr_nextRetryAt :: "int option"
  tr_transitionedAt :: int

record 'w trigger_queue_store =
  tq_claimDueJobs :: "string \<Rightarrow> int \<Rightarrow> int \<Rightarrow> ('w, exn, trigger_job list) io"
  tq_recordAttemptAndTransition :: "transition_input \<Rightarrow> ('w, exn, trigger_job option) io"
  tq_listDeadLetterJobs :: "string \<Rightarrow> int \<Rightarrow> ('w, exn, trigger_job list) io"
  tq_getJobById :: "string \<Rightarrow> ('w, exn, trigger_job option) io"
  tq_markThreadBlocked :: "string \<Rightarrow> int \<Rightarrow> string \<Rightarrow> ('w, exn, bool) io"

fun toTransitionStatusForRetry :: "attempt_result \<Rightarrow> job_status" where
  "toTransitionStatusForRetry ADeferred = Deferred"
| "toTransitionStatusForRetry ATimeout = Timeout"
| "toTransitionStatusForRetry _ = Failed"

record execution_outcome =
  eo_attemptResult :: attempt_result
  eo_retryable :: bool
  eo_retryAfterMs :: "int option"
  eo_errorCode :: "string option"
  eo_details :: "details option"

text \<open>The three results a fallback may have.\<close>

datatype fallback_result = ResumeSucceeded | ResumeFailed | Spawned

fun fallback_attempt :: "fallback_result \<Rightarrow> attempt_result" where
  "fallback_attempt ResumeSucceeded = AResumeSucceeded"
| "fallback_attempt ResumeFailed = AResumeFailed"
| "fallback_attempt Spawned = ASpawned"

record fallback_outcome =
  fo_attemptResult :: fallback_result
  fo_nextStatus :: job_status
  fo_errorCode :: "string option"
  fo_details :: "details option"

text \<open>The \<open>execute\<close> methods of \<open>TriggerJobExecutor\<close> and of \<open>TriggerFallbackExecutor\<close>.\<close>

type_synonym 'w job_executor = "trigger_job \<Rightarrow> int \<Rightarrow> int \<Rightarrow> ('w, exn, execution_outcome) io"

type_synonym 'w fallback_executor =
  "trigger_job \<Rightarrow> int \<Rightarrow> execution_outcome \<Rightarrow> int \<Rightarrow> ('w, exn, fallback_outcome) io"

definition NotImplementedTriggerJobExecutor :: "'w job_executor" where
  "NotImplementedTriggerJobExecutor job attemptNo now =
     io_return \<lparr>eo_attemptResult = ATimeout, eo_retryable = True, eo_retryAfterMs = None,
       eo_errorCode = Some ''PENDING_PTY_ADAPTER'', eo_details = None\<rparr>"

definition NoopTriggerFallbackExecutor :: "'w fallback_executor" where
  "NoopTriggerFallbackExecutor job attemptNo initialOutcome now =
     io_return
       \<lparr>fo_attemptResult = ResumeFailed, fo_nextStatus = Failed,
        fo_errorCode = Some (case eo_errorCode initialOutcome of
          None \<Rightarrow> ''FALLBACK_NOT_IMPLEMENTED'' | Some c \<Rightarrow> c),
        fo_details = Some
          ([(''triggerId'', JString (tj_triggerId job)), (''attemptNo'', JNumber (js_int attemptNo))] @
           (case eo_details initialOutcome of None \<Rightarrow> []
            | Some d \<Rightarrow> [(''initialOutcome'', JObject d)]) @
           [(''now'', JString (toISOString now))])\<rparr>"

record processing_result =
  qr_workspaceId :: string
  qr_processedAt :: int
  qr_claimedJobs :: nat
  qr_delivered :: nat
  qr_retried :: nat
  qr_deadLettered :: nat
  qr_failed :: nat
  qr_fallbackResumed :: nat
  qr_fallbackSpawned :: nat
  qr_autoBlocked :: nat
  qr_deadLetterJobIds :: "string list"

record queue_safeguards =
  sg_deferRecheckMs :: int
  sg_rateLimitPerMinute :: int
  sg_loopMaxTurns :: int
  sg_loopMaxRepeatedFindings :: int

definition DEFAULT_TRIGGER_QUEUE_SAFEGUARDS :: queue_safeguards where
  "DEFAULT_TRIGGER_QUEUE_SAFEGUARDS =
     \<lparr>sg_deferRecheckMs = 5000, sg_rateLimitPerMinute = 10, sg_loopMaxTurns = 20,
      sg_loopMaxRepeatedFindings = 3\<rparr>"

record loop_state =
  lp_noProgressTurns :: int
  lp_repeatedErrorCode :: "string option"
  lp_repeatedFindingCycles :: int

record processor_state =
  ps_rateLimitEvents :: "(string, int list) js_map"
  ps_threadLoopState :: "(string, loop_state) js_map"

record 'w processor =
  pd_store :: "'w trigger_queue_store"
  pd_executor :: "'w job_executor"
  pd_fallbackExecutor :: "'w fallback_executor"
  pd_safeguards :: queue_safeguards
  pd_backoffBaseMs :: int
  pd_backoffMaxMs :: int
  pd_state :: "('w, processor_state) cell"

section \<open>The private methods of the processor\<close>

definition computeBackoffMs :: "'w processor \<Rightarrow> int \<Rightarrow> int" where
  "computeBackoffMs P attemptNo =
     (let raw = pd_backoffBaseMs P * 2 ^ nat (max (attemptNo - 1) 0)
      in min raw (pd_backoffMaxMs P))"

definition rateLimitKey :: "trigger_job \<Rightarrow> string" where
  "rateLimitKey job =
     tj_workspaceId job @ '':'' @ tj_threadId job @ '':'' @ tj_targetAgentId job"

definition applyRateLimit ::
  "queue_safeguards \<Rightarrow> trigger_job \<Rightarrow> int \<Rightarrow> processor_state \<Rightarrow>
     execution_outcome option \<times> processor_state" where
  "applyRateLimit G job now s =
     (let key = rateLimitKey job;
          windowStart = now - 60000;
          existing = (case js_get (ps_rateLimitEvents s) key of None \<Rightarrow> [] | Some es \<Rightarrow> es);
          recent = filter (\<lambda>eventAt. windowStart \<le> eventAt) existing
      in if sg_rateLimitPerMinute G \<le> int (length recent)
         then
           let retryAfterMs =
                 (case recent of [] \<Rightarrow> sg_deferRecheckMs G
                  | oldest # _ \<Rightarrow> oldest + 60000 - now)
           in (Some \<lparr>eo_attemptResult = ADeferred, eo_retryable = True,
                 eo_retryAfterMs = Some (max retryAfterMs (sg_deferRecheckMs G)),
                 eo_errorCode = Some ''TRIGGER_RATE_LIMITED'',
                 eo_details = Some
                   [(''rateLimitPerMinute'', JNumber (js_int (sg_rateLimitPerMinute G)))]\<rparr>,
               s\<lparr>ps_rateLimitEvents := js_set key recent (ps_rateLimitEvents s)\<rparr>)
         else (None, s\<lparr>ps_rateLimitEvents := js_set key (recent @ [now]) (ps_rateLimitEvents s)\<rparr>))"

definition clearLoopState :: "string \<Rightarrow> processor_state \<Rightarrow> processor_state" where
  "clearLoopState threadId s =
     s\<lparr>ps_threadLoopState := js_delete threadId (ps_threadLoopState s)\<rparr>"

definition is_progress :: "attempt_result \<Rightarrow> bool" where
  "is_progress r \<longleftrightarrow> r = ADelivered \<or> r = AResumeSucceeded \<or> r = ASpawned"

text \<open>The result is the reason to block the thread, if \<open>shouldAutoBlock\<close>.\<close>

definition updateLoopState ::
  "queue_safeguards \<Rightarrow> string \<Rightarrow> execution_outcome \<Rightarrow> processor_state \<Rightarrow>
     string option \<times> processor_state" where
  "updateLoopState G threadId outcome s =
     (if is_progress (eo_attemptResult outcome) then (None, clearLoopState threadId s)
      else
        let previous = (case js_get (ps_threadLoopState s) threadId of
              None \<Rightarrow> \<lparr>lp_noProgressTurns = 0, lp_repeatedErrorCode = None,
                       lp_repeatedFindingCycles = 0\<rparr>
            | Some l \<Rightarrow> l);
            nextNoProgressTurns = lp_noProgressTurns previous + 1;
            errorCode = (case eo_errorCode outcome of None \<Rightarrow> ''UNKNOWN_TRIGGER_ERROR''
                         | Some c \<Rightarrow> c);
            nextRepeatedFindingCycles =
              (if lp_repeatedErrorCode previous = Some errorCode
               then lp_repeatedFindingCycles previous + 1 else 1);
            s' = s\<lparr>ps_threadLoopState := js_set threadId
                   \<lparr>lp_noProgressTurns = nextNoProgressTurns,
                    lp_repeatedErrorCode = Some errorCode,
                    lp_repeatedFindingCycles = nextRepeatedFindingCycles\<rparr> (ps_threadLoopState s)\<rparr>
        in if sg_loopMaxTurns G \<le> nextNoProgressTurns
           then (Some (''no_progress_turns:'' @ show_int nextNoProgressTurns), s')
           else if sg_loopMaxRepeatedFindings G \<le> nextRepeatedFindingCycles
           then (Some (''repeated_identical_findings:'' @ show_int nextRepeatedFindingCycles @
                       '':'' @ errorCode), s')
           else (None, s'))"

section \<open>Processing the due jobs\<close>

record queue_counts =
  qc_delivered :: nat
  qc_retried :: nat
  qc_deadLettered :: nat
  qc_failed :: nat
  qc_fallbackResumed :: nat
  qc_fallbackSpawned :: nat
  qc_autoBlocked :: nat

definition no_counts :: queue_counts where
  "no_counts = \<lparr>qc_delivered = 0, qc_retried = 0, qc_deadLettered = 0, qc_failed = 0,
     qc_fallbackResumed = 0, qc_fallbackSpawned = 0, qc_autoBlocked = 0\<rparr>"

text \<open>What happens to a job next: the outcome to record, the status and the time of a retry.\<close>

record job_plan =
  jp_outcome :: execution_outcome
  jp_nextStatus :: job_status
  jp_nextRetryAt :: "int option"

definition attempt_job :: "'w processor \<Rightarrow> trigger_job \<Rightarrow> int \<Rightarrow> ('w, exn, execution_outcome) io" where
  "attempt_job P job processedAt =
     io_bind (io_cell (pd_state P) (io_pure (applyRateLimit (pd_safeguards P) job processedAt)))
       (\<lambda>rateLimitedOutcome.
       case rateLimitedOutcome of
         None \<Rightarrow> pd_executor P job (tj_attempts job + 1) processedAt
       | Some limited \<Rightarrow> io_return limited)"

definition should_retry :: "trigger_job \<Rightarrow> execution_outcome \<Rightarrow> bool" where
  "should_retry job outcome =
     (if eo_attemptResult outcome = ADeferred then eo_retryable outcome
      else eo_retryable outcome \<and> tj_attempts job + 1 \<le> tj_maxRetries job)"

definition plan_job :: "'w processor \<Rightarrow> trigger_job \<Rightarrow> int \<Rightarrow> execution_outcome \<Rightarrow> job_plan" where
  "plan_job P job processedAt outcome =
     (let attemptNo = tj_attempts job + 1; shouldRetry = should_retry job outcome
      in \<lparr>jp_outcome = outcome,
          jp_nextStatus =
            (if eo_attemptResult outcome = ADelivered then Delivered
             else if shouldRetry then toTransitionStatusForRetry (eo_attemptResult outcome)
             else Failed),
          jp_nextRetryAt =
            (if eo_attemptResult outcome = ADelivered \<or> \<not> shouldRetry then None
             else Some (processedAt +
               (if eo_attemptResult outcome = ADeferred
                then (case eo_retryAfterMs outcome of
                        None \<Rightarrow> sg_deferRecheckMs (pd_safeguards P) | Some ms \<Rightarrow> ms)
                else computeBackoffMs P attemptNo)))\<rparr>)"

definition fallback_job ::
  "'w processor \<Rightarrow> trigger_job \<Rightarrow> int \<Rightarrow> execution_outcome \<Rightarrow> ('w, exn, job_plan) io" where
  "fallback_job P job processedAt outcome =
     (if \<not> should_retry job outcome \<and> eo_attemptResult outcome \<noteq> ADelivered
      then io_bind (pd_fallbackExecutor P job (tj_attempts job + 1) outcome processedAt) (\<lambda>fallback.
        io_return
          \<lparr>jp_outcome =
             \<lparr>eo_attemptResult = fallback_attempt (fo_attemptResult fallback), eo_retryable = False,
              eo_retryAfterMs = None, eo_errorCode = fo_errorCode fallback,
              eo_details = fo_details fallback\<rparr>,
           jp_nextStatus = fo_nextStatus fallback, jp_nextRetryAt = None\<rparr>)
      else io_return (plan_job P job processedAt outcome))"

text \<open>The loop guard may block the thread; the second result says whether it did.\<close>

definition guard_job ::
  "'w processor \<Rightarrow> trigger_job \<Rightarrow> int \<Rightarrow> job_plan \<Rightarrow> ('w, exn, job_plan \<times> bool) io" where
  "guard_job P job processedAt plan =
     io_bind (io_cell (pd_state P)
        (io_pure (updateLoopState (pd_safeguards P) (tj_threadId job) (jp_outcome plan))))
       (\<lambda>loopGuard.
       case loopGuard of
         None \<Rightarrow> io_return (plan, False)
       | Some reason \<Rightarrow>
           io_bind (tq_markThreadBlocked (pd_store P) (tj_threadId job) processedAt reason)
             (\<lambda>blocked.
             io_return
               (\<lparr>jp_outcome =
                   \<lparr>eo_attemptResult = AFailed, eo_retryable = False, eo_retryAfterMs = None,
                    eo_errorCode = Some ''THREAD_AUTO_BLOCKED'',
                    eo_details = Some [(''threadId'', JString (tj_threadId job)),
                                       (''reason'', JString reason)]\<rparr>,
                 jp_nextStatus = Failed, jp_nextRetryAt = None\<rparr>, blocked)))"

definition transition_of :: "trigger_job \<Rightarrow> int \<Rightarrow> job_plan \<Rightarrow> transition_input" where
  "transition_of job processedAt plan =
     \<lparr>tr_triggerId = tj_triggerId job, tr_attemptNo = tj_attempts job + 1,
      tr_attemptResult = eo_attemptResult (jp_outcome plan),
      tr_errorCode = eo_errorCode (jp_outcome plan),
      tr_details = eo_details (jp_outcome plan), tr_nextStatus = jp_nextStatus plan,
      tr_nextRetryAt = jp_nextRetryAt plan, tr_transitionedAt = processedAt\<rparr>"

definition count_job :: "bool \<Rightarrow> job_plan \<Rightarrow> bool \<Rightarrow> queue_counts \<Rightarrow> queue_counts" where
  "count_job shouldRetry plan blocked c0 =
     (let c = (if blocked then c0\<lparr>qc_autoBlocked := qc_autoBlocked c0 + 1\<rparr> else c0);
          result = eo_attemptResult (jp_outcome plan)
      in if result = ADelivered \<or> result = AResumeSucceeded \<or> result = ASpawned
         then c\<lparr>qc_delivered := qc_delivered c + 1,
                qc_fallbackResumed :=
                  qc_fallbackResumed c + (if result = AResumeSucceeded then 1 else 0),
                qc_fallbackSpawned := qc_fallbackSpawned c + (if result = ASpawned then 1 else 0)\<rparr>
         else if shouldRetry \<and> result \<noteq> AResumeFailed
         then c\<lparr>qc_retried := qc_retried c + 1\<rparr>
         else c\<lparr>qc_failed := qc_failed c + 1,
                qc_deadLettered :=
                  qc_deadLettered c + (if jp_nextStatus plan = Failed then 1 else 0)\<rparr>)"

text \<open>One turn of the loop over the claimed jobs.\<close>

definition process_job ::
  "'w processor \<Rightarrow> int \<Rightarrow> trigger_job \<Rightarrow> queue_counts \<Rightarrow> ('w, exn, queue_counts) io" where
  "process_job P processedAt job counts =
     io_bind (attempt_job P job processedAt) (\<lambda>outcome.
     io_bind (fallback_job P job processedAt outcome) (\<lambda>plan.
     io_bind (guard_job P job processedAt plan) (\<lambda>(final, blocked).
     io_bind (tq_recordAttemptAndTransition (pd_store P) (transition_of job processedAt final))
       (\<lambda>_. io_return (count_job (should_retry job outcome) final blocked counts)))))"

fun process_jobs ::
  "'w processor \<Rightarrow> int \<Rightarrow> trigger_job list \<Rightarrow> queue_counts \<Rightarrow> ('w, exn, queue_counts) io" where
  "process_jobs P processedAt [] counts = io_return counts"
| "process_jobs P processedAt (job # jobs) counts =
     io_bind (process_job P processedAt job counts) (process_jobs P processedAt jobs)"

text \<open>\<open>processedAt\<close> defaults to \<open>new Date()\<close>; the worker's loop always passes it.\<close>

definition processDueJobs :: "'w processor \<Rightarrow> string \<Rightarrow> int \<Rightarrow> int \<Rightarrow> ('w, exn, processing_result) io" where
  "processDueJobs P workspaceId limit processedAt =
     io_bind (tq_claimDueJobs (pd_store P) workspaceId limit processedAt) (\<lambda>claimedJobs.
     io_bind (process_jobs P processedAt claimedJobs no_counts) (\<lambda>c.
     io_bind (tq_listDeadLetterJobs (pd_store P) workspaceId 20) (\<lambda>deadLetter.
       io_return
         \<lparr>qr_workspaceId = workspaceId, qr_processedAt = processedAt,
          qr_claimedJobs = length claimedJobs, qr_delivered = qc_delivered c,
          qr_retried = qc_retried c, qr_deadLettered = qc_deadLettered c,
          qr_failed = qc_failed c, qr_fallbackResumed = qc_fallbackResumed c,
          qr_fallbackSpawned = qc_fallbackSpawned c, qr_autoBlocked = qc_autoBlocked c,
          qr_deadLetterJobIds = map tj_triggerId deadLetter\<rparr>)))"

end
