(* ===== verification/PtyAdapter.thy ===== *)
theory PtyAdapter
  imports TriggerQueue DomainSession
begin

text \<open>
  The payload of a trigger (\<open>apps/supervisor-worker/src/pty-adapter.ts\<close>): how a prompt is
  cleaned, bounded and wrapped in an envelope of lines before it is typed into a terminal.
\<close>

section \<open>Data\<close>

definition DEFAULT_TRIGGER_PAYLOAD_MAX_BYTES :: int where
  "DEFAULT_TRIGGER_PAYLOAD_MAX_BYTES = 8192"

datatype payload_error = TRIGGER_PAYLOAD_EMPTY | TRIGGER_PAYLOAD_TOO_LARGE

record delivery_request =
  dq_runtime :: session
  dq_triggerId :: string
  dq_threadId :: string
  dq_reason :: string
  dq_prompt :: string
  dq_forceOverride :: bool

datatype delivery_failure_code = PayloadError payload_error | UNSUPPORTED_RUNTIME | OPERATOR_BUSY
  | TARGET_NOT_FOUND | PANE_DEAD | SEND_KEYS_ERROR

fun delivery_code_text :: "delivery_failure_code \<Rightarrow> string" where
  "delivery_code_text (PayloadError TRIGGER_PAYLOAD_EMPTY) = ''TRIGGER_PAYLOAD_EMPTY''"
| "delivery_code_text (PayloadError TRIGGER_PAYLOAD_TOO_LARGE) = ''TRIGGER_PAYLOAD_TOO_LARGE''"
| "delivery_code_text UNSUPPORTED_RUNTIME = ''UNSUPPORTED_RUNTIME''"
| "delivery_code_text OPERATOR_BUSY = ''OPERATOR_BUSY''"
| "delivery_code_text TARGET_NOT_FOUND = ''TARGET_NOT_FOUND''"
| "delivery_code_text PANE_DEAD = ''PANE_DEAD''"
| "delivery_code_text SEND_KEYS_ERROR = ''SEND_KEYS_ERROR''"

datatype delivery_result = DeliverySuccess "details option"
  | DeliveryFailure delivery_failure_code "details option"

record prepared_payload =
  pp_sanitizedPrompt :: string
  pp_envelopeLines :: "string list"

datatype payload_result = PayloadOk prepared_payload | PayloadBad payload_error "details option"

text \<open>The \<open>deliver\<close> method of a \<open>TriggerPtyAdapter\<close>.\<close>

type_synonym 'w pty_adapter = "delivery_request \<Rightarrow> ('w, exn, delivery_result) io"

section \<open>Preparing a payload\<close>

definition isUnsupportedControlCharacter :: "char \<Rightarrow> bool" where
  "isUnsupportedControlCharacter value \<longleftrightarrow>
     (let code = of_char value :: nat
      in code \<le> 8 \<or> 11 \<le> code \<and> code \<le> 31 \<or> code = 127)"

abbreviation LF :: char where "LF \<equiv> CHR 0x0A"
abbreviation CR :: char where "CR \<equiv> CHR 0x0D"

text \<open>\<open>replaceAll("\r\n", "\n")\<close>\<close>

fun replace_crlf :: "string \<Rightarrow> string" where
  "replace_crlf [] = []"
| "replace_crlf [c] = [c]"
| "replace_crlf (c # d # s) =
     (if c = CR \<and> d = LF then LF # replace_crlf s else c # replace_crlf (d # s))"

definition normalizePrompt :: "string \<Rightarrow> string" where
  "normalizePrompt value =
     (let normalized = map (\<lambda>c. if c = CR then LF else c) (replace_crlf value)
      in filter (\<lambda>character. \<not> isUnsupportedControlCharacter character) normalized)"

definition envelope_char :: "char \<Rightarrow> bool" where
  "envelope_char c \<longleftrightarrow>
     (let n = of_char c :: nat
      in 97 \<le> n \<and> n \<le> 122 \<or> 65 \<le> n \<and> n \<le> 90 \<or> 48 \<le> n \<and> n \<le> 57 \<or>
         c = CHR ''.'' \<or> c = CHR ''_'' \<or> c = CHR '':'' \<or> c = CHR ''-'')"

definition sanitizeEnvelopeToken :: "string \<Rightarrow> string" where
  "sanitizeEnvelopeToken value = map (\<lambda>c. if envelope_char c then c else CHR ''_'') value"

text \<open>\<open>Buffer.byteLength(s, "utf8")\<close> on characters below 256.\<close>

definition utf8_bytes :: "string \<Rightarrow> int" where
  "utf8_bytes s = sum_list (map (\<lambda>c. if (of_char c :: nat) < 128 then 1 else 2) s)"

definition prepareTriggerPayload ::
  "string \<Rightarrow> string \<Rightarrow> string \<Rightarrow> string \<Rightarrow> int option \<Rightarrow> payload_result" where
  "prepareTriggerPayload triggerId threadId reason prompt max_given =
     (let maxPayloadBytes =
            (case max_given of None \<Rightarrow> DEFAULT_TRIGGER_PAYLOAD_MAX_BYTES | Some n \<Rightarrow> n);
          sanitizedPrompt = normalizePrompt prompt
      in if length (trim sanitizedPrompt) = 0
         then PayloadBad TRIGGER_PAYLOAD_EMPTY
                (Some [(''maxPayloadBytes'', JNumber (js_int maxPayloadBytes))])
         else
           let payloadBytes = utf8_bytes sanitizedPrompt
           in if maxPayloadBytes < payloadBytes
              then PayloadBad TRIGGER_PAYLOAD_TOO_LARGE
                     (Some [(''maxPayloadBytes'', JNumber (js_int maxPayloadBytes)),
                            (''payloadBytes'', JNumber (js_int payloadBytes))])
              else
                let header = ''[BRIDGE_TRIGGER id='' @ sanitizeEnvelopeToken triggerId @
                      '' thread='' @ sanitizeEnvelopeToken threadId @
                      '' reason='' @ sanitizeEnvelopeToken reason @ '']''
                in PayloadOk
                     \<lparr>pp_sanitizedPrompt = sanitizedPrompt,
                      pp_envelopeLines =
                        [header] @ split_on LF sanitizedPrompt @ [''[/BRIDGE_TRIGGER]'']\<rparr>)"

section \<open>What reaches the terminal\<close>

text \<open>The characters of a line: no control character but a tab, and no line break.\<close>

definition line_char :: "char \<Rightarrow> bool" where
  "line_char c \<longleftrightarrow> (let n = of_char c :: nat in n = 9 \<or> 32 \<le> n \<and> n \<noteq> 127)"

lemma normalizePrompt_chars:
  "c \<in> set (normalizePrompt v) \<Longrightarrow> c = LF \<or> line_char c"
proof -
  assume "c \<in> set (normalizePrompt v)"
  then have "\<not> isUnsupportedControlCharacter c" by (simp add: normalizePrompt_def Let_def)
  then have "(of_char c :: nat) = 9 \<or> (of_char c :: nat) = 10 \<or> 32 \<le> (of_char c :: nat) \<and> (of_char c :: nat) \<noteq> 127"
    unfolding isUnsupportedControlCharacter_def Let_def by arith
  moreover have "c = LF" if "(of_char c :: nat) = 10"
  proof -
    have "(of_char LF :: nat) = 10" by simp
    with that have "(of_char c :: nat) = of_char LF" by (simp only:)
    then show ?thesis by (simp only: of_char_eq_iff)
  qed
  ultimately show "c = LF \<or> line_char c" by (auto simp: line_char_def Let_def)
qed

lemma line_char_supported: "c = LF \<or> line_char c \<Longrightarrow> \<not> isUnsupportedControlCharacter c"
proof (elim disjE)
  assume "c = LF"
  then show ?thesis by (simp only:) code_simp
next
  assume "line_char c"
  then show ?thesis unfolding line_char_def isUnsupportedControlCharacter_def Let_def by arith
qed

lemma in_split_on: "w \<in> set (split_on d s) \<Longrightarrow> set w \<subseteq> set s - {d}"
proof (induction s arbitrary: w)
  case (Cons c cs)
  obtain v vs where v: "split_on d cs = v # vs" by (cases "split_on d cs") auto
  with Cons.IH [of v] have "set v \<subseteq> set cs - {d}" by simp
  with Cons v show ?case by (fastforce split: if_split_asm)
qed auto

lemma sanitize_chars: "c \<in> set (sanitizeEnvelopeToken v) \<Longrightarrow> envelope_char c"
  by (auto simp: sanitizeEnvelopeToken_def envelope_char_def split: if_split_asm)

lemma sanitize_fixed: "\<forall>c\<in>set v. envelope_char c \<Longrightarrow> sanitizeEnvelopeToken v = v"
  by (simp add: sanitizeEnvelopeToken_def map_idI)

lemma sanitize_idem [simp]: "sanitizeEnvelopeToken (sanitizeEnvelopeToken v) = sanitizeEnvelopeToken v"
  by (rule sanitize_fixed) (blast dest: sanitize_chars)

lemma envelope_line_char: "envelope_char c \<Longrightarrow> line_char c"
  by (auto simp: envelope_char_def line_char_def Let_def)

text \<open>A prompt that is already clean is not changed.\<close>

lemma replace_crlf_no_cr: "CR \<notin> set s \<Longrightarrow> replace_crlf s = s"
  by (induction s rule: replace_crlf.induct) auto

lemma normalize_no_cr: "CR \<notin> set (normalizePrompt v)"
  by (auto simp: normalizePrompt_def Let_def)

lemma normalizePrompt_idem [simp]: "normalizePrompt (normalizePrompt v) = normalizePrompt v"
proof -
  let ?n = "normalizePrompt v"
  have "map (\<lambda>c. if c = CR then LF else c) ?n = ?n"
    using normalize_no_cr [of v] by (intro map_idI) auto
  moreover have "filter (\<lambda>c. \<not> isUnsupportedControlCharacter c) ?n = ?n"
    by (simp add: normalizePrompt_def Let_def)
  ultimately show ?thesis
    unfolding normalizePrompt_def [of ?n] Let_def replace_crlf_no_cr [OF normalize_no_cr] by simp
qed

lemma prepare_ok:
  assumes "prepareTriggerPayload i th r p m = PayloadOk pl"
  shows "pp_sanitizedPrompt pl = normalizePrompt p"
    "pp_envelopeLines pl = [''[BRIDGE_TRIGGER id='' @ sanitizeEnvelopeToken i @ '' thread='' @
        sanitizeEnvelopeToken th @ '' reason='' @ sanitizeEnvelopeToken r @ '']''] @
        split_on LF (normalizePrompt p) @ [''[/BRIDGE_TRIGGER]'']"
    "utf8_bytes (normalizePrompt p) \<le>
        (case m of None \<Rightarrow> DEFAULT_TRIGGER_PAYLOAD_MAX_BYTES | Some n \<Rightarrow> n)"
    "trim (normalizePrompt p) \<noteq> []"
  using assms unfolding prepareTriggerPayload_def Let_def
  by (auto split: if_split_asm simp del: append.simps)

end
