(* ===== verification/TriggerQueueStore.thy ===== *)
theory TriggerQueueStore
  imports TriggerQueue "HOL-Library.Multiset"
begin

text \<open>
  The in-memory store of the trigger queue (\<open>InMemoryTriggerQueueStore\<close> of
  \<open>apps/supervisor-worker/src/trigger-queue.ts\<close>), the contract of a queue store, as a locale
  over an abstract view of the jobs, and the proof that the in-memory store keeps it.
\<close>

section \<open>The in-memory store\<close>

record attempt_record =
  at_attemptNo :: int
  at_attemptResult :: attempt_result
  at_errorCode :: "string option"
  at_details :: "details option"
  at_createdAt :: int

record mem_queue =
  mq_jobs :: "(string, trigger_job) js_map"
  mq_blockedThreads :: "(string, int \<times> string) js_map"
  mq_attemptsByTrigger :: "(string, attempt_record list) js_map"

definition triggerKey :: "string \<Rightarrow> string" where
  "triggerKey triggerId = triggerId"

definition InMemoryTriggerQueueStore :: "trigger_job list \<Rightarrow> mem_queue" where
  "InMemoryTriggerQueueStore seedJobs =
     \<lparr>mq_jobs = foldl (\<lambda>jobs job. js_set (triggerKey (tj_triggerId job)) job jobs) [] seedJobs,
      mq_blockedThreads = [], mq_attemptsByTrigger = []\<rparr>"

definition job_due :: "string \<Rightarrow> int \<Rightarrow> trigger_job \<Rightarrow> bool" where
  "job_due workspaceId claimedAt job \<longleftrightarrow>
     tj_workspaceId job = workspaceId \<and> tj_status job \<in> set DUE_TRIGGER_STATUSES \<and>
     (case tj_nextRetryAt job of None \<Rightarrow> True | Some t \<Rightarrow> t \<le> claimedAt)"

definition due_jobs :: "string \<Rightarrow> int \<Rightarrow> int \<Rightarrow> mem_queue \<Rightarrow> trigger_job list" where
  "due_jobs workspaceId limit claimedAt s =
     js_slice0 limit (sort_asc tj_createdAt
       (filter (job_due workspaceId claimedAt) (js_values (mq_jobs s))))"

text \<open>The loop that claims the candidates whose status and \<open>updatedAt\<close> are still the same.\<close>

fun claim_candidates ::
  "int \<Rightarrow> trigger_job list \<Rightarrow> mem_queue \<Rightarrow> trigger_job list \<Rightarrow> trigger_job list \<times> mem_queue" where
  "claim_candidates claimedAt [] s claimed = (claimed, s)"
| "claim_candidates claimedAt (candidate # cs) s claimed =
     (case js_get (mq_jobs s) (triggerKey (tj_triggerId candidate)) of
        None \<Rightarrow> claim_candidates claimedAt cs s claimed
      | Some current \<Rightarrow>
          if tj_status current \<noteq> tj_status candidate \<or> tj_updatedAt current \<noteq> tj_updatedAt candidate
          then claim_candidates claimedAt cs s claimed
          else
            let triggering = current\<lparr>tj_status := Triggering, tj_updatedAt := claimedAt\<rparr>
            in claim_candidates claimedAt cs
                 (s\<lparr>mq_jobs := js_set (triggerKey (tj_triggerId triggering)) triggering (mq_jobs s)\<rparr>)
                 (claimed @ [triggering]))"

definition mq_claimDueJobs :: "string \<Rightarrow> int \<Rightarrow> int \<Rightarrow> (mem_queue, exn, trigger_job list) io" where
  "mq_claimDueJobs workspaceId limit claimedAt s =
     (case claim_candidates claimedAt (due_jobs workspaceId limit claimedAt s) s [] of
        (claimed, s') \<Rightarrow> (Inr claimed, s'))"

definition mq_recordAttemptAndTransition ::
  "transition_input \<Rightarrow> (mem_queue, exn, trigger_job option) io" where
  "mq_recordAttemptAndTransition input s =
     (case js_get (mq_jobs s) (triggerKey (tr_triggerId input)) of
        None \<Rightarrow> (Inr None, s)
      | Some current \<Rightarrow>
          if tj_status current \<noteq> Triggering then (Inr None, s)
          else
            let attempts = (case js_get (mq_attemptsByTrigger s) (tr_triggerId input) of
                              None \<Rightarrow> [] | Some xs \<Rightarrow> xs) @
                    [\<lparr>at_attemptNo = tr_attemptNo input, at_attemptResult = tr_attemptResult input,
                      at_errorCode = tr_errorCode input, at_details = tr_details input,
                      at_createdAt = tr_transitionedAt input\<rparr>];
                updated = current\<lparr>tj_attempts := tr_attemptNo input, tj_status := tr_nextStatus input,
                    tj_nextRetryAt := tr_nextRetryAt input, tj_updatedAt := tr_transitionedAt input\<rparr>
            in (Inr (Some updated),
                s\<lparr>mq_attemptsByTrigger := js_set (tr_triggerId input) attempts (mq_attemptsByTrigger s),
                  mq_jobs := js_set (triggerKey (tr_triggerId input)) updated (mq_jobs s)\<rparr>))"

definition mq_listDeadLetterJobs :: "string \<Rightarrow> int \<Rightarrow> (mem_queue, exn, trigger_job list) io" where
  "mq_listDeadLetterJobs workspaceId limit s =
     (Inr (js_slice0 limit (sort_desc tj_updatedAt
        (filter (\<lambda>job. tj_workspaceId job = workspaceId \<and> tj_status job = Failed)
           (js_values (mq_jobs s))))), s)"

definition mq_getJobById :: "string \<Rightarrow> (mem_queue, exn, trigger_job option) io" where
  "mq_getJobById triggerId s = (Inr (js_get (mq_jobs s) (triggerKey triggerId)), s)"

definition mq_markThreadBlocked :: "string \<Rightarrow> int \<Rightarrow> string \<Rightarrow> (mem_queue, exn, bool) io" where
  "mq_markThreadBlocked threadId blockedAt reason s =
     (case js_get (mq_blockedThreads s) threadId of
        Some _ \<Rightarrow> (Inr False, s)
      | None \<Rightarrow> (Inr True,
          s\<lparr>mq_blockedThreads := js_set threadId (blockedAt, reason) (mq_blockedThreads s)\<rparr>))"

definition mem_queue_store :: "('w, mem_queue) cell \<Rightarrow> 'w trigger_queue_store" where
  "mem_queue_store C =
     \<lparr>tq_claimDueJobs = (\<lambda>w l t. io_cell C (mq_claimDueJobs w l t)),
      tq_recordAttemptAndTransition = (\<lambda>i. io_cell C (mq_recordAttemptAndTransition i)),
      tq_listDeadLetterJobs = (\<lambda>w l. io_cell C (mq_listDeadLetterJobs w l)),
      tq_getJobById = (\<lambda>i. io_cell C (mq_getJobById i)),
      tq_markThreadBlocked = (\<lambda>th t r. io_cell C (mq_markThreadBlocked th t r))\<rparr>"

section \<open>The contract of a queue store\<close>

type_synonym job_view = "string \<rightharpoonup> trigger_job"

text \<open>The jobs are filed under their ids.\<close>

definition filed :: "job_view \<Rightarrow> bool" where
  "filed v \<longleftrightarrow> (\<forall>i j. v i = Some j \<longrightarrow> tj_triggerId j = i)"

definition claim :: "int \<Rightarrow> trigger_job \<Rightarrow> trigger_job" where
  "claim t job = job\<lparr>tj_status := Triggering, tj_updatedAt := t\<rparr>"

lemma claim_simps [simp]:
  "tj_triggerId (claim t x) = tj_triggerId x" "tj_createdAt (claim t x) = tj_createdAt x"
  "tj_status (claim t x) = Triggering" "tj_workspaceId (claim t x) = tj_workspaceId x"
  "tj_attempts (claim t x) = tj_attempts x" "tj_threadId (claim t x) = tj_threadId x"
  by (simp_all add: claim_def)

definition settle :: "transition_input \<Rightarrow> trigger_job \<Rightarrow> trigger_job" where
  "settle i job = job\<lparr>tj_attempts := tr_attemptNo i, tj_status := tr_nextStatus i,
     tj_nextRetryAt := tr_nextRetryAt i, tj_updatedAt := tr_transitionedAt i\<rparr>"

lemma settle_simps [simp]:
  "tj_triggerId (settle i x) = tj_triggerId x" "tj_status (settle i x) = tr_nextStatus i"
  "tj_attempts (settle i x) = tr_attemptNo i" "tj_nextRetryAt (settle i x) = tr_nextRetryAt i"
  by (simp_all add: settle_def)

lemma filedD: "filed v \<Longrightarrow> v i = Some j \<Longrightarrow> tj_triggerId j = i"
  by (simp add: filed_def)

lemma filed_upd: "filed v \<Longrightarrow> tj_triggerId j = i \<Longrightarrow> filed (v(i \<mapsto> j))"
  unfolding filed_def by (metis fun_upd_apply option.inject)

definition claimed_view :: "int \<Rightarrow> trigger_job list \<Rightarrow> job_view \<Rightarrow> job_view" where
  "claimed_view t cs v = (\<lambda>i. if i \<in> tj_triggerId ` set cs then map_option (claim t) (v i) else v i)"

text \<open>
  \<open>jobs\<close> is what a store holds, \<open>inv\<close> what it needs of the world. A failed claim may have
  claimed some of the jobs.
\<close>

locale trigger_queue_contract =
  fixes Q :: "'w trigger_queue_store" and jobs :: "'w \<Rightarrow> job_view" and inv :: "'w \<Rightarrow> bool"
  assumes inv_filed: "inv w \<Longrightarrow> filed (jobs w)"
    and claim_ok: "tq_claimDueJobs Q ws l t w = (Inr js, w') \<Longrightarrow> inv w \<Longrightarrow>
      inv w' \<and> (\<exists>cs. js = map (claim t) cs \<and> distinct (map tj_triggerId cs) \<and>
        (0 \<le> l \<longrightarrow> int (length cs) \<le> l) \<and> sorted (map tj_createdAt cs) \<and>
        (\<forall>c\<in>set cs. jobs w (tj_triggerId c) = Some c \<and> job_due ws t c) \<and>
        jobs w' = claimed_view t cs (jobs w))"
    and claim_fail: "tq_claimDueJobs Q ws l t w = (Inl e, w') \<Longrightarrow> inv w \<Longrightarrow>
      inv w' \<and> (\<exists>cs. (\<forall>c\<in>set cs. jobs w (tj_triggerId c) = Some c \<and> job_due ws t c) \<and>
        jobs w' = claimed_view t cs (jobs w))"
    and record_ok: "tq_recordAttemptAndTransition Q i w = (Inr r, w') \<Longrightarrow> inv w \<Longrightarrow>
      inv w' \<and> (case jobs w (tr_triggerId i) of
         Some j \<Rightarrow> if tj_status j = Triggering
           then r = Some (settle i j) \<and> jobs w' = (jobs w)(tr_triggerId i \<mapsto> settle i j)
           else r = None \<and> jobs w' = jobs w
       | None \<Rightarrow> r = None \<and> jobs w' = jobs w)"
    and record_fail: "tq_recordAttemptAndTransition Q i w = (Inl e, w') \<Longrightarrow> inv w \<Longrightarrow>
      inv w' \<and> jobs w' = jobs w"
    and deadLetter_ok: "tq_listDeadLetterJobs Q ws l w = (dl, w') \<Longrightarrow> inv w \<Longrightarrow>
      inv w' \<and> jobs w' = jobs w \<and>
      (\<forall>js. dl = Inr js \<longrightarrow> (\<forall>j\<in>set js. jobs w (tj_triggerId j) = Some j \<and>
         tj_status j = Failed \<and> tj_workspaceId j = ws))"
    and getJob_ok: "tq_getJobById Q tid w = (g, w') \<Longrightarrow> inv w \<Longrightarrow>
      inv w' \<and> jobs w' = jobs w \<and> (\<forall>found. g = Inr found \<longrightarrow> found = jobs w tid)"
    and block_ok: "tq_markThreadBlocked Q th t reason w = (b, w') \<Longrightarrow> inv w \<Longrightarrow>
      inv w' \<and> jobs w' = jobs w"
begin

lemma claimed_lookup:
  assumes "tq_claimDueJobs Q ws l t w = (Inr js, w')" "inv w"
  shows "distinct (map tj_triggerId js)" "sorted (map tj_createdAt js)" "inv w'"
    "\<forall>j\<in>set js. jobs w' (tj_triggerId j) = Some j \<and> tj_status j = Triggering \<and>
       (\<exists>j0. jobs w (tj_triggerId j) = Some j0 \<and> job_due ws t j0 \<and> j = claim t j0)"
    "\<forall>i. i \<notin> tj_triggerId ` set js \<longrightarrow> jobs w' i = jobs w i"
proof -
  obtain cs where js: "js = map (claim t) cs" and d: "distinct (map tj_triggerId cs)"
    and s: "sorted (map tj_createdAt cs)" and i: "inv w'"
    and c: "\<forall>c\<in>set cs. jobs w (tj_triggerId c) = Some c \<and> job_due ws t c"
    and v: "jobs w' = claimed_view t cs (jobs w)"
    using claim_ok [OF assms] by blast
  show "distinct (map tj_triggerId js)" "sorted (map tj_createdAt js)" "inv w'"
    using d s i by (simp_all add: js comp_def)
  show "\<forall>j\<in>set js. jobs w' (tj_triggerId j) = Some j \<and> tj_status j = Triggering \<and>
       (\<exists>j0. jobs w (tj_triggerId j) = Some j0 \<and> job_due ws t j0 \<and> j = claim t j0)"
    using c by (auto simp: js v claimed_view_def)
  show "\<forall>i. i \<notin> tj_triggerId ` set js \<longrightarrow> jobs w' i = jobs w i"
    by (auto simp: js v claimed_view_def image_image)
qed

end

section \<open>The in-memory store keeps the contract\<close>

definition mem_queue_jobs :: "mem_queue \<Rightarrow> job_view" where
  "mem_queue_jobs s = js_get (mq_jobs s)"

definition mem_queue_inv :: "mem_queue \<Rightarrow> bool" where
  "mem_queue_inv s \<longleftrightarrow> js_keys_distinct (mq_jobs s) \<and> filed (mem_queue_jobs s)"

lemma mem_inv_set:
  assumes "mem_queue_inv s" "tj_triggerId j = k"
  shows "mem_queue_inv (s\<lparr>mq_jobs := js_set k j (mq_jobs s)\<rparr>)"
proof -
  have "js_get (js_set k j (mq_jobs s)) = (js_get (mq_jobs s))(k \<mapsto> j)" by (rule ext) simp
  with assms show ?thesis
    unfolding mem_queue_inv_def mem_queue_jobs_def
    by (simp del: js_get_set add: filed_upd distinct_update)
qed

lemma seed_inv: "mem_queue_inv (InMemoryTriggerQueueStore seedJobs)"
proof (induction seedJobs rule: rev_induct)
  case Nil
  show ?case
    by (simp add: InMemoryTriggerQueueStore_def mem_queue_inv_def mem_queue_jobs_def filed_def)
next
  case (snoc j js)
  from mem_inv_set [OF this refl, of j] show ?case
    by (simp add: InMemoryTriggerQueueStore_def triggerKey_def)
qed

lemma inv_value:
  assumes "mem_queue_inv s" "c \<in> set (js_values (mq_jobs s))"
  shows "js_get (mq_jobs s) (tj_triggerId c) = Some c"
proof -
  obtain k where "(k, c) \<in> set (mq_jobs s)" using assms(2) by auto
  with assms(1) have k: "mem_queue_jobs s k = Some c"
    unfolding mem_queue_inv_def mem_queue_jobs_def by simp
  with assms(1) have "tj_triggerId c = k"
    unfolding mem_queue_inv_def by (blast dest: filedD)
  with k show ?thesis by (simp add: mem_queue_jobs_def)
qed

lemma inv_ids_distinct:
  assumes "mem_queue_inv s"
  shows "distinct (map tj_triggerId (js_values (mq_jobs s)))"
proof -
  have "tj_triggerId (snd x) = fst x" if "x \<in> set (mq_jobs s)" for x
    using inv_value [OF assms, of "snd x"] assms that unfolding mem_queue_inv_def
    by (cases x) (auto simp: mem_queue_jobs_def dest: filedD)
  then have "map (tj_triggerId \<circ> snd) (mq_jobs s) = map fst (mq_jobs s)" by simp
  with assms show ?thesis unfolding mem_queue_inv_def by (simp del: map_eq_conv)
qed

text \<open>The candidates are jobs of the store, oldest first, and each is there once.\<close>

lemma due_jobs_facts:
  assumes "mem_queue_inv s"
  shows "distinct (map tj_triggerId (due_jobs ws l t s))"
    "sorted (map tj_createdAt (due_jobs ws l t s))"
    "c \<in> set (due_jobs ws l t s) \<Longrightarrow> mem_queue_jobs s (tj_triggerId c) = Some c \<and> job_due ws t c"
    "0 \<le> l \<Longrightarrow> int (length (due_jobs ws l t s)) \<le> l"
proof -
  let ?f = "filter (job_due ws t) (js_values (mq_jobs s))"
  define n where "n = (if 0 \<le> l then nat l else length (sort_asc tj_createdAt ?f) - nat (- l))"
  then have n: "due_jobs ws l t s = take n (sort_asc tj_createdAt ?f)"
    by (simp add: due_jobs_def js_slice0_def)
  have "distinct (map tj_triggerId ?f)"
    by (rule distinct_map_filter [OF inv_ids_distinct [OF assms]])
  then have "distinct (map tj_triggerId (sort_asc tj_createdAt ?f))"
    unfolding distinct_map sort_asc_def set_sort distinct_sort .
  then show "distinct (map tj_triggerId (due_jobs ws l t s))"
    by (metis n take_map distinct_take)
  show "sorted (map tj_createdAt (due_jobs ws l t s))"
    by (metis n take_map sort_asc_sorted sorted_wrt_take)
  show "c \<in> set (due_jobs ws l t s) \<Longrightarrow>
      mem_queue_jobs s (tj_triggerId c) = Some c \<and> job_due ws t c"
    using inv_value [OF assms, of c] unfolding n mem_queue_jobs_def
    by (auto dest!: in_set_takeD)
  show "0 \<le> l \<Longrightarrow> int (length (due_jobs ws l t s)) \<le> l"
    using n n_def by simp
qed

lemma claim_candidates_all:
  assumes "mem_queue_inv s" "distinct (map tj_triggerId cs)"
    "\<forall>c\<in>set cs. mem_queue_jobs s (tj_triggerId c) = Some c"
  shows "\<exists>s'. claim_candidates t cs s acc = (acc @ map (claim t) cs, s') \<and> mem_queue_inv s' \<and>
    mem_queue_jobs s' = claimed_view t cs (mem_queue_jobs s)"
  using assms
proof (induction cs arbitrary: s acc)
  case Nil
  then show ?case by (simp add: claimed_view_def)
next
  case (Cons c cs)
  let ?s = "s\<lparr>mq_jobs := js_set (tj_triggerId c) (claim t c) (mq_jobs s)\<rparr>"
  have c: "js_get (mq_jobs s) (tj_triggerId c) = Some c"
    using Cons.prems(3) by (simp add: mem_queue_jobs_def)
  have v: "mem_queue_jobs ?s = (mem_queue_jobs s)(tj_triggerId c \<mapsto> claim t c)"
    by (rule ext) (simp add: mem_queue_jobs_def)
  have i: "mem_queue_inv ?s" by (rule mem_inv_set [OF Cons.prems(1)]) simp
  have "\<forall>d\<in>set cs. mem_queue_jobs ?s (tj_triggerId d) = Some d"
    using Cons.prems(2,3) unfolding v by (auto simp: image_iff)
  with Cons.IH [OF i, of "acc @ [claim t c]"] Cons.prems(2) obtain s' where
    s': "claim_candidates t cs ?s (acc @ [claim t c]) = (acc @ [claim t c] @ map (claim t) cs, s')"
    "mem_queue_inv s'" "mem_queue_jobs s' = claimed_view t cs (mem_queue_jobs ?s)"
    by auto
  have "claim_candidates t (c # cs) s acc = claim_candidates t cs ?s (acc @ [claim t c])"
    using c by (simp add: triggerKey_def claim_def Let_def)
  moreover have "claimed_view t cs (mem_queue_jobs ?s) = claimed_view t (c # cs) (mem_queue_jobs s)"
    using Cons.prems(2,3) unfolding v claimed_view_def by (rule_tac ext) auto
  ultimately show ?case using s' by auto
qed

lemma mem_claim:
  assumes "mem_queue_inv s"
  shows "\<exists>s'. mq_claimDueJobs ws l t s = (Inr (map (claim t) (due_jobs ws l t s)), s') \<and>
    mem_queue_inv s' \<and> mem_queue_jobs s' = claimed_view t (due_jobs ws l t s) (mem_queue_jobs s)"
  using claim_candidates_all [OF assms due_jobs_facts(1) [OF assms, of ws l t], of t "[]"]
    due_jobs_facts(3) [OF assms, of _ ws l t] by (auto simp: mq_claimDueJobs_def)

lemma mem_record:
  assumes "mem_queue_inv s" "mq_recordAttemptAndTransition i s = (r, s')"
  shows "mem_queue_inv s' \<and> (case mem_queue_jobs s (tr_triggerId i) of
     Some j \<Rightarrow> if tj_status j = Triggering
       then r = Inr (Some (settle i j)) \<and> mem_queue_jobs s' = (mem_queue_jobs s)(tr_triggerId i \<mapsto> settle i j)
       else r = Inr None \<and> mem_queue_jobs s' = mem_queue_jobs s
   | None \<Rightarrow> r = Inr None \<and> mem_queue_jobs s' = mem_queue_jobs s)"
proof (cases "js_get (mq_jobs s) (tr_triggerId i)")
  case None
  with assms show ?thesis
    by (auto simp: mq_recordAttemptAndTransition_def triggerKey_def mem_queue_jobs_def)
next
  case (Some j)
  let ?s = "s\<lparr>mq_jobs := js_set (tr_triggerId i) (settle i j) (mq_jobs s)\<rparr>"
  have id: "tj_triggerId (settle i j) = tr_triggerId i"
    using assms(1) Some filedD [of "mem_queue_jobs s"]
    by (auto simp: mem_queue_inv_def mem_queue_jobs_def)
  have v: "mem_queue_jobs ?s = (mem_queue_jobs s)(tr_triggerId i \<mapsto> settle i j)"
    by (rule ext) (simp add: mem_queue_jobs_def)
  show ?thesis
  proof (cases "tj_status j = Triggering")
    case True
    then obtain m where "s' = s\<lparr>mq_attemptsByTrigger := m, mq_jobs := mq_jobs ?s\<rparr>"
      "r = Inr (Some (settle i j))"
      using assms(2) Some
      by (auto simp: mq_recordAttemptAndTransition_def triggerKey_def settle_def Let_def)
    moreover from this have "mem_queue_jobs s' = mem_queue_jobs ?s" "mem_queue_inv s' = mem_queue_inv ?s"
      by (simp_all add: mem_queue_jobs_def mem_queue_inv_def)
    ultimately show ?thesis
      using True Some v mem_inv_set [OF assms(1) id] by (simp add: mem_queue_jobs_def)
  next
    case False
    with assms Some show ?thesis
      by (auto simp: mq_recordAttemptAndTransition_def triggerKey_def mem_queue_jobs_def)
  qed
qed

lemma mem_queue_contract:
  assumes C: "cell_laws C"
  shows "trigger_queue_contract (mem_queue_store C) (\<lambda>w. mem_queue_jobs (cell_get C w))
    (\<lambda>w. mem_queue_inv (cell_get C w))"
proof (unfold_locales, goal_cases)
  case (1 w)
  then show ?case by (simp add: mem_queue_inv_def)
next
  case (2 ws l t w js w')
  then show ?case
    using mem_claim [of "cell_get C w" ws l t] due_jobs_facts [of "cell_get C w", where ws = ws and l = l and t = t] C
    by (auto simp: mem_queue_store_def io_cell_iff)
next
  case (3 ws l t w e w')
  then show ?case
    using mem_claim [of "cell_get C w" ws l t] by (auto simp: mem_queue_store_def io_cell_iff)
next
  case (4 i w r w')
  then show ?case
    using mem_record [of "cell_get C w" i] C
    by (auto simp: mem_queue_store_def io_cell_iff split: option.split_asm if_split_asm)
next
  case (5 i w e w')
  then show ?case
    using mem_record [of "cell_get C w" i]
    by (fastforce simp: mem_queue_store_def io_cell_iff split: option.split_asm if_split_asm)
next
  case (6 ws l w dl w')
  then show ?case
    using inv_value [of "cell_get C w"] C
    by (auto simp: mem_queue_store_def io_cell_iff mq_listDeadLetterJobs_def mem_queue_jobs_def
        dest!: in_js_slice0)
next
  case (7 tid w g w')
  then show ?case
    using C by (auto simp: mem_queue_store_def io_cell_iff mq_getJobById_def mem_queue_jobs_def triggerKey_def)
next
  case (8 th t reason w b w')
  then show ?case
    using C by (auto simp: mem_queue_store_def io_cell_iff mq_markThreadBlocked_def
        mem_queue_jobs_def mem_queue_inv_def split: option.split_asm)
qed

end
