(* ===== verification/TriggerQueueSafety.thy ===== *)
theory TriggerQueueSafety
  imports TriggerQueueStore
begin

text \<open>
  What the processor of the trigger queue guarantees over any store that keeps its contract and
  any executors that leave the jobs alone: every claimed job is settled exactly once, the
  counters add up, and no other job is touched. The rate limit, the loop guard and the backoff
  are studied on their own.
\<close>

section \<open>What a turn of the loop may do to a job\<close>

definition tally :: "queue_counts \<Rightarrow> nat" where
  "tally c = qc_delivered c + qc_retried c + qc_failed c"

definition counts_ok :: "queue_counts \<Rightarrow> bool" where
  "counts_ok c \<longleftrightarrow> qc_deadLettered c \<le> qc_failed c \<and>
     qc_fallbackResumed c + qc_fallbackSpawned c \<le> qc_delivered c \<and> qc_autoBlocked c \<le> tally c"

lemma count_job_tally [simp]: "tally (count_job r p b c) = tally c + 1"
  by (simp add: tally_def count_job_def Let_def)

lemma count_job_ok: "counts_ok c \<Longrightarrow> counts_ok (count_job r p b c)"
  by (auto simp: counts_ok_def tally_def count_job_def Let_def)

text \<open>
  The plans that a turn can end in: the job leaves \<open>triggering\<close>, a job that waits has a time to
  be tried again, and a job is timed out for another try only while it has retries left.
\<close>

definition settles :: "trigger_job \<Rightarrow> job_plan \<Rightarrow> bool" where
  "settles job plan \<longleftrightarrow>
     (case jp_nextStatus plan of
        Queued \<Rightarrow> False | Triggering \<Rightarrow> False
      | Deferred \<Rightarrow> jp_nextRetryAt plan \<noteq> None
      | Timeout \<Rightarrow> jp_nextRetryAt plan \<noteq> None \<and> tj_attempts job + 1 \<le> tj_maxRetries job
      | Failed \<Rightarrow> jp_nextRetryAt plan = None \<or> tj_attempts job + 1 \<le> tj_maxRetries job
      | _ \<Rightarrow> jp_nextRetryAt plan = None)"

lemma settles_failed [simp]:
  "settles job \<lparr>jp_outcome = x, jp_nextStatus = Failed, jp_nextRetryAt = None\<rparr>"
  by (simp add: settles_def)

lemma settle_claim [simp]:
  "settles (claim t j) plan \<longleftrightarrow> settles j plan"
  "settle (transition_of (claim t j) t' plan) (claim t j) = settle (transition_of j t' plan) j"
  by (auto simp: settles_def claim_def settle_def transition_of_def split: job_status.split)

definition fallback_ok :: "fallback_outcome \<Rightarrow> bool" where
  "fallback_ok f \<longleftrightarrow> fo_nextStatus f =
     (case fo_attemptResult f of ResumeSucceeded \<Rightarrow> FallbackResume | ResumeFailed \<Rightarrow> Failed
      | Spawned \<Rightarrow> FallbackSpawn)"

text \<open>
  An executor reports only what an attempt can lead to, and a deferred attempt may always be
  repeated. \<open>ManagedRuntimeTriggerJobExecutor\<close> never reports the result of a fallback.
\<close>

definition outcome_ok :: "execution_outcome \<Rightarrow> bool" where
  "outcome_ok o' \<longleftrightarrow> eo_attemptResult o' \<in> {ADelivered, ADeferred, ATimeout, AFailed} \<and>
     (eo_attemptResult o' = ADeferred \<longrightarrow> eo_retryable o')"

lemma applyRateLimit_ok: "applyRateLimit G job t s = (Some o', s') \<Longrightarrow> outcome_ok o'"
  by (auto simp: applyRateLimit_def outcome_ok_def Let_def split: if_split_asm)

lemma plan_job_settles:
  assumes "outcome_ok o'" "should_retry job o' \<or> eo_attemptResult o' = ADelivered"
  shows "settles job (plan_job P job t o')"
  using assms by (auto simp: outcome_ok_def should_retry_def plan_job_def settles_def Let_def
      split: if_split_asm)

section \<open>What a run keeps\<close>

text \<open>
  A preorder that every call of the processor respects is respected by a run of it.
\<close>

locale processing_frame =
  fixes R :: "'w \<Rightarrow> 'w \<Rightarrow> bool" and P :: "'w processor"
  assumes pre: "reflp R" "transp R"
    and claims: "stays R (tq_claimDueJobs (pd_store P) ws l t)"
    and records: "stays R (tq_recordAttemptAndTransition (pd_store P) i)"
    and lists: "stays R (tq_listDeadLetterJobs (pd_store P) ws l)"
    and blocks: "stays R (tq_markThreadBlocked (pd_store P) th t reason)"
    and put: "R w (cell_put (pd_state P) p w)"
    and executes: "stays R (pd_executor P job n t)"
    and falls_back: "stays R (pd_fallbackExecutor P job n out t)"
begin

lemma on_state: "stays R (io_cell (pd_state P) m)"
  using put by (rule stays_cell)

lemma keeps_job: "stays R (process_job P t job c)"
  unfolding process_job_def attempt_job_def fallback_job_def guard_job_def
  by (intro preserves pre on_state records blocks executes falls_back)

lemma keeps_jobs: "stays R (process_jobs P t js c)"
proof (induction js arbitrary: c)
  case Nil
  show ?case unfolding process_jobs.simps by (intro preserves pre)
next
  case (Cons j js)
  then show ?case unfolding process_jobs.simps by (intro preserves pre keeps_job)
qed

lemma keeps_processing: "stays R (processDueJobs P ws l t)"
  unfolding processDueJobs_def by (intro preserves pre claims lists keeps_jobs)

end

section \<open>The processor over any store\<close>

locale queue_processor = trigger_queue_contract "pd_store P" jobs inv
  for P :: "'w processor" and jobs :: "'w \<Rightarrow> job_view" and inv :: "'w \<Rightarrow> bool" +
  assumes state_keeps: "inv w \<Longrightarrow> inv (cell_put (pd_state P) s w) \<and>
      jobs (cell_put (pd_state P) s w) = jobs w"
    and exec_keeps: "pd_executor P job n t w = (o', w') \<Longrightarrow> inv w \<Longrightarrow> inv w' \<and> jobs w' = jobs w"
    and exec_ok: "pd_executor P job n t w = (Inr out, w') \<Longrightarrow> outcome_ok out"
    and fallback_keeps: "pd_fallbackExecutor P job n out t w = (f, w') \<Longrightarrow> inv w \<Longrightarrow>
      inv w' \<and> jobs w' = jobs w"
    and fallback_status: "pd_fallbackExecutor P job n out t w = (Inr fo, w') \<Longrightarrow> fallback_ok fo"
begin

definition same_jobs :: "'w \<Rightarrow> 'w \<Rightarrow> bool" where
  "same_jobs w w' \<longleftrightarrow> (inv w \<longrightarrow> inv w' \<and> jobs w' = jobs w)"

lemma same_preorder [simp]: "reflp same_jobs" "transp same_jobs"
  by (auto simp: same_jobs_def reflp_def transp_def)

lemma keeps_state: "stays same_jobs (io_cell (pd_state P) m)"
  by (auto simp: stays_def same_jobs_def io_cell_iff state_keeps)

lemma keeps_attempt: "stays same_jobs (attempt_job P job t)"
  unfolding attempt_job_def
  by (intro preserves keeps_state same_preorder) (auto simp: stays_def same_jobs_def dest: exec_keeps)

lemma keeps_fallback: "stays same_jobs (fallback_job P job t o')"
  unfolding fallback_job_def
  by (intro preserves same_preorder) (auto simp: stays_def same_jobs_def dest: fallback_keeps)

lemma keeps_guard: "stays same_jobs (guard_job P job t plan)"
  unfolding guard_job_def
  by (intro preserves keeps_state same_preorder) (auto simp: stays_def same_jobs_def dest: block_ok)

lemma attempt_ok: "attempt_job P job t w = (Inr o', w') \<Longrightarrow> outcome_ok o'"
  by (auto simp: attempt_job_def io_cell_iff split: option.split_asm
      dest: applyRateLimit_ok exec_ok)

lemma fallback_settles:
  assumes "fallback_job P job t o' w = (Inr plan, w')" "outcome_ok o'"
  shows "settles job plan"
proof (cases "should_retry job o' \<or> eo_attemptResult o' = ADelivered")
  case True
  with assms plan_job_settles [OF assms(2) True, of P t] show ?thesis
    by (auto simp: fallback_job_def)
next
  case False
  with assms(1) obtain f w1 where "pd_fallbackExecutor P job (tj_attempts job + 1) o' t w = (Inr f, w1)"
    "jp_nextStatus plan = fo_nextStatus f" "jp_nextRetryAt plan = None"
    by (auto simp: fallback_job_def)
  with fallback_status show ?thesis
    by (auto simp: settles_def fallback_ok_def split: fallback_result.split)
qed

lemma guard_settles:
  assumes "guard_job P job t plan w = (Inr (final, b), w')" "settles job plan"
  shows "settles job final"
proof -
  obtain g s where "updateLoopState (pd_safeguards P) (tj_threadId job) (jp_outcome plan)
      (cell_get (pd_state P) w) = (g, s)" by (cases "updateLoopState (pd_safeguards P)
      (tj_threadId job) (jp_outcome plan) (cell_get (pd_state P) w)")
  then have run: "io_cell (pd_state P) (io_pure (updateLoopState (pd_safeguards P)
      (tj_threadId job) (jp_outcome plan))) w = (Inr g, cell_put (pd_state P) s w)"
    by (simp add: io_cell_iff)
  show ?thesis
    using assms unfolding guard_job_def io_bind_run [where m = "io_cell (pd_state P) x" for x, OF run] by (cases g) auto
qed

text \<open>One job: it is settled and nothing else changes, or an error leaves it as it was claimed.\<close>

lemma process_job_effect:
  assumes run: "process_job P t job c w = (r, w')" and i: "inv w"
    and j: "jobs w (tj_triggerId job) = Some job" "tj_status job = Triggering"
  shows "inv w' \<and> (case r of
     Inr c' \<Rightarrow> tally c' = tally c + 1 \<and> (counts_ok c \<longrightarrow> counts_ok c') \<and>
       (\<exists>plan. settles job plan \<and>
          jobs w' = (jobs w)(tj_triggerId job \<mapsto> settle (transition_of job t plan) job))
   | Inl e \<Rightarrow> jobs w' = jobs w)"
proof -
  have same: "inv w2 \<and> jobs w2 = jobs w" if "stays same_jobs m" "m w1 = (x, w2)" "inv w1 \<and> jobs w1 = jobs w"
    for m :: "('w, exn, 'b) io" and x w1 w2
    using staysD [OF that(1,2)] that(3) by (simp add: same_jobs_def)
  from run [unfolded process_job_def io_bind_iff]
  show ?thesis
  proof (elim disjE exE conjE)
    fix e assume "attempt_job P job t w = (Inl e, w')" "r = Inl e"
    with same [OF keeps_attempt] i show ?thesis by auto
  next
    fix o1 w1 e assume "attempt_job P job t w = (Inr o1, w1)"
      "fallback_job P job t o1 w1 = (Inl e, w')" "r = Inl e"
    with same [OF keeps_attempt] same [OF keeps_fallback] i show ?thesis by fastforce
  next
    fix o1 w1 plan w2 e assume "attempt_job P job t w = (Inr o1, w1)"
      "fallback_job P job t o1 w1 = (Inr plan, w2)" "guard_job P job t plan w2 = (Inl e, w')" "r = Inl e"
    with same [OF keeps_attempt] same [OF keeps_fallback] same [OF keeps_guard] i show ?thesis
      by fastforce
  next
    fix o1 w1 plan w2 fb w3
    assume a: "attempt_job P job t w = (Inr o1, w1)"
      and f: "fallback_job P job t o1 w1 = (Inr plan, w2)"
      and g: "guard_job P job t plan w2 = (Inr fb, w3)"
      and rec: "(case fb of (final, blocked) \<Rightarrow> \<lambda>w.
          io_bind (tq_recordAttemptAndTransition (pd_store P) (transition_of job t final))
            (\<lambda>_. io_return (count_job (should_retry job o1) final blocked c)) w) w3 = (r, w')"
    obtain final blocked where fb: "fb = (final, blocked)" by (cases fb)
    have w3: "inv w3 \<and> jobs w3 = jobs w"
      using same [OF keeps_guard g] same [OF keeps_fallback f] same [OF keeps_attempt a] i by blast
    have st: "settles job final"
      using guard_settles [OF g [unfolded fb] fallback_settles [OF f attempt_ok [OF a]]] .
    from rec [unfolded fb prod.case io_bind_iff] show ?thesis
    proof (elim disjE exE conjE)
      fix e assume "tq_recordAttemptAndTransition (pd_store P) (transition_of job t final) w3 = (Inl e, w')"
        "r = Inl e"
      with record_fail [of "transition_of job t final" w3 e w'] w3 show ?thesis by auto
    next
      fix x w4
      assume x: "tq_recordAttemptAndTransition (pd_store P) (transition_of job t final) w3 = (Inr x, w4)"
        and ret: "io_return (count_job (should_retry job o1) final blocked c) w4 = (r, w')"
      have "tr_triggerId (transition_of job t final) = tj_triggerId job"
        by (simp add: transition_of_def)
      with record_ok [OF x] w3 j have "inv w4"
        "jobs w4 = (jobs w)(tj_triggerId job \<mapsto> settle (transition_of job t final) job)" by simp_all
      with ret st show ?thesis by (auto simp: count_job_ok)
    qed
  qed
qed

text \<open>After a job the others are still as they were claimed.\<close>

lemma process_rest:
  assumes "process_job P t j c w = (Inr c1, w1)" "inv w" "distinct (map tj_triggerId (j # js))"
    "\<forall>k\<in>set (j # js). jobs w (tj_triggerId k) = Some k \<and> tj_status k = Triggering"
  shows "inv w1" "\<forall>k\<in>set js. jobs w1 (tj_triggerId k) = Some k \<and> tj_status k = Triggering"
proof -
  have "jobs w (tj_triggerId j) = Some j" "tj_status j = Triggering" using assms(4) by simp_all
  from process_job_effect [OF assms(1,2) this] obtain plan where w1: "inv w1"
    "jobs w1 = (jobs w)(tj_triggerId j \<mapsto> settle (transition_of j t plan) j)" by auto
  show "inv w1" by (rule w1(1))
  show "\<forall>k\<in>set js. jobs w1 (tj_triggerId k) = Some k \<and> tj_status k = Triggering"
  proof
    fix k assume k: "k \<in> set js"
    with assms(3) have "tj_triggerId k \<noteq> tj_triggerId j" by (metis distinct.simps(2) image_eqI list.set_map list.simps(9))
    with k assms(4) show "jobs w1 (tj_triggerId k) = Some k \<and> tj_status k = Triggering"
      by (simp add: w1(2))
  qed
qed

text \<open>
  The loop over the claimed jobs: every job is settled exactly once, unless an error stops the
  loop, and then the jobs it did not come to stay claimed.
\<close>

lemma process_jobs_effect:
  assumes "process_jobs P t js c w = (r, w')" "inv w" "distinct (map tj_triggerId js)"
    "\<forall>j\<in>set js. jobs w (tj_triggerId j) = Some j \<and> tj_status j = Triggering"
  shows "inv w' \<and> (\<forall>i. i \<notin> tj_triggerId ` set js \<longrightarrow> jobs w' i = jobs w i) \<and>
    (\<forall>j\<in>set js. (\<exists>plan. settles j plan \<and>
        jobs w' (tj_triggerId j) = Some (settle (transition_of j t plan) j)) \<or>
      isl r \<and> jobs w' (tj_triggerId j) = Some j) \<and>
    (\<forall>c'. r = Inr c' \<longrightarrow> tally c' = tally c + length js \<and> (counts_ok c \<longrightarrow> counts_ok c'))"
  using assms
proof (induction js arbitrary: c w)
  case Nil
  then show ?case by auto
next
  case (Cons j js)
  have j: "jobs w (tj_triggerId j) = Some j" "tj_status j = Triggering"
    using Cons.prems(4) by simp_all
  from Cons.prems(1) consider
      (stop) e where "process_job P t j c w = (Inl e, w')" "r = Inl e"
    | (go) c1 w1 where "process_job P t j c w = (Inr c1, w1)" "process_jobs P t js c1 w1 = (r, w')"
    by (auto simp: io_bind_iff)
  then show ?case
  proof cases
    case stop
    with process_job_effect [OF stop(1) Cons.prems(2) j] Cons.prems(4) show ?thesis by simp
  next
    case go
    from process_job_effect [OF go(1) Cons.prems(2) j] obtain plan where
      w1: "inv w1" "tally c1 = tally c + 1" "counts_ok c \<longrightarrow> counts_ok c1" "settles j plan"
        "jobs w1 = (jobs w)(tj_triggerId j \<mapsto> settle (transition_of j t plan) j)" by auto
    have out: "tj_triggerId j \<notin> tj_triggerId ` set js" and d: "distinct (map tj_triggerId js)"
      using Cons.prems(3) by simp_all
    from Cons.IH [OF go(2) w1(1) d process_rest(2) [OF go(1) Cons.prems(2-4)]] have IH:
      "inv w'" "\<forall>i. i \<notin> tj_triggerId ` set js \<longrightarrow> jobs w' i = jobs w1 i"
      "\<forall>k\<in>set js. (\<exists>plan. settles k plan \<and>
          jobs w' (tj_triggerId k) = Some (settle (transition_of k t plan) k)) \<or>
        isl r \<and> jobs w' (tj_triggerId k) = Some k"
      "\<forall>c'. r = Inr c' \<longrightarrow> tally c' = tally c1 + length js \<and> (counts_ok c1 \<longrightarrow> counts_ok c')" by blast+
    have "jobs w' (tj_triggerId j) = Some (settle (transition_of j t plan) j)"
      using IH(2) out w1(5) by simp
    with IH w1 show ?thesis by auto
  qed
qed

text \<open>
  A run of the processor: a job changes only if it was due in the workspace of the run. It is
  then settled, once; after an error it may still be claimed.
\<close>

theorem processDueJobs_effect:
  assumes run: "processDueJobs P ws l t w = (r, w')" and i: "inv w"
  shows "inv w' \<and> (\<forall>i. jobs w' i = jobs w i \<or>
    (\<exists>j. jobs w i = Some j \<and> job_due ws t j \<and>
       ((\<exists>plan. settles j plan \<and> jobs w' i = Some (settle (transition_of j t plan) j)) \<or>
        isl r \<and> jobs w' i = Some (claim t j))))"
proof -
  have view: "\<exists>j. jobs w i = Some j \<and> job_due ws t j \<and> v i = Some (claim t j)"
    if "v = claimed_view t cs (jobs w)" "v i \<noteq> jobs w i"
      "\<forall>c\<in>set cs. jobs w (tj_triggerId c) = Some c \<and> job_due ws t c" for v cs i
    using that by (auto simp: claimed_view_def split: if_split_asm)
  let ?G = "\<lambda>failed w2. inv w2 \<and> (\<forall>i. jobs w2 i = jobs w i \<or>
    (\<exists>j. jobs w i = Some j \<and> job_due ws t j \<and>
       ((\<exists>plan. settles j plan \<and> jobs w2 i = Some (settle (transition_of j t plan) j)) \<or>
        failed \<and> jobs w2 i = Some (claim t j))))"
  have loop: "?G (isl r1) w2"
    if cl: "tq_claimDueJobs (pd_store P) ws l t w = (Inr js, w1)"
      and "process_jobs P t js no_counts w1 = (r1, w2)" for js w1 r1 w2
  proof -
    note facts = claimed_lookup [OF cl i]
    have p: "inv w2" "\<forall>i. i \<notin> tj_triggerId ` set js \<longrightarrow> jobs w2 i = jobs w1 i"
      "\<forall>j\<in>set js. (\<exists>plan. settles j plan \<and>
          jobs w2 (tj_triggerId j) = Some (settle (transition_of j t plan) j)) \<or>
        isl r1 \<and> jobs w2 (tj_triggerId j) = Some j"
      using process_jobs_effect [OF that(2) facts(3,1)] facts(4) by blast+
    have "jobs w2 i = jobs w i \<or> (\<exists>j. jobs w i = Some j \<and> job_due ws t j \<and>
       ((\<exists>plan. settles j plan \<and> jobs w2 i = Some (settle (transition_of j t plan) j)) \<or>
        isl r1 \<and> jobs w2 i = Some (claim t j)))" for i
    proof (cases "i \<in> tj_triggerId ` set js")
      case True
      then obtain j where j: "j \<in> set js" "i = tj_triggerId j" by blast
      with facts(4) obtain j0 where "jobs w i = Some j0" "job_due ws t j0" "j = claim t j0" by blast
      with p(3) j show ?thesis by auto
    qed (use p(2) facts(5) in simp)
    with p(1) show ?thesis by blast
  qed
  have "wp (processDueJobs P ws l t) (\<lambda>_. ?G False) (\<lambda>_. ?G True) w"
    unfolding processDueJobs_def
  proof (intro wp_bind wpI)
    fix e w' assume cl: "tq_claimDueJobs (pd_store P) ws l t w = (Inl e, w')"
    then show "?G True w'" using claim_fail [OF cl i] view by metis
  next
    fix js w1 e w' assume "tq_claimDueJobs (pd_store P) ws l t w = (Inr js, w1)"
      "process_jobs P t js no_counts w1 = (Inl e, w')"
    from loop [OF this] show "?G True w'" by simp
  next
    fix js w1 c w2 e w' assume "tq_claimDueJobs (pd_store P) ws l t w = (Inr js, w1)"
      "process_jobs P t js no_counts w1 = (Inr c, w2)"
      and d: "tq_listDeadLetterJobs (pd_store P) ws 20 w2 = (Inl e, w')"
    from loop [OF this(1,2)] deadLetter_ok [OF d] show "?G True w'" by auto
  next
    fix js w1 c w2 dl w3 x y w' assume "tq_claimDueJobs (pd_store P) ws l t w = (Inr js, w1)"
      "process_jobs P t js no_counts w1 = (Inr c, w2)"
      and d: "tq_listDeadLetterJobs (pd_store P) ws 20 w2 = (Inr dl, w3)"
      and ret: "io_return x w3 = (Inr y, w')"
    from loop [OF this(1,2)] deadLetter_ok [OF d] ret show "?G False w'" by auto
  qed simp
  with run show ?thesis by (cases r) (auto dest: wp_Inr wp_Inl)
qed

theorem processDueJobs_counts:
  assumes run: "processDueJobs P ws l t w = (Inr res, w')" and i: "inv w"
  shows "qr_claimedJobs res = qr_delivered res + qr_retried res + qr_failed res"
    "qr_deadLettered res \<le> qr_failed res"
    "qr_fallbackResumed res + qr_fallbackSpawned res \<le> qr_delivered res"
    "qr_autoBlocked res \<le> qr_claimedJobs res"
    "0 \<le> l \<Longrightarrow> int (qr_claimedJobs res) \<le> l"
    "\<forall>i\<in>set (qr_deadLetterJobIds res).
       \<exists>j. jobs w' i = Some j \<and> tj_status j = Failed \<and> tj_workspaceId j = ws"
proof -
  from run obtain js w1 c w2 dl w3 where cl: "tq_claimDueJobs (pd_store P) ws l t w = (Inr js, w1)"
    and pr: "process_jobs P t js no_counts w1 = (Inr c, w2)"
    and d: "tq_listDeadLetterJobs (pd_store P) ws 20 w2 = (Inr dl, w3)" and w': "w' = w3"
    and res: "res = \<lparr>qr_workspaceId = ws, qr_processedAt = t, qr_claimedJobs = length js,
       qr_delivered = qc_delivered c, qr_retried = qc_retried c,
       qr_deadLettered = qc_deadLettered c, qr_failed = qc_failed c,
       qr_fallbackResumed = qc_fallbackResumed c, qr_fallbackSpawned = qc_fallbackSpawned c,
       qr_autoBlocked = qc_autoBlocked c, qr_deadLetterJobIds = map tj_triggerId dl\<rparr>"
    unfolding processDueJobs_def by auto
  note facts = claimed_lookup [OF cl i]
  have c: "tally c = length js" "counts_ok c" and w2: "inv w2"
    using process_jobs_effect [OF pr facts(3,1)] facts(4)
    by (auto simp: tally_def counts_ok_def no_counts_def)
  show "qr_claimedJobs res = qr_delivered res + qr_retried res + qr_failed res"
    "qr_deadLettered res \<le> qr_failed res"
    "qr_fallbackResumed res + qr_fallbackSpawned res \<le> qr_delivered res"
    "qr_autoBlocked res \<le> qr_claimedJobs res"
    using c by (simp_all add: res tally_def counts_ok_def)
  show "0 \<le> l \<Longrightarrow> int (qr_claimedJobs res) \<le> l"
    using claim_ok [OF cl i] by (auto simp: res)
  show "\<forall>i\<in>set (qr_deadLetterJobIds res).
       \<exists>j. jobs w' i = Some j \<and> tj_status j = Failed \<and> tj_workspaceId j = ws"
    using deadLetter_ok [OF d w2] by (auto simp: res w')
qed

end

section \<open>The life cycle of a job\<close>

inductive job_step :: "trigger_job \<Rightarrow> trigger_job \<Rightarrow> bool" where
  job_claimed: "job_due ws t j \<Longrightarrow> job_step j (claim t j)"
| job_settled: "tj_status j = Triggering \<Longrightarrow> settles j plan \<Longrightarrow>
    job_step j (settle (transition_of j t plan) j)"

abbreviation job_steps :: "trigger_job \<Rightarrow> trigger_job \<Rightarrow> bool" where
  "job_steps \<equiv> job_step\<^sup>*\<^sup>*"

inductive_cases job_stepE: "job_step j j'"

lemma job_step_frame:
  assumes "job_step j j'"
  shows "tj_triggerId j' = tj_triggerId j \<and> tj_threadId j' = tj_threadId j \<and>
    tj_workspaceId j' = tj_workspaceId j \<and> tj_targetAgentId j' = tj_targetAgentId j \<and>
    tj_targetSessionId j' = tj_targetSessionId j \<and> tj_reason j' = tj_reason j \<and>
    tj_prompt j' = tj_prompt j \<and> tj_maxRetries j' = tj_maxRetries j \<and>
    tj_createdAt j' = tj_createdAt j \<and> tj_attempts j \<le> tj_attempts j'"
  using assms by cases (auto simp: claim_def settle_def transition_of_def)

lemma job_steps_frame:
  "job_steps j j' \<Longrightarrow> tj_triggerId j' = tj_triggerId j \<and> tj_threadId j' = tj_threadId j \<and>
    tj_workspaceId j' = tj_workspaceId j \<and> tj_targetAgentId j' = tj_targetAgentId j \<and>
    tj_targetSessionId j' = tj_targetSessionId j \<and> tj_reason j' = tj_reason j \<and>
    tj_prompt j' = tj_prompt j \<and> tj_maxRetries j' = tj_maxRetries j \<and>
    tj_createdAt j' = tj_createdAt j \<and> tj_attempts j \<le> tj_attempts j'"
  by (induction rule: rtranclp_induct) (auto dest!: job_step_frame)

text \<open>A job that waits for another try has retries left, or was deferred.\<close>

lemma job_step_retries:
  assumes "job_step j j'" "tj_status j = Timeout \<longrightarrow> tj_attempts j \<le> tj_maxRetries j"
  shows "tj_status j' = Timeout \<longrightarrow> tj_attempts j' \<le> tj_maxRetries j'"
  using assms by cases (auto simp: claim_def settle_def transition_of_def settles_def)

lemma job_steps_retries:
  "job_steps j j' \<Longrightarrow> tj_status j = Timeout \<longrightarrow> tj_attempts j \<le> tj_maxRetries j \<Longrightarrow>
     tj_status j' = Timeout \<longrightarrow> tj_attempts j' \<le> tj_maxRetries j'"
  by (induction rule: rtranclp_induct) (use job_step_retries in blast)+

lemma job_processed:
  assumes "job_due ws t j" "settles j plan"
  shows "job_steps j (settle (transition_of j t plan) j)"
proof -
  have "job_step (claim t j) (settle (transition_of (claim t j) t plan) (claim t j))"
    using assms(2) by (intro job_settled) simp_all
  with job_claimed [OF assms(1)] show ?thesis by (simp add: converse_rtranclp_into_rtranclp)
qed

text \<open>A series of runs of the processor, each with its workspace, limit and time.\<close>

fun run_ticks :: "'w processor \<Rightarrow> (string \<times> int \<times> int) list \<Rightarrow> 'w \<Rightarrow> 'w" where
  "run_ticks P [] w = w"
| "run_ticks P ((ws, l, t) # ticks) w = run_ticks P ticks (snd (processDueJobs P ws l t w))"

context queue_processor
begin

lemma tick_steps:
  assumes "processDueJobs P ws l t w = (r, w')" "inv w" "jobs w i = Some j"
  shows "\<exists>j'. jobs w' i = Some j' \<and> job_steps j j' \<and>
    (tj_status j \<notin> set DUE_TRIGGER_STATUSES \<longrightarrow> j' = j)"
proof -
  from processDueJobs_effect [OF assms(1,2)] assms(3) consider "jobs w' i = Some j"
    | plan where "job_due ws t j" "settles j plan" "jobs w' i = Some (settle (transition_of j t plan) j)"
    | "job_due ws t j" "jobs w' i = Some (claim t j)"
    by (metis option.inject)
  then show ?thesis
  proof cases
    case 2
    with job_processed show ?thesis by (auto simp: job_due_def)
  next
    case 3
    then show ?thesis using r_into_rtranclp [where r = job_step, OF job_claimed [OF 3(1)]] by (auto simp: job_due_def)
  qed simp
qed

lemma ticks_steps:
  assumes "inv w" "jobs w i = Some j"
  shows "inv (run_ticks P ticks w) \<and> (\<exists>j'. jobs (run_ticks P ticks w) i = Some j' \<and>
    job_steps j j' \<and> (tj_status j \<notin> set DUE_TRIGGER_STATUSES \<longrightarrow> j' = j))"
  using assms
proof (induction ticks arbitrary: w j)
  case (Cons x ticks)
  obtain ws l t where x: "x = (ws, l, t)" by (cases x)
  obtain r w1 where run: "processDueJobs P ws l t w = (r, w1)" by (cases "processDueJobs P ws l t w")
  have w1: "inv w1" using processDueJobs_effect [OF run Cons.prems(1)] by blast
  obtain j1 where j1: "jobs w1 i = Some j1" "job_steps j j1"
    "tj_status j \<notin> set DUE_TRIGGER_STATUSES \<longrightarrow> j1 = j"
    using tick_steps [OF run Cons.prems] by blast
  from Cons.IH [OF w1 j1(1)] j1 show ?case by (auto simp: x run intro: rtranclp_trans)
qed auto

end

end
