(* ===== verification/RuntimeTriggerExecutor.thy ===== *)
theory RuntimeTriggerExecutor
  imports RuntimeRegistry PtyAdapter TriggerQueueSafety
begin

text \<open>
  The executor of a trigger job (\<open>ManagedRuntimeTriggerJobExecutor\<close> of
  \<open>apps/supervisor-worker/src/runtime-trigger-executor.ts\<close>): it looks up the runtime of the
  target, delivers the prompt to it if the runtime may be written to, and says whether the job
  is done, may be tried again or has failed. The times at which a runtime was last busy are its
  state.
\<close>

definition RETRYABLE_DELIVERY_FAILURE_CODES :: "delivery_failure_code list" where
  "RETRYABLE_DELIVERY_FAILURE_CODES = [TARGET_NOT_FOUND, PANE_DEAD, SEND_KEYS_ERROR, OPERATOR_BUSY]"

definition FORCE_OVERRIDE_REASON_PREFIXES :: "string list" where
  "FORCE_OVERRIDE_REASON_PREFIXES = [''human_override:'', ''coordinator_override:'']"

record runtime_safeguards =
  rsg_quietWindowMs :: int
  rsg_recheckMs :: int
  rsg_maxDeferMs :: int

definition DEFAULT_RUNTIME_TRIGGER_SAFEGUARDS :: runtime_safeguards where
  "DEFAULT_RUNTIME_TRIGGER_SAFEGUARDS =
     \<lparr>rsg_quietWindowMs = 20000, rsg_recheckMs = 5000, rsg_maxDeferMs = 60000\<rparr>"

type_synonym busy_map = "(string, int) js_map"

record 'w managed_executor =
  mx_registry :: "'w runtime_store"
  mx_ptyAdapter :: "'w pty_adapter"
  mx_safeguards :: runtime_safeguards
  mx_lastBusyAt :: "('w, busy_map) cell"

fun management_text :: "management_mode \<Rightarrow> string" where
  "management_text Managed = ''managed''"
| "management_text Unmanaged = ''unmanaged''"

fun session_status_text :: "session_status \<Rightarrow> string" where
  "session_status_text SActive = ''active''"
| "session_status_text SIdle = ''idle''"
| "session_status_text SOffline = ''offline''"

definition outcome :: "attempt_result \<Rightarrow> bool \<Rightarrow> string \<Rightarrow> details \<Rightarrow> execution_outcome" where
  "outcome result retryable errorCode details =
     \<lparr>eo_attemptResult = result, eo_retryable = retryable, eo_retryAfterMs = None,
      eo_errorCode = Some errorCode, eo_details = Some details\<rparr>"

definition buildRuntimeSnapshot :: "trigger_job \<Rightarrow> details" where
  "buildRuntimeSnapshot job =
     [(''triggerId'', JString (tj_triggerId job)),
      (''targetAgentId'', JString (tj_targetAgentId job)),
      (''workspaceId'', JString (tj_workspaceId job)),
      (''targetSessionId'',
         case tj_targetSessionId job of None \<Rightarrow> JNull | Some s \<Rightarrow> JString s)]"

text \<open>The checks of the runtime, in their order; \<open>Inl\<close> is the outcome of an early return.\<close>

definition check_runtime :: "trigger_job \<Rightarrow> session option \<Rightarrow> execution_outcome + session" where
  "check_runtime job found =
     (case found of
        None \<Rightarrow> Inl (outcome AFailed False ''RUNTIME_NOT_FOUND'' (buildRuntimeSnapshot job))
      | Some runtime \<Rightarrow>
          if tj_targetSessionId job \<noteq> None \<and> Some (se_sessionId runtime) \<noteq> tj_targetSessionId job
          then Inl (outcome AFailed False ''RUNTIME_SESSION_MISMATCH''
                 (buildRuntimeSnapshot job @ [(''runtimeSessionId'', JString (se_sessionId runtime))]))
          else if se_managementMode runtime \<noteq> Managed
          then Inl (outcome AFailed False ''RUNTIME_UNMANAGED''
                 (buildRuntimeSnapshot job @
                  [(''managementMode'', JString (management_text (se_managementMode runtime)))]))
          else if se_status runtime = SOffline
          then Inl (outcome ATimeout True ''RUNTIME_OFFLINE''
                 (buildRuntimeSnapshot job @
                  [(''status'', JString (session_status_text (se_status runtime)))]))
          else Inr runtime)"

definition busy_key :: "session \<Rightarrow> string" where
  "busy_key runtime =
     se_workspaceId runtime @ '':'' @ se_agentId runtime @ '':'' @ se_runtime runtime"

definition forces_override :: "trigger_job \<Rightarrow> bool" where
  "forces_override job \<longleftrightarrow> list_ex (starts_with (tj_reason job)) FORCE_OVERRIDE_REASON_PREFIXES"

definition json_ms :: "int \<Rightarrow> json" where
  "json_ms n = JNumber (js_int n)"

definition delivery_entry :: "details option \<Rightarrow> details" where
  "delivery_entry d = (case d of None \<Rightarrow> [] | Some kvs \<Rightarrow> [(''delivery'', JObject kvs)])"

text \<open>The quiet window after a busy runtime: the outcome of the early return, if there is one.\<close>

definition quiet_window ::
  "runtime_safeguards \<Rightarrow> trigger_job \<Rightarrow> session \<Rightarrow> int \<Rightarrow> busy_map \<Rightarrow> execution_outcome option" where
  "quiet_window G job runtime now busy =
     (case js_get busy (busy_key runtime) of
        None \<Rightarrow> None
      | Some lastBusyAt \<Rightarrow>
          if \<not> forces_override job \<and> now - lastBusyAt < rsg_quietWindowMs G
          then
            let deferredMs = now - tj_createdAt job
            in if rsg_maxDeferMs G \<le> deferredMs
               then Some (outcome ATimeout False ''DEFER_TIMEOUT''
                      [(''runtime'', JString (se_runtime runtime)), (''deferredMs'', json_ms deferredMs),
                       (''maxDeferMs'', json_ms (rsg_maxDeferMs G))])
               else Some ((outcome ADeferred True ''OPERATOR_BUSY''
                      [(''runtime'', JString (se_runtime runtime)),
                       (''quietWindowMs'', json_ms (rsg_quietWindowMs G))])
                      \<lparr>eo_retryAfterMs := Some (rsg_recheckMs G)\<rparr>)
          else None)"

text \<open>What follows a delivery: the outcome and the new times of the busy runtimes.\<close>

definition after_delivery ::
  "runtime_safeguards \<Rightarrow> trigger_job \<Rightarrow> session \<Rightarrow> int \<Rightarrow> delivery_result \<Rightarrow> busy_map \<Rightarrow>
     execution_outcome \<times> busy_map" where
  "after_delivery G job runtime now delivery busy =
     (case delivery of
        DeliverySuccess details \<Rightarrow>
          (\<lparr>eo_attemptResult = ADelivered, eo_retryable = False, eo_retryAfterMs = None,
            eo_errorCode = None, eo_details = details\<rparr>, js_delete (busy_key runtime) busy)
      | DeliveryFailure errorCode details \<Rightarrow>
          if errorCode = OPERATOR_BUSY
          then
            let deferredMs = now - tj_createdAt job;
                busy' = js_set (busy_key runtime) now busy
            in if rsg_maxDeferMs G \<le> deferredMs
               then (outcome ATimeout False ''DEFER_TIMEOUT''
                       ([(''runtime'', JString (se_runtime runtime)),
                         (''deferredMs'', json_ms deferredMs),
                         (''maxDeferMs'', json_ms (rsg_maxDeferMs G))] @ delivery_entry details), busy')
               else ((outcome ADeferred True (delivery_code_text errorCode)
                       ([(''runtime'', JString (se_runtime runtime)),
                         (''deferredMs'', json_ms deferredMs),
                         (''quietWindowMs'', json_ms (rsg_quietWindowMs G)),
                         (''maxDeferMs'', json_ms (rsg_maxDeferMs G))] @ delivery_entry details))
                       \<lparr>eo_retryAfterMs := Some (rsg_recheckMs G)\<rparr>, busy')
          else
            (\<lparr>eo_attemptResult =
                (if errorCode \<in> set RETRYABLE_DELIVERY_FAILURE_CODES then ATimeout else AFailed),
              eo_retryable = (errorCode \<in> set RETRYABLE_DELIVERY_FAILURE_CODES),
              eo_retryAfterMs = None, eo_errorCode = Some (delivery_code_text errorCode),
              eo_details = details\<rparr>, busy))"

definition managed_execute :: "'w managed_executor \<Rightarrow> 'w job_executor" where
  "managed_execute M job attemptNo now =
     io_bind (rs_getRuntime (mx_registry M) (tj_targetAgentId job) (tj_workspaceId job)) (\<lambda>found.
     case check_runtime job found of
       Inl early \<Rightarrow> io_return early
     | Inr runtime \<Rightarrow>
         io_bind (io_cell (mx_lastBusyAt M)
             (io_pure (\<lambda>busy. (quiet_window (mx_safeguards M) job runtime now busy, busy)))) (\<lambda>quiet.
         case quiet of
           Some early \<Rightarrow> io_return early
         | None \<Rightarrow>
             io_bind (mx_ptyAdapter M
                 \<lparr>dq_runtime = runtime, dq_triggerId = tj_triggerId job,
                  dq_threadId = tj_threadId job, dq_reason = tj_reason job,
                  dq_prompt = tj_prompt job, dq_forceOverride = forces_override job\<rparr>) (\<lambda>delivery.
               io_cell (mx_lastBusyAt M)
                 (io_pure (after_delivery (mx_safeguards M) job runtime now delivery)))))"

section \<open>What an execution reports\<close>

lemma check_runtime_Inr:
  "check_runtime job found = Inr runtime \<longleftrightarrow> found = Some runtime \<and>
     (\<forall>s. tj_targetSessionId job = Some s \<longrightarrow> se_sessionId runtime = s) \<and>
     se_managementMode runtime = Managed \<and> se_status runtime \<noteq> SOffline"
  by (auto simp: check_runtime_def split: option.splits if_split_asm)

lemma outcome_simps [simp]:
  "eo_attemptResult (outcome a r c d) = a" "eo_retryable (outcome a r c d) = r"
  "eo_errorCode (outcome a r c d) = Some c" "eo_retryAfterMs (outcome a r c d) = None"
  by (simp_all add: outcome_def)

lemma check_runtime_Inl:
  "check_runtime job found = Inl o' \<Longrightarrow>
     outcome_ok o' \<and> eo_attemptResult o' \<in> {AFailed, ATimeout} \<and>
     (eo_retryable o' \<longleftrightarrow> eo_attemptResult o' = ATimeout)"
  by (auto simp: check_runtime_def outcome_ok_def split: option.split_asm if_split_asm)

lemma quiet_window_ok:
  "quiet_window G job runtime now busy = Some o' \<Longrightarrow>
     outcome_ok o' \<and> eo_attemptResult o' \<in> {ADeferred, ATimeout} \<and> \<not> forces_override job"
  by (auto simp: quiet_window_def outcome_ok_def Let_def split: option.split_asm if_split_asm)

lemma after_delivery_ok:
  "after_delivery G job runtime now d busy = (o', busy') \<Longrightarrow> outcome_ok o' \<and>
     (eo_attemptResult o' = ADelivered \<longleftrightarrow> (\<exists>x. d = DeliverySuccess x))"
  by (auto simp: after_delivery_def outcome_ok_def Let_def RETRYABLE_DELIVERY_FAILURE_CODES_def
      split: delivery_result.split_asm if_split_asm)

lemma managed_ok:
  assumes "managed_execute M job n now w = (Inr o', w')"
  shows "outcome_ok o'"
proof -
  note any = wp_any [where m = "rs_getRuntime S a b" for S a b] wp_any [where m = "mx_ptyAdapter M q" for M q]
  have "wp (managed_execute M job n now) (\<lambda>o' _. outcome_ok o') (\<lambda>_ _. True) w"
    unfolding managed_execute_def
    by (intro wp_rules any) (auto dest: check_runtime_Inl quiet_window_ok after_delivery_ok)
  from wp_Inr [OF this assms] show ?thesis .
qed

text \<open>
  A job is reported as delivered only when the runtime that is registered for its target was
  given the prompt, and that runtime is managed, not offline, and the one the job names.
\<close>

theorem managed_delivered:
  assumes "managed_execute M job n now w = (Inr o', w')" "eo_attemptResult o' = ADelivered"
  shows "\<exists>runtime w1 w2 d w3.
    rs_getRuntime (mx_registry M) (tj_targetAgentId job) (tj_workspaceId job) w = (Inr (Some runtime), w1) \<and>
    (\<forall>s. tj_targetSessionId job = Some s \<longrightarrow> se_sessionId runtime = s) \<and>
    se_managementMode runtime = Managed \<and> se_status runtime \<noteq> SOffline \<and>
    mx_ptyAdapter M
      \<lparr>dq_runtime = runtime, dq_triggerId = tj_triggerId job, dq_threadId = tj_threadId job,
       dq_reason = tj_reason job, dq_prompt = tj_prompt job, dq_forceOverride = forces_override job\<rparr>
      w2 = (Inr (DeliverySuccess d), w3)"
proof -
  from assms(1) obtain found w1 where
    get: "rs_getRuntime (mx_registry M) (tj_targetAgentId job) (tj_workspaceId job) w = (Inr found, w1)"
    and rest: "(case check_runtime job found of Inl early \<Rightarrow> io_return early
     | Inr runtime \<Rightarrow>
         io_bind (io_cell (mx_lastBusyAt M)
             (io_pure (\<lambda>busy. (quiet_window (mx_safeguards M) job runtime now busy, busy)))) (\<lambda>quiet.
         case quiet of
           Some early \<Rightarrow> io_return early
         | None \<Rightarrow>
             io_bind (mx_ptyAdapter M
                 \<lparr>dq_runtime = runtime, dq_triggerId = tj_triggerId job,
                  dq_threadId = tj_threadId job, dq_reason = tj_reason job,
                  dq_prompt = tj_prompt job, dq_forceOverride = forces_override job\<rparr>) (\<lambda>delivery.
               io_cell (mx_lastBusyAt M)
                 (io_pure (after_delivery (mx_safeguards M) job runtime now delivery))))) w1 = (Inr o', w')"
    unfolding managed_execute_def by auto
  show ?thesis
  proof (cases "check_runtime job found")
    case (Inl early)
    with rest assms(2) check_runtime_Inl [OF Inl] show ?thesis by auto
  next
    case (Inr runtime)
    note run = Inr [unfolded check_runtime_Inr]
    from rest [unfolded Inr] assms(2) obtain w2 d w3 where
      "mx_ptyAdapter M
      \<lparr>dq_runtime = runtime, dq_triggerId = tj_triggerId job, dq_threadId = tj_threadId job,
       dq_reason = tj_reason job, dq_prompt = tj_prompt job, dq_forceOverride = forces_override job\<rparr>
      w2 = (Inr d, w3)" "\<exists>x. d = DeliverySuccess x"
      by (auto simp: io_cell_iff split: option.split_asm dest: quiet_window_ok after_delivery_ok)
    with get run show ?thesis by blast
  qed
qed

end
