(* ===== verification/TmuxAdapter.thy ===== *)
theory TmuxAdapter
  imports PtyAdapter "HOL-Library.Sublist"
begin

text \<open>
  Delivery into a tmux pane (\<open>apps/supervisor-worker/src/tmux-adapter.ts\<close>). Running a command
  is a parameter, as the class takes a \<open>CommandExecutor\<close>; \<open>NodeCommandExecutor\<close>, which spawns
  a process, is not modelled. To state what a delivery does, the locale \<open>command_trace\<close> takes a
  view of the world that lists the commands that were run.
\<close>

section \<open>The adapter\<close>

record shell_command =
  sc_command :: string
  sc_args :: "string list"

record command_result =
  cr_exitCode :: int
  cr_stdout :: string
  cr_stderr :: string

type_synonym 'w command_executor = "shell_command \<Rightarrow> ('w, exn, command_result) io"

definition toFailure :: "delivery_failure_code \<Rightarrow> details option \<Rightarrow> delivery_result" where
  "toFailure errorCode details = DeliveryFailure errorCode details"

text \<open>\<open>value.replace(/\n$/, "").split("\n")\<close>\<close>

definition splitLines :: "string \<Rightarrow> string list" where
  "splitLines value =
     split_on LF (if value \<noteq> [] \<and> last value = LF then butlast value else value)"

definition livenessProbeTemplate :: string where
  "livenessProbeTemplate = ''#{pane_dead}|#{pane_pid}|#{pane_current_command}''"

definition activityProbeTemplate :: string where
  "activityProbeTemplate = ''#{session_attached}|#{pane_active}''"

definition resolveTmuxTargetFromRuntime :: "string \<Rightarrow> string option" where
  "resolveTmuxTargetFromRuntime runtime =
     (let trimmed = trim runtime
      in if starts_with trimmed ''tmux://''
         then (let target = trim (drop (length ''tmux://'') trimmed)
               in if length target = 0 then None else Some target)
         else if starts_with trimmed ''tmux:''
         then (let target = trim (drop (length ''tmux:'') trimmed)
               in if length target = 0 then None else Some target)
         else if CHR '':'' \<in> set trimmed \<and> CHR ''.'' \<in> set trimmed then Some trimmed
         else None)"

definition send_text :: "string \<Rightarrow> string \<Rightarrow> shell_command" where
  "send_text target line =
     \<lparr>sc_command = ''tmux'', sc_args = [''send-keys'', ''-t'', target, ''-l'', line]\<rparr>"

definition send_enter :: "string \<Rightarrow> shell_command" where
  "send_enter target = \<lparr>sc_command = ''tmux'', sc_args = [''send-keys'', ''-t'', target, ''C-m'']\<rparr>"

definition probe_command :: "string \<Rightarrow> string \<Rightarrow> shell_command" where
  "probe_command target template =
     \<lparr>sc_command = ''tmux'', sc_args = [''display-message'', ''-p'', ''-t'', target, template]\<rparr>"

definition sendLiteralLine ::
  "'w command_executor \<Rightarrow> string \<Rightarrow> string \<Rightarrow> ('w, exn, bool) io" where
  "sendLiteralLine X target line =
     io_bind (X (send_text target line)) (\<lambda>sendText.
     if cr_exitCode sendText \<noteq> 0 then io_return False
     else io_bind (X (send_enter target)) (\<lambda>sendEnter. io_return (cr_exitCode sendEnter = 0)))"

fun send_lines :: "'w command_executor \<Rightarrow> string \<Rightarrow> string list \<Rightarrow> ('w, exn, delivery_result) io" where
  "send_lines X target [] = io_return (DeliverySuccess (Some [(''target'', JString target)]))"
| "send_lines X target (line # rest) =
     io_bind (sendLiteralLine X target line) (\<lambda>deliveredLine.
     if \<not> deliveredLine
     then io_return (toFailure SEND_KEYS_ERROR (Some [(''target'', JString target)]))
     else send_lines X target rest)"

text \<open>Field \<open>n\<close> of the first line of a probe's output, if it is there.\<close>

definition probe_field :: "string \<Rightarrow> nat \<Rightarrow> string option" where
  "probe_field stdout n =
     (let fields = split_on (CHR ''|'') (hd (splitLines stdout))
      in if n < length fields then Some (fields ! n) else None)"

definition or_null :: "string option \<Rightarrow> json" where
  "or_null v = (case v of None \<Rightarrow> JNull | Some s \<Rightarrow> JString s)"

definition deliver :: "'w command_executor \<Rightarrow> int option \<Rightarrow> 'w pty_adapter" where
  "deliver X maxPayloadBytes input =
     (case resolveTmuxTargetFromRuntime (se_runtime (dq_runtime input)) of
        None \<Rightarrow> io_return (toFailure UNSUPPORTED_RUNTIME
                  (Some [(''runtime'', JString (se_runtime (dq_runtime input)))]))
      | Some target \<Rightarrow>
     (case prepareTriggerPayload (dq_triggerId input) (dq_threadId input) (dq_reason input)
             (dq_prompt input) maxPayloadBytes of
        PayloadBad errorCode details \<Rightarrow> io_return (toFailure (PayloadError errorCode) details)
      | PayloadOk payload \<Rightarrow>
     io_bind (X (probe_command target livenessProbeTemplate)) (\<lambda>probe.
     if cr_exitCode probe \<noteq> 0
     then io_return (toFailure TARGET_NOT_FOUND
            (Some [(''target'', JString target), (''stderr'', JString (trim (cr_stderr probe)))]))
     else if probe_field (cr_stdout probe) 0 = Some ''1''
     then io_return (toFailure PANE_DEAD
            (Some [(''target'', JString target),
                   (''panePid'', or_null (probe_field (cr_stdout probe) 1)),
                   (''paneCommand'', or_null (probe_field (cr_stdout probe) 2))]))
     else if \<not> dq_forceOverride input
     then
       io_bind (X (probe_command target activityProbeTemplate)) (\<lambda>activityProbe.
       if cr_exitCode activityProbe = 0 \<and>
          probe_field (cr_stdout activityProbe) 0 = Some ''1'' \<and>
          probe_field (cr_stdout activityProbe) 1 = Some ''1''
       then io_return (toFailure OPERATOR_BUSY
              (Some [(''target'', JString target), (''sessionAttached'', JString ''1''),
                     (''paneActive'', JString ''1'')]))
       else send_lines X target (pp_envelopeLines payload))
     else send_lines X target (pp_envelopeLines payload))))"

section \<open>The commands a delivery runs\<close>

text \<open>The commands that \<open>m\<close> adds to the trace, with what it returns or throws, satisfy \<open>S\<close>.\<close>

definition runs ::
  "('w \<Rightarrow> shell_command list) \<Rightarrow> ('w, exn, 'a) io \<Rightarrow> (shell_command list \<Rightarrow> exn + 'a \<Rightarrow> bool) \<Rightarrow> bool"
  where "runs tr m S \<longleftrightarrow> (\<forall>w r w'. m w = (r, w') \<longrightarrow> (\<exists>cs. tr w' = tr w @ cs \<and> S cs r))"

lemma runsD: "runs tr m S \<Longrightarrow> m w = (r, w') \<Longrightarrow> \<exists>cs. tr w' = tr w @ cs \<and> S cs r"
  unfolding runs_def by blast

lemma runs_mono: "runs tr m S \<Longrightarrow> (\<And>cs r. S cs r \<Longrightarrow> T cs r) \<Longrightarrow> runs tr m T"
  unfolding runs_def by blast

lemma runs_return: "S [] (Inr a) \<Longrightarrow> runs tr (io_return a) S"
  by (auto simp: runs_def)

lemma runs_lift: "(\<And>r. S [] r) \<Longrightarrow> runs tr (io_lift m) S"
  by (auto simp: runs_def)

lemma runs_bind:
  assumes "runs tr m S" "\<And>a bs. S bs (Inr a) \<Longrightarrow> runs tr (f a) (\<lambda>cs r. T (bs @ cs) r)"
    "\<And>bs e. S bs (Inl e) \<Longrightarrow> T bs (Inl e)"
  shows "runs tr (io_bind m f) T"
  unfolding runs_def
proof (intro allI impI)
  fix w r w' assume "io_bind m f w = (r, w')"
  then show "\<exists>cs. tr w' = tr w @ cs \<and> T cs r"
    unfolding io_bind_iff
  proof (elim disjE exE conjE)
    fix e assume "m w = (Inl e, w')" "r = Inl e"
    with runsD [OF assms(1)] assms(3) show ?thesis by metis
  next
    fix a u assume m: "m w = (Inr a, u)" and f: "f a u = (r, w')"
    obtain bs where bs: "tr u = tr w @ bs" "S bs (Inr a)" using runsD [OF assms(1) m] by blast
    with runsD [OF assms(2) [OF bs(2)] f] show ?thesis by auto
  qed
qed

definition line_commands :: "string \<Rightarrow> string \<Rightarrow> shell_command list" where
  "line_commands target line = [send_text target line, send_enter target]"

text \<open>The probes that come before the first line, and the lines.\<close>

definition probes :: "string \<Rightarrow> bool \<Rightarrow> shell_command list" where
  "probes target force = probe_command target livenessProbeTemplate #
     (if force then [] else [probe_command target activityProbeTemplate])"

definition typed :: "string \<Rightarrow> prepared_payload \<Rightarrow> shell_command list" where
  "typed target payload = concat (map (line_commands target) (pp_envelopeLines payload))"

locale command_trace =
  fixes X :: "'w command_executor" and tr :: "'w \<Rightarrow> shell_command list"
  assumes traced: "X c w = (r, w') \<Longrightarrow> tr w' = tr w @ [c]"
begin

lemma runs_command: "runs tr (X c) (\<lambda>cs r. cs = [c])"
  by (auto simp: runs_def dest: traced)

lemma runs_line:
  "runs tr (sendLiteralLine X target line) (\<lambda>cs r. prefix cs (line_commands target line) \<and>
     (r = Inr True \<longrightarrow> cs = line_commands target line))"
  unfolding sendLiteralLine_def line_commands_def
  by (rule runs_bind [OF runs_command])
    (auto intro!: runs_return runs_bind [OF runs_command])

text \<open>
  Lines are typed in order, each followed by return; if a command fails the rest is not typed.
\<close>

lemma runs_lines:
  "runs tr (send_lines X target ls) (\<lambda>cs r.
     prefix cs (concat (map (line_commands target) ls)) \<and>
     (\<forall>d. r = Inr (DeliverySuccess d) \<longrightarrow> cs = concat (map (line_commands target) ls)) \<and>
     (\<forall>c d. r = Inr (DeliveryFailure c d) \<longrightarrow> c = SEND_KEYS_ERROR))"
proof (induction ls)
  case Nil
  show ?case unfolding send_lines.simps by (rule runs_return) simp
next
  case (Cons l ls)
  show ?case
    unfolding send_lines.simps
  proof (rule runs_bind [OF runs_line], goal_cases)
    case (1 ok bs)
    then show ?case
      by (cases ok) (auto intro!: runs_return runs_mono [OF Cons.IH] simp: toFailure_def
          intro: prefix_order.trans)
  next
    case (2 bs e)
    then show ?case by (auto intro: prefix_order.trans)
  qed
qed

lemma runs_deliver:
  assumes t: "resolveTmuxTargetFromRuntime (se_runtime (dq_runtime q)) = Some target"
    and p: "prepareTriggerPayload (dq_triggerId q) (dq_threadId q) (dq_reason q) (dq_prompt q) m =
      PayloadOk payload"
  shows "runs tr (deliver X m q) (\<lambda>cs r.
     prefix cs (probes target (dq_forceOverride q) @ typed target payload) \<and>
     (\<forall>d. r = Inr (DeliverySuccess d) \<longrightarrow>
        cs = probes target (dq_forceOverride q) @ typed target payload) \<and>
     (\<forall>c d. r = Inr (DeliveryFailure c d) \<longrightarrow>
        c \<in> {TARGET_NOT_FOUND, PANE_DEAD, OPERATOR_BUSY, SEND_KEYS_ERROR} \<and>
        (c \<noteq> SEND_KEYS_ERROR \<longrightarrow> prefix cs (probes target (dq_forceOverride q))) \<and>
        (c = OPERATOR_BUSY \<longrightarrow> \<not> dq_forceOverride q)))"
    (is "runs _ _ ?S")
proof -
  have lines: "runs tr (send_lines X target (pp_envelopeLines payload))
      (\<lambda>cs r. ?S (probes target (dq_forceOverride q) @ cs) r)"
    by (rule runs_mono [OF runs_lines]) (auto simp: typed_def)
  show ?thesis
    unfolding deliver_def t p option.case payload_result.case
  proof (rule runs_bind [OF runs_command], goal_cases)
    case (1 probe bs)
    show ?case
    proof (cases "dq_forceOverride q")
      case True
      then show ?thesis
        using lines 1 by (auto intro!: runs_return simp: probes_def toFailure_def)
    next
      case False
      have "runs tr (io_bind (X (probe_command target activityProbeTemplate)) (\<lambda>activityProbe.
           if cr_exitCode activityProbe = 0 \<and>
              probe_field (cr_stdout activityProbe) 0 = Some ''1'' \<and>
              probe_field (cr_stdout activityProbe) 1 = Some ''1''
           then io_return (toFailure OPERATOR_BUSY
              (Some [(''target'', JString target), (''sessionAttached'', JString ''1''),
                     (''paneActive'', JString ''1'')]))
           else send_lines X target (pp_envelopeLines payload)))
         (\<lambda>cs r. ?S (probe_command target livenessProbeTemplate # cs) r)"
        by (rule runs_bind [OF runs_command])
          (use lines False in \<open>auto intro!: runs_return simp: probes_def toFailure_def\<close>)
      with False 1 show ?thesis
        by (auto intro!: runs_return simp: probes_def toFailure_def)
    qed
  next
    case (2 bs e)
    then show ?case by (auto simp: probes_def)
  qed
qed

text \<open>Without a target or a payload nothing is run.\<close>

lemma deliver_refused:
  assumes "resolveTmuxTargetFromRuntime (se_runtime (dq_runtime q)) = None \<or>
    prepareTriggerPayload (dq_triggerId q) (dq_threadId q) (dq_reason q) (dq_prompt q) m =
      PayloadBad c d"
  shows "runs tr (deliver X m q) (\<lambda>cs r. cs = [] \<and> (\<exists>c d. r = Inr (DeliveryFailure c d)))"
  using assms unfolding deliver_def
  by (auto simp: toFailure_def split: option.split intro!: runs_return)

end

end
