(* ===== verification/RuntimeFallback.thy ===== *)
theory RuntimeFallback
  imports RuntimeRegistry TmuxAdapter TriggerQueueSafety
begin

text \<open>
  The fallback of a trigger that could not be delivered (\<open>CodexFallbackExecutor\<close> of
  \<open>apps/supervisor-worker/src/runtime-fallback.ts\<close>): resume the session the job names with a
  bounded number of attempts, else spawn a new one. The times of the failed resumptions of each
  agent are its state.
\<close>

record codex_config =
  cf_resumeMaxAttempts :: int
  cf_staleAfterHours :: js_number
  cf_crashLoopThreshold :: int
  cf_crashLoopWindowMs :: int

definition DEFAULT_CODEX_FALLBACK_CONFIG :: codex_config where
  "DEFAULT_CODEX_FALLBACK_CONFIG =
     \<lparr>cf_resumeMaxAttempts = 2, cf_staleAfterHours = js_int 12, cf_crashLoopThreshold = 3,
      cf_crashLoopWindowMs = 15 * 60 * 1000\<rparr>"

type_synonym failure_map = "(string, int list) js_map"

record 'w codex_fallback =
  cx_registry :: "'w runtime_store"
  cx_commandExecutor :: "'w command_executor"
  cx_config :: codex_config
  cx_failures :: "('w, failure_map) cell"

definition failure_key :: "trigger_job \<Rightarrow> string" where
  "failure_key job = tj_workspaceId job @ '':'' @ tj_targetAgentId job"

definition failures_of :: "failure_map \<Rightarrow> string \<Rightarrow> int list" where
  "failures_of m key = (case js_get m key of None \<Rightarrow> [] | Some fs \<Rightarrow> fs)"

text \<open>The failures of the agent within the window; the older ones are dropped.\<close>

definition prune_failures :: "codex_config \<Rightarrow> trigger_job \<Rightarrow> int \<Rightarrow> failure_map \<Rightarrow> int list \<times> failure_map" where
  "prune_failures F job now m =
     (let windowStart = now - cf_crashLoopWindowMs F;
          recentFailures = filter (\<lambda>t. windowStart \<le> t) (failures_of m (failure_key job))
      in (recentFailures, js_set (failure_key job) recentFailures m))"

text \<open>The result is the reason; the resumption may be tried if it is \<open>OK\<close>.\<close>

definition canAttemptResume :: "'w codex_fallback \<Rightarrow> trigger_job \<Rightarrow> int \<Rightarrow> ('w, exn, bool \<times> string) io" where
  "canAttemptResume F job now =
     io_bind (rs_getRuntime (cx_registry F) (tj_targetAgentId job) (tj_workspaceId job)) (\<lambda>found.
     case tj_targetSessionId job of
       None \<Rightarrow> io_return (False, ''NO_TARGET_SESSION'')
     | Some targetSessionId \<Rightarrow>
     (case found of
        None \<Rightarrow> io_return (False, ''RUNTIME_NOT_FOUND'')
      | Some runtime \<Rightarrow>
          if se_sessionId runtime \<noteq> targetSessionId
          then io_return (False, ''RUNTIME_SESSION_MISMATCH'')
          else
            io_bind (io_lift (map_exn DomainExn (isSessionStale runtime
                (cf_staleAfterHours (cx_config F)) (At now)))) (\<lambda>stale.
            if stale then io_return (False, ''SESSION_STALE'')
            else
              io_bind (io_cell (cx_failures F) (io_pure (prune_failures (cx_config F) job now)))
                (\<lambda>recentFailures.
                if cf_crashLoopThreshold (cx_config F) \<le> int (length recentFailures)
                then io_return (False, ''CRASH_LOOP_SHORTCUT'')
                else io_return (True, ''OK'')))))"

definition recordResumeFailure :: "'w codex_fallback \<Rightarrow> trigger_job \<Rightarrow> int \<Rightarrow> ('w, exn, unit) io" where
  "recordResumeFailure F job now =
     io_cell (cx_failures F) (io_pure (\<lambda>m.
       ((), js_set (failure_key job) (failures_of m (failure_key job) @ [now]) m)))"

definition spawn_command :: "trigger_job \<Rightarrow> shell_command" where
  "spawn_command job =
     \<lparr>sc_command = ''codex'',
      sc_args = [''exec'', ''[THREAD_SUMMARY thread='' @ tj_threadId job @ ''] '' @ tj_prompt job]\<rparr>"

definition resume_command :: "string \<Rightarrow> trigger_job \<Rightarrow> shell_command" where
  "resume_command targetSessionId job =
     \<lparr>sc_command = ''codex'', sc_args = [''exec'', ''resume'', targetSessionId, tj_prompt job]\<rparr>"

definition runSpawn :: "'w codex_fallback \<Rightarrow> trigger_job \<Rightarrow> ('w, exn, fallback_outcome) io" where
  "runSpawn F job =
     io_bind (cx_commandExecutor F (spawn_command job)) (\<lambda>spawnResult.
     io_return
       (if cr_exitCode spawnResult = 0
        then \<lparr>fo_attemptResult = Spawned, fo_nextStatus = FallbackSpawn, fo_errorCode = None,
              fo_details = Some [(''command'', JString ''codex exec <thread_summary_prompt>'')]\<rparr>
        else \<lparr>fo_attemptResult = ResumeFailed, fo_nextStatus = Failed,
              fo_errorCode = Some ''FALLBACK_SPAWN_FAILED'',
              fo_details = Some
                [(''exitCode'', JNumber (js_int (cr_exitCode spawnResult))),
                 (''stderr'', JString (trim (cr_stderr spawnResult)))]\<rparr>))"

text \<open>
  The loop over the attempts to resume, from number \<open>k\<close> with \<open>n\<close> left; it gives nothing when
  all of them failed.
\<close>

fun resume_attempts ::
  "'w codex_fallback \<Rightarrow> trigger_job \<Rightarrow> string \<Rightarrow> int \<Rightarrow> int \<Rightarrow> nat \<Rightarrow> ('w, exn, fallback_outcome option) io"
where
  "resume_attempts F job targetSessionId now k 0 = io_return None"
| "resume_attempts F job targetSessionId now k (Suc n) =
     io_bind (cx_commandExecutor F (resume_command targetSessionId job)) (\<lambda>resumeResult.
     if cr_exitCode resumeResult = 0
     then io_return (Some
       \<lparr>fo_attemptResult = ResumeSucceeded, fo_nextStatus = FallbackResume, fo_errorCode = None,
        fo_details = Some
          [(''resumeAttempt'', JNumber (js_int k)),
           (''resumeMaxAttempts'', JNumber (js_int (cf_resumeMaxAttempts (cx_config F))))]\<rparr>)
     else
       io_bind (recordResumeFailure F job now) (\<lambda>_.
         resume_attempts F job targetSessionId now (k + 1) n))"

definition details_of :: "fallback_outcome \<Rightarrow> details" where
  "details_of f = (case fo_details f of None \<Rightarrow> [] | Some d \<Rightarrow> d)"

definition spawn_fallback ::
  "'w codex_fallback \<Rightarrow> trigger_job \<Rightarrow> execution_outcome \<Rightarrow> string \<Rightarrow> ('w, exn, fallback_outcome) io" where
  "spawn_fallback F job initialOutcome reason =
     io_bind (runSpawn F job) (\<lambda>spawnOutcome.
     io_return (spawnOutcome\<lparr>fo_details := Some
       ([(''resumeSkippedReason'', JString reason)] @ details_of spawnOutcome @
        (if fo_attemptResult spawnOutcome = Spawned then []
         else case eo_errorCode initialOutcome of None \<Rightarrow> []
              | Some c \<Rightarrow> [(''initialErrorCode'', JString c)]))\<rparr>))"

definition codex_execute :: "'w codex_fallback \<Rightarrow> 'w fallback_executor" where
  "codex_execute F job attemptNo initialOutcome now =
     io_bind (canAttemptResume F job now) (\<lambda>(canResume, reason).
     if canResume
     then
       (case tj_targetSessionId job of
          None \<Rightarrow> runSpawn F job
        | Some targetSessionId \<Rightarrow>
            io_bind (resume_attempts F job targetSessionId now 1
                (nat (cf_resumeMaxAttempts (cx_config F)))) (\<lambda>resumed.
            case resumed of
              Some result \<Rightarrow> io_return result
            | None \<Rightarrow> spawn_fallback F job initialOutcome reason))
     else spawn_fallback F job initialOutcome reason)"

section \<open>What a fallback does\<close>

lemma runSpawn_ok: "runSpawn F job w = (Inr f, w') \<Longrightarrow> fallback_ok f"
  by (auto simp: runSpawn_def fallback_ok_def)

lemma resume_ok: "resume_attempts F job s now k n w = (Inr (Some f), w') \<Longrightarrow> fallback_ok f"
  by (induction n arbitrary: k w) (auto simp: fallback_ok_def split: if_split_asm)

lemma fallback_ok_details: "fallback_ok (f\<lparr>fo_details := d\<rparr>) = fallback_ok f"
  by (simp add: fallback_ok_def)

lemma spawn_ok: "spawn_fallback F job i r w = (Inr f, w') \<Longrightarrow> fallback_ok f"
  by (auto simp: spawn_fallback_def fallback_ok_details dest: runSpawn_ok)

lemma codex_ok: "codex_execute F job n i now w = (Inr f, w') \<Longrightarrow> fallback_ok f"
  unfolding codex_execute_def
  by (auto split: prod.split_asm if_split_asm option.split_asm dest: runSpawn_ok resume_ok spawn_ok)

text \<open>A resumption is tried only for the session that is registered for the target, if it is fresh.\<close>

lemma canAttemptResume_True:
  assumes "canAttemptResume F job now w = (Inr (True, reason), w')"
  shows "\<exists>runtime h w1. rs_getRuntime (cx_registry F) (tj_targetAgentId job) (tj_workspaceId job) w =
      (Inr (Some runtime), w1) \<and> tj_targetSessionId job = Some (se_sessionId runtime) \<and>
    cf_staleAfterHours (cx_config F) = js_int h \<and> \<not> stale_at h now runtime \<and> reason = ''OK'' \<and>
    int (length (filter (\<lambda>t. now - cf_crashLoopWindowMs (cx_config F) \<le> t)
      (failures_of (cell_get (cx_failures F) w1) (failure_key job)))) < cf_crashLoopThreshold (cx_config F)"
proof (cases "tj_targetSessionId job")
  case None
  with assms show ?thesis by (auto simp: canAttemptResume_def)
next
  case (Some s)
  from assms obtain found w1 where
    get: "rs_getRuntime (cx_registry F) (tj_targetAgentId job) (tj_workspaceId job) w = (Inr found, w1)"
    unfolding canAttemptResume_def by auto
  with assms Some show ?thesis
    unfolding canAttemptResume_def
      io_bind_run [where m = "rs_getRuntime (cx_registry F) (tj_targetAgentId job) (tj_workspaceId job)", OF get]
    by (cases found) (auto simp: isSessionStale_Inr_iff io_cell_iff prune_failures_def Let_def
        split: if_split_asm)
qed

section \<open>The commands a fallback runs\<close>

text \<open>\<open>k\<close> attempts to resume the session of the job, and then perhaps a new session.\<close>

definition fallback_commands :: "trigger_job \<Rightarrow> nat \<Rightarrow> bool \<Rightarrow> shell_command list" where
  "fallback_commands job k spawned =
     replicate k (resume_command (the (tj_targetSessionId job)) job) @
     (if spawned then [spawn_command job] else [])"

locale traced_fallback = command_trace "cx_commandExecutor F" tr
  for F :: "'w codex_fallback" and tr :: "'w \<Rightarrow> shell_command list" +
  assumes registry_silent: "rs_getRuntime (cx_registry F) a ws w = (g, w') \<Longrightarrow> tr w' = tr w"
    and failures_silent: "tr (cell_put (cx_failures F) s w) = tr w"
begin

lemma runs_spawn:
  "runs tr (runSpawn F job) (\<lambda>cs r. cs = [spawn_command job] \<and>
     (\<forall>f. r = Inr f \<longrightarrow> fo_attemptResult f \<noteq> ResumeSucceeded))"
  unfolding runSpawn_def by (rule runs_bind [OF runs_command]) (auto intro!: runs_return)

lemma runs_spawn_fallback:
  "runs tr (spawn_fallback F job i reason) (\<lambda>cs r. cs = [spawn_command job] \<and>
     (\<forall>f. r = Inr f \<longrightarrow> fo_attemptResult f \<noteq> ResumeSucceeded))"
  unfolding spawn_fallback_def by (rule runs_bind [OF runs_spawn]) (auto intro!: runs_return)

lemma runs_failure: "runs tr (recordResumeFailure F job now) (\<lambda>cs r. cs = [])"
  by (auto simp: runs_def recordResumeFailure_def io_cell_iff failures_silent)

text \<open>The check runs nothing, and allows an attempt only if the job names a session.\<close>

lemma runs_check:
  "runs tr (canAttemptResume F job now) (\<lambda>cs r. cs = [] \<and>
     (\<forall>reason. r = Inr (True, reason) \<longrightarrow> tj_targetSessionId job \<noteq> None))"
proof -
  have "tr w' = tr w" if run: "canAttemptResume F job now w = (r, w')" for w r w'
  proof -
    have get: "wp (rs_getRuntime (cx_registry F) a ws) Q E u"
      if "\<And>g u'. tr u' = tr u \<Longrightarrow> Q g u'" "\<And>e u'. tr u' = tr u \<Longrightarrow> E e u'" for a ws Q E u
      using that by (auto intro!: wpI dest: registry_silent)
    have "wp (canAttemptResume F job now) (\<lambda>_ w'. tr w' = tr w) (\<lambda>_ w'. tr w' = tr w) w"
      unfolding canAttemptResume_def
      by (intro wp_rules get) (auto simp: failures_silent)
    with run show ?thesis by (cases r) (auto simp: wp_def)
  qed
  then show ?thesis unfolding runs_def by (auto dest: canAttemptResume_True)
qed

lemma runs_resume:
  "runs tr (resume_attempts F job s now k n) (\<lambda>cs r.
     \<exists>m\<le>n. cs = replicate m (resume_command s job) \<and>
       (\<forall>f. r = Inr (Some f) \<longrightarrow> fo_attemptResult f = ResumeSucceeded \<and> 0 < m) \<and>
       (r = Inr None \<longrightarrow> m = n))"
proof (induction n arbitrary: k)
  case 0
  show ?case unfolding resume_attempts.simps by (rule runs_return) simp
next
  case (Suc n)
  have retry: "runs tr (io_bind (recordResumeFailure F job now) (\<lambda>_. resume_attempts F job s now (k + 1) n))
     (\<lambda>cs r. \<exists>m\<le>n. cs = replicate m (resume_command s job) \<and>
       (\<forall>f. r = Inr (Some f) \<longrightarrow> fo_attemptResult f = ResumeSucceeded \<and> 0 < m) \<and>
       (r = Inr None \<longrightarrow> m = n))"
    by (rule runs_bind [OF runs_failure]) (use Suc.IH in auto)
  have more: "\<exists>m\<le>Suc n. c # cs = replicate m c \<and> P m"
    if "m \<le> n" "cs = replicate m c" "P (Suc m)" for m cs P and c :: shell_command
    using that by (intro exI [of _ "Suc m"]) simp
  show ?case
    unfolding resume_attempts.simps
  proof (rule runs_bind [OF runs_command], goal_cases)
    case (1 a bs)
    show ?case
    proof (cases "cr_exitCode a = 0")
      case True
      then show ?thesis
        using 1 by (auto intro!: runs_return exI [of _ 1])
    next
      case False
      then show ?thesis
        using 1 by (auto intro!: runs_mono [OF retry] intro: more)
    qed
  next
    case (2 bs e)
    then show ?case by (intro exI [of _ 1]) simp
  qed
qed

text \<open>
  At most \<open>resumeMaxAttempts\<close> attempts to resume and one new session, in that order; the result
  tells which of them ended the fallback.
\<close>

theorem runs_codex:
  "runs tr (codex_execute F job n i now) (\<lambda>cs r.
     \<exists>k spawned. cs = fallback_commands job k spawned \<and>
       k \<le> nat (cf_resumeMaxAttempts (cx_config F)) \<and>
       (0 < k \<longrightarrow> tj_targetSessionId job \<noteq> None) \<and>
       (\<forall>f. r = Inr f \<longrightarrow> (fo_attemptResult f = ResumeSucceeded \<longleftrightarrow> \<not> spawned) \<and>
          (\<not> spawned \<longrightarrow> 0 < k)))"
  (is "runs tr _ ?S")
proof -
  have spawn: "runs tr (spawn_fallback F job i reason) (\<lambda>cs r. ?S (fallback_commands job k False @ cs) r)"
    if "k \<le> nat (cf_resumeMaxAttempts (cx_config F))" "0 < k \<longrightarrow> tj_targetSessionId job \<noteq> None" for k reason
    using that by (intro runs_mono [OF runs_spawn_fallback] exI [of _ k] exI [of _ True])
      (auto simp: fallback_commands_def)
  show ?thesis
    unfolding codex_execute_def
  proof (rule runs_bind [OF runs_check], goal_cases)
    case (1 a bs)
    obtain ok reason where a: "a = (ok, reason)" by (cases a)
    show ?case
    proof (cases ok)
      case False
      with 1 spawn [of 0 reason] show ?thesis by (simp add: a fallback_commands_def)
    next
      case True
      with 1 obtain s where s: "tj_targetSessionId job = Some s" by (auto simp: a)
      have "runs tr (io_bind (resume_attempts F job s now 1 (nat (cf_resumeMaxAttempts (cx_config F))))
          (\<lambda>resumed. case resumed of Some result \<Rightarrow> io_return result
             | None \<Rightarrow> spawn_fallback F job i reason)) ?S"
      proof (rule runs_bind [OF runs_resume], goal_cases)
        case (1 b cs)
        then obtain m where m: "m \<le> nat (cf_resumeMaxAttempts (cx_config F))"
          "cs = fallback_commands job m False"
          "\<forall>f. b = Some f \<longrightarrow> fo_attemptResult f = ResumeSucceeded \<and> 0 < m"
          by (auto simp: fallback_commands_def s)
        show ?case
        proof (cases b)
          case None
          with spawn [OF m(1)] m(2) s show ?thesis by simp
        next
          case (Some f)
          with m s show ?thesis by (auto intro!: runs_return exI [of _ m] exI [of _ False])
        qed
      next
        case (2 cs e)
        then obtain m where "m \<le> nat (cf_resumeMaxAttempts (cx_config F))"
          "cs = fallback_commands job m False" by (auto simp: fallback_commands_def s)
        with s show ?case by auto
      qed
      with True s 1 show ?thesis by (simp add: a)
    qed
  next
    case (2 bs e)
    then show ?case by (auto simp: fallback_commands_def intro!: exI [of _ 0] exI [of _ False])
  qed
qed

end

end
