(* ===== verification/TriggerSafeguards.thy ===== *)
theory TriggerSafeguards
  imports TriggerQueueSafety
begin

text \<open>
  The safeguards of the trigger queue, each against its specification: the rate limit against a
  bound on every window of a minute, the loop guard against the history of a thread, the
  backoff against its closed form.
\<close>

section \<open>The rate limit\<close>

text \<open>The times at which the requests of a key were let through.\<close>

fun admitted :: "queue_safeguards \<Rightarrow> string \<Rightarrow> (trigger_job \<times> int) list \<Rightarrow> processor_state \<Rightarrow> int list" where
  "admitted G k [] s = []"
| "admitted G k ((job, t) # rs) s =
     (case applyRateLimit G job t s of
        (None, s') \<Rightarrow> (if rateLimitKey job = k then [t] else []) @ admitted G k rs s'
      | (Some _, s') \<Rightarrow> admitted G k rs s')"

definition rate_events :: "processor_state \<Rightarrow> string \<Rightarrow> int list" where
  "rate_events s k = (case js_get (ps_rateLimitEvents s) k of None \<Rightarrow> [] | Some es \<Rightarrow> es)"

definition in_window :: "int \<Rightarrow> int list \<Rightarrow> nat" where
  "in_window t0 xs = length (filter (\<lambda>a. t0 \<le> a \<and> a \<le> t0 + 60000) xs)"

lemma rate_other_key:
  "rateLimitKey job \<noteq> k \<Longrightarrow> applyRateLimit G job t s = (r, s') \<Longrightarrow> rate_events s' k = rate_events s k"
  by (auto simp: applyRateLimit_def rate_events_def Let_def split: if_split_asm)

lemma rate_same_key:
  assumes "applyRateLimit G job t s = (r, s')"
  defines "recent \<equiv> filter (\<lambda>a. t - 60000 \<le> a) (rate_events s (rateLimitKey job))"
  shows "r = None \<longleftrightarrow> int (length recent) < sg_rateLimitPerMinute G"
    "rate_events s' (rateLimitKey job) = (if r = None then recent @ [t] else recent)"
  using assms(1) unfolding recent_def
  by (auto simp: applyRateLimit_def rate_events_def Let_def split: if_split_asm)

text \<open>
  The list the processor keeps for a key holds every admitted time that can still matter: what
  it dropped is more than a minute older than the last request.
\<close>

definition rate_inv :: "queue_safeguards \<Rightarrow> string \<Rightarrow> int list \<Rightarrow> int \<Rightarrow> processor_state \<Rightarrow> bool" where
  "rate_inv G k A last_t s \<longleftrightarrow> (\<forall>t\<ge>last_t.
     filter (\<lambda>a. t - 60000 \<le> a) (rate_events s k) = filter (\<lambda>a. t - 60000 \<le> a) A) \<and>
     (\<forall>a\<in>set A. a \<le> last_t) \<and> (\<forall>t0. int (in_window t0 A) \<le> max 0 (sg_rateLimitPerMinute G))"

lemma filter_drop_old:
  "t \<le> t' \<Longrightarrow> filter (\<lambda>a. t' - c \<le> a) (filter (\<lambda>a. t - c \<le> a) xs) = filter (\<lambda>a. t' - c \<le> (a::int)) xs"
  by (auto intro: filter_cong)

lemma rate_step:
  assumes inv: "rate_inv G k A last_t s" and t: "last_t \<le> t"
    and run: "applyRateLimit G job t s = (r, s')"
  shows "rate_inv G k (A @ (if r = None \<and> rateLimitKey job = k then [t] else [])) t s'"
proof (cases "rateLimitKey job = k")
  case False
  have "\<forall>t'\<ge>t. filter (\<lambda>a. t' - 60000 \<le> a) (rate_events s k) = filter (\<lambda>a. t' - 60000 \<le> a) A"
    "\<forall>a\<in>set A. a \<le> t"
    using inv t unfolding rate_inv_def by force+
  with inv False show ?thesis
    unfolding rate_inv_def rate_other_key [OF False run] by simp
next
  case True
  let ?recent = "filter (\<lambda>a. t - 60000 \<le> a) A"
  have rec: "filter (\<lambda>a. t - 60000 \<le> a) (rate_events s k) = ?recent"
    using inv t unfolding rate_inv_def by blast
  note same = rate_same_key [OF run, unfolded True rec]
  have old: "\<forall>a\<in>set A. a \<le> t" using inv t unfolding rate_inv_def by force
  show ?thesis
  proof (cases "r = None")
    case False
    with same(2) inv old show ?thesis
      unfolding rate_inv_def using filter_drop_old by auto
  next
    case None: True
    have few: "int (length ?recent) < sg_rateLimitPerMinute G" using same(1) None by blast
    have win: "int (in_window t0 (A @ [t])) \<le> max 0 (sg_rateLimitPerMinute G)" for t0
    proof (cases "t0 \<le> t \<and> t \<le> t0 + 60000")
      case True
      then have "filter (\<lambda>a. t0 \<le> a \<and> a \<le> t0 + 60000) A = filter (\<lambda>a. t0 \<le> a \<and> a \<le> t0 + 60000) ?recent"
        by (auto intro: filter_cong)
      then have "in_window t0 A \<le> length ?recent"
        unfolding in_window_def by (simp only: length_filter_le)
      with True few show ?thesis by (simp add: in_window_def)
    next
      case False
      with inv show ?thesis by (auto simp: in_window_def rate_inv_def)
    qed
    have "filter (\<lambda>a. t' - 60000 \<le> a) (rate_events s' k) = filter (\<lambda>a. t' - 60000 \<le> a) (A @ [t])"
      if "t \<le> t'" for t'
      using same(2) None filter_drop_old [OF that, of 60000 A] by simp
    with win old None True show ?thesis unfolding rate_inv_def by auto
  qed
qed

lemma admitted_inv:
  "rate_inv G k A last_t s \<Longrightarrow> sorted (last_t # map snd rs) \<Longrightarrow>
     int (in_window t0 (A @ admitted G k rs s)) \<le> max 0 (sg_rateLimitPerMinute G)"
proof (induction rs arbitrary: A last_t s)
  case Nil
  then show ?case by (simp add: rate_inv_def)
next
  case (Cons x rs)
  obtain job t where x: "x = (job, t)" by (cases x)
  obtain r s' where run: "applyRateLimit G job t s = (r, s')" by (cases "applyRateLimit G job t s")
  have "last_t \<le> t" "sorted (t # map snd rs)" using Cons.prems(2) by (simp_all add: x)
  with Cons.IH [OF rate_step [OF Cons.prems(1) _ run]] show ?case
    by (cases r) (simp_all add: x run)
qed

section \<open>The loop guard\<close>

definition error_of :: "execution_outcome \<Rightarrow> string" where
  "error_of o' = (case eo_errorCode o' of None \<Rightarrow> ''UNKNOWN_TRIGGER_ERROR'' | Some c \<Rightarrow> c)"

text \<open>
  The specification: the outcomes of a thread, latest first. The run without progress is what
  came after the last progress, and the repeated findings are its latest outcomes that share
  one error code.
\<close>

definition stalled :: "execution_outcome list \<Rightarrow> execution_outcome list" where
  "stalled history = takeWhile (\<lambda>o'. \<not> is_progress (eo_attemptResult o')) history"

definition repeated :: "execution_outcome list \<Rightarrow> execution_outcome list" where
  "repeated history = (case stalled history of [] \<Rightarrow> []
     | o' # _ \<Rightarrow> takeWhile (\<lambda>x. error_of x = error_of o') (stalled history))"

definition guard_abs :: "execution_outcome list \<Rightarrow> loop_state option" where
  "guard_abs history = (case stalled history of [] \<Rightarrow> None
     | o' # _ \<Rightarrow> Some \<lparr>lp_noProgressTurns = int (length (stalled history)),
         lp_repeatedErrorCode = Some (error_of o'),
         lp_repeatedFindingCycles = int (length (repeated history))\<rparr>)"

definition must_block :: "queue_safeguards \<Rightarrow> execution_outcome list \<Rightarrow> bool" where
  "must_block G history \<longleftrightarrow> stalled history \<noteq> [] \<and>
     (sg_loopMaxTurns G \<le> int (length (stalled history)) \<or>
      sg_loopMaxRepeatedFindings G \<le> int (length (repeated history)))"

fun guard_run ::
  "queue_safeguards \<Rightarrow> (string \<times> execution_outcome) list \<Rightarrow> processor_state \<Rightarrow> processor_state" where
  "guard_run G [] s = s"
| "guard_run G ((th, o') # es) s = guard_run G es (snd (updateLoopState G th o' s))"

definition history_of :: "string \<Rightarrow> (string \<times> execution_outcome) list \<Rightarrow> execution_outcome list" where
  "history_of th es = rev (map snd (filter (\<lambda>e. fst e = th) es))"

definition loop_of :: "processor_state \<Rightarrow> string \<Rightarrow> loop_state option" where
  "loop_of s th = js_get (ps_threadLoopState s) th"

lemma update_other_thread:
  "updateLoopState G th o' s = (b, s') \<Longrightarrow> th' \<noteq> th \<Longrightarrow> loop_of s' th' = loop_of s th'"
  by (auto simp: updateLoopState_def clearLoopState_def loop_of_def Let_def split: if_split_asm)

lemma guard_step:
  assumes "updateLoopState G th o' s = (b, s')" "loop_of s th = guard_abs h"
  shows "loop_of s' th = guard_abs (o' # h)" "b \<noteq> None \<longleftrightarrow> must_block G (o' # h)"
proof -
  have code: "(case eo_errorCode o' of None \<Rightarrow> ''UNKNOWN_TRIGGER_ERROR'' | Some c \<Rightarrow> c) = error_of o'"
    by (simp add: error_of_def)
  have "loop_of s' th = guard_abs (o' # h) \<and> (b \<noteq> None \<longleftrightarrow> must_block G (o' # h))"
  proof (cases "is_progress (eo_attemptResult o')")
    case True
    with assms(1) show ?thesis
      by (auto simp: updateLoopState_def clearLoopState_def loop_of_def guard_abs_def stalled_def
          must_block_def)
  next
    case False
    show ?thesis
    proof (cases "stalled h")
      case Nil
      with False assms show ?thesis
        unfolding updateLoopState_def code
        by (auto simp: loop_of_def guard_abs_def stalled_def repeated_def must_block_def Let_def
            split: if_split_asm)
    next
      case (Cons x xs)
      with False assms show ?thesis
        unfolding updateLoopState_def code
        by (auto simp: loop_of_def guard_abs_def stalled_def repeated_def must_block_def Let_def
            split: if_split_asm)
    qed
  qed
  then show "loop_of s' th = guard_abs (o' # h)" "b \<noteq> None \<longleftrightarrow> must_block G (o' # h)" by auto
qed

lemma guard_run_refines:
  "(\<And>th. loop_of s th = guard_abs (h th)) \<Longrightarrow>
     loop_of (guard_run G es s) th = guard_abs (history_of th es @ h th)"
proof (induction es arbitrary: s h)
  case Nil
  then show ?case by (simp add: history_of_def)
next
  case (Cons e es)
  obtain th' o' where e: "e = (th', o')" by (cases e)
  obtain b s' where run: "updateLoopState G th' o' s = (b, s')" by (cases "updateLoopState G th' o' s")
  have "loop_of s' x = guard_abs ((h(th' := o' # h th')) x)" for x
    using guard_step(1) [OF run Cons.prems] update_other_thread [OF run] Cons.prems by simp
  from Cons.IH [OF this] show ?case by (auto simp: e run history_of_def)
qed

section \<open>The backoff\<close>

lemma backoff_bounds:
  assumes "0 \<le> pd_backoffBaseMs P" "0 \<le> pd_backoffMaxMs P"
  shows "0 \<le> computeBackoffMs P n" "computeBackoffMs P n \<le> pd_backoffMaxMs P"
    "n \<le> m \<Longrightarrow> computeBackoffMs P n \<le> computeBackoffMs P m"
proof -
  show "0 \<le> computeBackoffMs P n" "computeBackoffMs P n \<le> pd_backoffMaxMs P"
    using assms by (simp_all add: computeBackoffMs_def Let_def)
  assume "n \<le> m"
  then have "(2::int) ^ nat (max (n - 1) 0) \<le> 2 ^ nat (max (m - 1) 0)"
    by (intro power_increasing) auto
  then have "pd_backoffBaseMs P * 2 ^ nat (max (n - 1) 0) \<le> pd_backoffBaseMs P * 2 ^ nat (max (m - 1) 0)"
    using assms(1) by (rule mult_left_mono)
  then show "computeBackoffMs P n \<le> computeBackoffMs P m"
    by (auto simp: computeBackoffMs_def Let_def)
qed

end
