(* ===== verification/TriggerLiveness.thy ===== *)
theory TriggerLiveness
  imports TriggerSafeguards
begin

text \<open>
  The retries of a job come to an end. Every turn without progress counts towards the limit of
  the loop guard, and at the limit the job fails for good. So a job that shares its thread with
  no other job is attempted at most \<open>loopMaxTurns\<close> times, even if every attempt is deferred,
  which on its own never uses up the retries.
\<close>

text \<open>The processor's own state is touched by nothing but the processor.\<close>

locale guarded_processor = queue_processor P jobs inv
  for P :: "'w processor" and jobs :: "'w \<Rightarrow> job_view" and inv :: "'w \<Rightarrow> bool" +
  assumes state_cell: "cell_laws (pd_state P)"
    and exec_state: "pd_executor P job n t w = (o', w') \<Longrightarrow>
      cell_get (pd_state P) w' = cell_get (pd_state P) w"
    and fallback_state: "pd_fallbackExecutor P job n out t w = (f, w') \<Longrightarrow>
      cell_get (pd_state P) w' = cell_get (pd_state P) w"
    and claim_state: "tq_claimDueJobs (pd_store P) ws l t w = (cl, w') \<Longrightarrow>
      cell_get (pd_state P) w' = cell_get (pd_state P) w"
    and record_state: "tq_recordAttemptAndTransition (pd_store P) i w = (rec, w') \<Longrightarrow>
      cell_get (pd_state P) w' = cell_get (pd_state P) w"
    and deadLetter_state: "tq_listDeadLetterJobs (pd_store P) ws l w = (dl, w') \<Longrightarrow>
      cell_get (pd_state P) w' = cell_get (pd_state P) w"
    and block_state: "tq_markThreadBlocked (pd_store P) th t reason w = (b, w') \<Longrightarrow>
      cell_get (pd_state P) w' = cell_get (pd_state P) w"
begin

definition guard_at :: "string \<Rightarrow> 'w \<Rightarrow> loop_state option" where
  "guard_at th w = loop_of (cell_get (pd_state P) w) th"

definition turns :: "string \<Rightarrow> 'w \<Rightarrow> int" where
  "turns th w = (case guard_at th w of None \<Rightarrow> 0 | Some l \<Rightarrow> lp_noProgressTurns l)"

definition same_guard :: "string \<Rightarrow> 'w \<Rightarrow> 'w \<Rightarrow> bool" where
  "same_guard th w w' \<longleftrightarrow> guard_at th w' = guard_at th w"

lemma same_guard_preorder [simp]: "reflp (same_guard th)" "transp (same_guard th)"
  by (auto simp: same_guard_def reflp_def transp_def)

lemma guard_attempt: "stays (same_guard th) (attempt_job P job t)"
proof -
  have "stays (same_guard th) (io_cell (pd_state P) (io_pure (applyRateLimit G job t)))" for G
    using state_cell by (auto simp: stays_def same_guard_def guard_at_def loop_of_def io_cell_iff
        applyRateLimit_def Let_def split: if_split_asm)
  then show ?thesis unfolding attempt_job_def
    by (intro preserves same_guard_preorder)
      (auto simp: stays_def same_guard_def guard_at_def dest: exec_state)
qed

lemma guard_fallback: "stays (same_guard th) (fallback_job P job t o')"
  unfolding fallback_job_def
  by (intro preserves same_guard_preorder)
    (auto simp: stays_def same_guard_def guard_at_def dest: fallback_state)

lemma guard_record: "stays (same_guard th) (tq_recordAttemptAndTransition (pd_store P) i)"
  by (auto simp: stays_def same_guard_def guard_at_def dest: record_state)

lemma guard_other: "tj_threadId job \<noteq> th \<Longrightarrow> stays (same_guard th) (guard_job P job t plan)"
proof -
  assume "tj_threadId job \<noteq> th"
  then have cell: "stays (same_guard th)
      (io_cell (pd_state P) (io_pure (updateLoopState G (tj_threadId job) o')))" for G o'
    using state_cell
    by (auto simp: stays_def same_guard_def guard_at_def io_cell_iff
        update_other_thread [of G "tj_threadId job" _ _ _ _ th])
  show ?thesis unfolding guard_job_def
    by (intro preserves cell same_guard_preorder)
      (auto simp: stays_def same_guard_def guard_at_def dest: block_state)
qed

lemma process_other:
  "tj_threadId job \<noteq> th \<Longrightarrow> stays (same_guard th) (process_job P t job c)"
  unfolding process_job_def case_prod_beta
  by (intro preserves guard_attempt guard_fallback guard_other guard_record same_guard_preorder)

lemma process_jobs_other:
  "\<forall>j\<in>set js. tj_threadId j \<noteq> th \<Longrightarrow> stays (same_guard th) (process_jobs P t js c)"
  by (induction js arbitrary: c) (auto intro!: preserves process_other)

text \<open>A turn that leaves its job waiting is counted, and stays below the limit.\<close>

lemma update_turns:
  assumes "updateLoopState G th o' s = (None, s')" "\<not> is_progress (eo_attemptResult o')"
  shows "\<exists>l. loop_of s' th = Some l \<and> lp_noProgressTurns l < sg_loopMaxTurns G \<and>
    lp_noProgressTurns l = (case loop_of s th of None \<Rightarrow> 0 | Some l0 \<Rightarrow> lp_noProgressTurns l0) + 1"
  using assms
  by (auto simp: updateLoopState_def loop_of_def Let_def split: if_split_asm option.split)

lemma guard_final:
  assumes "guard_job P job t plan w = (Inr (final, b), w')" "jp_nextStatus final \<noteq> Failed"
  shows "final = plan \<and> (\<exists>s. updateLoopState (pd_safeguards P) (tj_threadId job) (jp_outcome plan)
      (cell_get (pd_state P) w) = (None, s) \<and> w' = cell_put (pd_state P) s w)"
proof -
  obtain g s where up: "updateLoopState (pd_safeguards P) (tj_threadId job) (jp_outcome plan)
      (cell_get (pd_state P) w) = (g, s)" by fastforce
  then have run: "io_cell (pd_state P) (io_pure (updateLoopState (pd_safeguards P)
      (tj_threadId job) (jp_outcome plan))) w = (Inr g, cell_put (pd_state P) s w)"
    by (simp add: io_cell_iff)
  show ?thesis
    using assms up unfolding guard_job_def io_bind_run [where m = "io_cell (pd_state P) x" for x, OF run]
    by (cases g) auto
qed

lemma guard_turns:
  assumes "guard_job P job t plan w = (Inr (final, b), w')" "jp_nextStatus final \<noteq> Failed"
    "\<not> is_progress (eo_attemptResult (jp_outcome plan))"
  shows "turns (tj_threadId job) w' = turns (tj_threadId job) w + 1"
    "turns (tj_threadId job) w' < sg_loopMaxTurns (pd_safeguards P)"
proof -
  obtain s where up: "updateLoopState (pd_safeguards P) (tj_threadId job) (jp_outcome plan)
      (cell_get (pd_state P) w) = (None, s)" and w': "w' = cell_put (pd_state P) s w"
    using guard_final [OF assms(1,2)] by blast
  from update_turns [OF up assms(3)]
  show "turns (tj_threadId job) w' = turns (tj_threadId job) w + 1"
    "turns (tj_threadId job) w' < sg_loopMaxTurns (pd_safeguards P)"
    using state_cell by (auto simp: w' turns_def guard_at_def)
qed

definition waits :: "job_status \<Rightarrow> bool" where
  "waits s \<longleftrightarrow> s = Deferred \<or> s = Timeout"

lemma fallback_waits:
  assumes "fallback_job P job t o' w = (Inr plan, w')" "waits (jp_nextStatus plan)"
  shows "\<not> is_progress (eo_attemptResult (jp_outcome plan))"
  using assms fallback_status
  by (auto simp: fallback_job_def waits_def plan_job_def is_progress_def Let_def fallback_ok_def
      split: if_split_asm fallback_result.split_asm)

lemma process_turns:
  assumes run: "process_job P t job c w = (Inr c', w')" and i: "inv w"
    and j: "jobs w (tj_triggerId job) = Some job" "tj_status job = Triggering"
    and wait: "jobs w' (tj_triggerId job) = Some j'" "waits (tj_status j')"
  shows "turns (tj_threadId job) w' = turns (tj_threadId job) w + 1 \<and>
    turns (tj_threadId job) w' < sg_loopMaxTurns (pd_safeguards P)"
proof -
  from run obtain o1 w1 plan w2 final b w3 x where
    a: "attempt_job P job t w = (Inr o1, w1)" and f: "fallback_job P job t o1 w1 = (Inr plan, w2)"
    and g: "guard_job P job t plan w2 = (Inr (final, b), w3)"
    and rec: "tq_recordAttemptAndTransition (pd_store P) (transition_of job t final) w3 = (Inr x, w')"
    unfolding process_job_def by (auto split: prod.split_asm)
  have "inv w3 \<and> jobs w3 = jobs w"
    using staysD [OF keeps_attempt a] staysD [OF keeps_fallback f] staysD [OF keeps_guard g] i
    by (simp add: same_jobs_def)
  with record_ok [OF rec] j wait have st: "waits (jp_nextStatus final)"
    by (auto simp: transition_of_def)
  then have nf: "jp_nextStatus final \<noteq> Failed" by (auto simp: waits_def)
  have fp: "final = plan" using guard_final [OF g nf] by blast
  note tn = guard_turns [OF g nf fallback_waits [OF f]] 
  have w: "guard_at (tj_threadId job) w2 = guard_at (tj_threadId job) w"
    "guard_at (tj_threadId job) w' = guard_at (tj_threadId job) w3"
    using staysD [OF guard_attempt a] staysD [OF guard_fallback f] staysD [OF guard_record rec]
    by (simp_all add: same_guard_def)
  have "turns (tj_threadId job) w2 = turns (tj_threadId job) w"
    "turns (tj_threadId job) w' = turns (tj_threadId job) w3"
    using w by (simp_all add: turns_def)
  with tn st fp show ?thesis by simp
qed

text \<open>\<open>i\<close> is the only job of the thread \<open>th\<close>.\<close>

definition alone :: "string \<Rightarrow> string \<Rightarrow> 'w \<Rightarrow> bool" where
  "alone i th w \<longleftrightarrow> (\<forall>k j. jobs w k = Some j \<longrightarrow> tj_threadId j = th \<longrightarrow> k = i)"

text \<open>The turns of the thread in a run of the loop: at most one, for the one job.\<close>

lemma process_jobs_turns:
  assumes "process_jobs P t js c w = (r, w')" "inv w" "distinct (map tj_triggerId js)"
    "\<forall>j\<in>set js. jobs w (tj_triggerId j) = Some j \<and> tj_status j = Triggering"
    "\<forall>j\<in>set js. tj_threadId j = th \<longrightarrow> tj_triggerId j = i"
  shows "(i \<notin> tj_triggerId ` set js \<longrightarrow> turns th w' = turns th w) \<and>
    (\<forall>j j'. j \<in> set js \<longrightarrow> tj_triggerId j = i \<longrightarrow> tj_threadId j = th \<longrightarrow> jobs w' i = Some j' \<longrightarrow>
       waits (tj_status j') \<longrightarrow>
       turns th w' = turns th w + 1 \<and> turns th w' < sg_loopMaxTurns (pd_safeguards P))"
  using assms
proof (induction js arbitrary: c w)
  case Nil
  then show ?case by auto
next
  case (Cons j js)
  have j: "jobs w (tj_triggerId j) = Some j" "tj_status j = Triggering"
    using Cons.prems(4) by simp_all
  have d: "distinct (map tj_triggerId js)" and out: "tj_triggerId j \<notin> tj_triggerId ` set js"
    using Cons.prems(3) by simp_all
  show ?case
  proof (cases "tj_threadId j = th")
    case mine: True
    with Cons.prems(5) have i: "tj_triggerId j = i" by simp
    have rest: "\<forall>k\<in>set js. tj_threadId k \<noteq> th"
      using Cons.prems(5) out i by (metis image_eqI list.set_intros(2))
    from Cons.prems(1) consider
        (stop) e where "process_job P t j c w = (Inl e, w')"
      | (go) c1 w1 where "process_job P t j c w = (Inr c1, w1)" "process_jobs P t js c1 w1 = (r, w')"
      by (auto simp: io_bind_iff)
    then have "turns th w' = turns th w + 1 \<and> turns th w' < sg_loopMaxTurns (pd_safeguards P)"
      if "jobs w' i = Some j'" "waits (tj_status j')" for j'
    proof cases
      case stop
      with process_job_effect [OF stop Cons.prems(2) j] j that i show ?thesis
        by (simp add: waits_def)
    next
      case go
      note w1 = process_rest [OF go(1) Cons.prems(2-4)]
      from process_jobs_effect [OF go(2) w1(1) d w1(2)] out i that(1) have "jobs w1 i = Some j'" by metis
      with process_turns [OF go(1) Cons.prems(2) j, of j'] that(2) i mine
      have "turns th w1 = turns th w + 1 \<and> turns th w1 < sg_loopMaxTurns (pd_safeguards P)" by simp
      moreover have "guard_at th w' = guard_at th w1"
        using staysD [OF process_jobs_other [OF rest] go(2)] by (simp add: same_guard_def)
      ultimately show ?thesis by (simp add: turns_def)
    qed
    moreover have "i \<in> tj_triggerId ` set (j # js)" using i by simp
    ultimately show ?thesis by blast
  next
    case other: False
    from Cons.prems(1) consider
        (stop) e where "process_job P t j c w = (Inl e, w')" "r = Inl e"
      | (go) c1 w1 where "process_job P t j c w = (Inr c1, w1)" "process_jobs P t js c1 w1 = (r, w')"
      by (auto simp: io_bind_iff)
    then show ?thesis
    proof cases
      case stop
      have "turns th w' = turns th w"
        using staysD [OF process_other [OF other] stop(1)] by (simp add: same_guard_def turns_def)
      moreover have "\<not> waits (tj_status k')"
        if "k \<in> set (j # js)" "tj_triggerId k = i" "jobs w' i = Some k'" for k k'
      proof -
        have "jobs w' = jobs w" using process_job_effect [OF stop(1) Cons.prems(2) j] stop(2) by simp
        with that Cons.prems(4) show ?thesis by (auto simp: waits_def)
      qed
      ultimately show ?thesis by blast
    next
      case go
      note w1 = process_rest [OF go(1) Cons.prems(2-4)]
      have eq: "turns th w1 = turns th w"
        using staysD [OF process_other [OF other] go(1)] by (simp add: same_guard_def turns_def)
      have "\<forall>k\<in>set js. tj_threadId k = th \<longrightarrow> tj_triggerId k = i" using Cons.prems(5) by simp
      note IH = Cons.IH [OF go(2) w1(1) d w1(2) this, unfolded eq]
      have "k \<in> set js" if "k \<in> set (j # js)" "tj_threadId k = th" for k
        using that other by auto
      moreover have "i \<notin> tj_triggerId ` set js" if "i \<notin> tj_triggerId ` set (j # js)"
        using that by simp
      ultimately show ?thesis using IH by blast
    qed
  qed
qed

lemma tick_cases:
  assumes "processDueJobs P ws l t w = (r, w')" "inv w"
  shows "(\<exists>e. tq_claimDueJobs (pd_store P) ws l t w = (Inl e, w')) \<or>
    (\<exists>js w1 r1 w2. tq_claimDueJobs (pd_store P) ws l t w = (Inr js, w1) \<and>
      process_jobs P t js no_counts w1 = (r1, w2) \<and> jobs w' = jobs w2 \<and> turns th w' = turns th w2)"
    (is "?G w'")
proof -
  have wp: "wp (processDueJobs P ws l t) (\<lambda>_ w'. G w') (\<lambda>_ w'. G w') w"
    if "\<And>e w'. tq_claimDueJobs (pd_store P) ws l t w = (Inl e, w') \<Longrightarrow> G w'"
      "\<And>js w1 r1 w2 w'. tq_claimDueJobs (pd_store P) ws l t w = (Inr js, w1) \<Longrightarrow>
         process_jobs P t js no_counts w1 = (r1, w2) \<Longrightarrow> jobs w' = jobs w2 \<Longrightarrow>
         turns th w' = turns th w2 \<Longrightarrow> G w'" for G
    unfolding processDueJobs_def
  proof (intro wp_bind wpI)
    fix e w' assume "tq_claimDueJobs (pd_store P) ws l t w = (Inl e, w')"
    then show "G w'" by (rule that(1))
  next
    fix js w1 e w' assume "tq_claimDueJobs (pd_store P) ws l t w = (Inr js, w1)"
      "process_jobs P t js no_counts w1 = (Inl e, w')"
    then show "G w'" by (rule that(2)) simp_all
  next
    fix js w1 c w2 e w' assume cl: "tq_claimDueJobs (pd_store P) ws l t w = (Inr js, w1)"
      and pr: "process_jobs P t js no_counts w1 = (Inr c, w2)"
      and d: "tq_listDeadLetterJobs (pd_store P) ws 20 w2 = (Inl e, w')"
    note facts = claimed_lookup [OF cl assms(2)]
    have "inv w2" using process_jobs_effect [OF pr facts(3,1)] facts(4) by blast
    with deadLetter_ok [OF d] deadLetter_state [OF d] show "G w'"
      by (intro that(2) [OF cl pr]) (simp_all add: turns_def guard_at_def)
  next
    fix js w1 c w2 dl w3 x y w' assume cl: "tq_claimDueJobs (pd_store P) ws l t w = (Inr js, w1)"
      and pr: "process_jobs P t js no_counts w1 = (Inr c, w2)"
      and d: "tq_listDeadLetterJobs (pd_store P) ws 20 w2 = (Inr dl, w3)"
      and ret: "io_return x w3 = (Inr y, w')"
    note facts = claimed_lookup [OF cl assms(2)]
    have "inv w2" using process_jobs_effect [OF pr facts(3,1)] facts(4) by blast
    with deadLetter_ok [OF d] deadLetter_state [OF d] ret show "G w'"
      by (intro that(2) [OF cl pr]) (simp_all add: turns_def guard_at_def)
  qed simp
  have all: "wp (processDueJobs P ws l t) (\<lambda>_ w'. ?G w') (\<lambda>_ w'. ?G w') w"
    by (rule wp) blast+
  show ?thesis
  proof (cases r)
    case (Inl e)
    show ?thesis by (rule wp_Inl [OF all assms(1) [unfolded Inl]])
  next
    case (Inr x)
    show ?thesis by (rule wp_Inr [OF all assms(1) [unfolded Inr]])
  qed
qed

abbreviation max_turns :: int where
  "max_turns \<equiv> sg_loopMaxTurns (pd_safeguards P)"

text \<open>The job \<open>i\<close> of the thread \<open>th\<close>, first seen after \<open>a0\<close> attempts, still has turns left.\<close>

definition budget :: "string \<Rightarrow> string \<Rightarrow> int \<Rightarrow> 'w \<Rightarrow> bool" where
  "budget i th a0 w \<longleftrightarrow> inv w \<and> alone i th w \<and> (\<exists>j. jobs w i = Some j \<and> tj_threadId j = th \<and>
     tj_attempts j \<le> a0 + max_turns \<and>
     (tj_status j \<in> set DUE_TRIGGER_STATUSES \<longrightarrow>
        tj_attempts j < a0 + max_turns \<and> tj_attempts j - a0 \<le> turns th w))"

lemma alone_tick:
  assumes "processDueJobs P ws l t w = (r, w')" "inv w" "alone i th w"
  shows "alone i th w'"
  unfolding alone_def
proof (intro allI impI)
  fix k j' assume j': "jobs w' k = Some j'" "tj_threadId j' = th"
  then obtain j where j: "jobs w k = Some j"
    using processDueJobs_effect [OF assms(1,2)] by (metis option.exhaust)
  with tick_steps [OF assms(1,2) j] j' have "tj_threadId j = th" by (auto dest: job_steps_frame)
  with j assms(3) show "k = i" by (auto simp: alone_def)
qed

lemma budget_tick:
  assumes run: "processDueJobs P ws l t w = (r, w')" and b: "budget i th a0 w"
  shows "budget i th a0 w'"
proof -
  obtain j where i: "inv w" "alone i th w" and j: "jobs w i = Some j" "tj_threadId j = th"
    "tj_attempts j \<le> a0 + max_turns"
    and due: "tj_status j \<in> set DUE_TRIGGER_STATUSES \<Longrightarrow>
        tj_attempts j < a0 + max_turns \<and> tj_attempts j - a0 \<le> turns th w"
    using b unfolding budget_def by blast
  have w': "inv w'" "alone i th w'"
    using processDueJobs_effect [OF run i(1)] alone_tick [OF run i] by blast+
  have untouched: ?thesis if "jobs w' i = Some j" "turns th w' = turns th w"
    using that j w' due unfolding budget_def by auto
  have stuck: ?thesis if "jobs w' i = Some (claim t j)"
    using that j w' unfolding budget_def by (auto simp: DUE_TRIGGER_STATUSES_def)
  from tick_cases [OF run i(1), of th] show ?thesis
  proof (elim disjE exE conjE)
    fix e assume cl: "tq_claimDueJobs (pd_store P) ws l t w = (Inl e, w')"
    have "turns th w' = turns th w" using claim_state [OF cl] by (simp add: turns_def guard_at_def)
    moreover have "jobs w' i = Some j \<or> jobs w' i = Some (claim t j)"
      using claim_fail [OF cl i(1)] j(1) by (auto simp: claimed_view_def)
    ultimately show ?thesis using untouched stuck by blast
  next
    fix js w1 r1 w2
    assume cl: "tq_claimDueJobs (pd_store P) ws l t w = (Inr js, w1)"
      and pr: "process_jobs P t js no_counts w1 = (r1, w2)"
      and eq: "jobs w' = jobs w2" "turns th w' = turns th w2"
    note facts = claimed_lookup [OF cl i(1)]
    have all: "\<forall>j\<in>set js. jobs w1 (tj_triggerId j) = Some j \<and> tj_status j = Triggering"
      using facts(4) by blast
    have "tj_triggerId k = i" if k: "k \<in> set js" "tj_threadId k = th" for k
    proof -
      obtain k0 where "jobs w (tj_triggerId k) = Some k0" "k = claim t k0" using facts(4) k(1) by blast
      with k(2) i(2) show ?thesis by (auto simp: alone_def)
    qed
    then have mine: "\<forall>k\<in>set js. tj_threadId k = th \<longrightarrow> tj_triggerId k = i" by blast
    have t1: "turns th w1 = turns th w" using claim_state [OF cl] by (simp add: turns_def guard_at_def)
    note loop = process_jobs_turns [OF pr facts(3,1) all mine] and effect = process_jobs_effect [OF pr facts(3,1) all]
    show ?thesis
    proof (cases "i \<in> tj_triggerId ` set js")
      case False
      with effect facts(5) j(1) have "jobs w' i = Some j" by (simp add: eq)
      with untouched loop False t1 show ?thesis by (simp add: eq)
    next
      case True
      then obtain k where k: "k \<in> set js" "tj_triggerId k = i" by blast
      with facts(4) j(1) have kj: "k = claim t j" "job_due ws t j" by auto
      have d: "tj_attempts j < a0 + max_turns" "tj_attempts j - a0 \<le> turns th w"
        using due kj(2) by (auto simp: job_due_def)
      from effect k consider (settled) plan where "settles k plan"
          "jobs w2 i = Some (settle (transition_of k t plan) k)"
        | (claimed) "jobs w2 i = Some k" by blast
      then show ?thesis
      proof cases
        case claimed
        with stuck show ?thesis by (simp add: eq kj)
      next
        case settled
        define j' where "j' = settle (transition_of k t plan) k"
        have j': "jobs w' i = Some j'" "tj_threadId j' = th" "tj_attempts j' = tj_attempts j + 1"
          "tj_status j' = jp_nextStatus plan"
          using settled(2) j(2) by (simp_all add: eq j'_def kj transition_of_def settle_def)
        show ?thesis
        proof (cases "waits (tj_status j')")
          case True
          have "turns th w2 = turns th w1 + 1 \<and> turns th w2 < sg_loopMaxTurns (pd_safeguards P)"
            using loop k j' True j(2) by (auto simp: eq kj)
          with d t1 j' w' show ?thesis unfolding budget_def by (auto simp: eq)
        next
          case False
          then have "tj_status j' \<notin> set DUE_TRIGGER_STATUSES"
            using settled(1) j'(4) by (auto simp: DUE_TRIGGER_STATUSES_def waits_def settles_def)
          with d j' w' show ?thesis unfolding budget_def by auto
        qed
      qed
    qed
  qed
qed

lemma budget_ticks: "budget i th a0 w \<Longrightarrow> budget i th a0 (run_ticks P ticks w)"
proof (induction ticks arbitrary: w)
  case (Cons x ticks)
  obtain ws l t where x: "x = (ws, l, t)" by (cases x)
  show ?case
    using Cons.IH [OF budget_tick [OF surjective_pairing Cons.prems]] by (simp add: x)
qed simp

text \<open>
  Starting with no turns counted against the thread, the job is attempted at most \<open>max_turns\<close>
  times, and once it has been it is no longer in the queue.
\<close>

theorem attempts_bounded:
  assumes "inv w" "alone i th w" "jobs w i = Some j" "tj_threadId j = th" "0 < max_turns"
    "0 \<le> turns th w"
  shows "\<exists>j'. jobs (run_ticks P ticks w) i = Some j' \<and>
    tj_attempts j' \<le> tj_attempts j + max_turns \<and>
    (tj_attempts j' = tj_attempts j + max_turns \<longrightarrow> tj_status j' \<notin> set DUE_TRIGGER_STATUSES)"
proof -
  have "budget i th (tj_attempts j) w" using assms by (auto simp: budget_def)
  from budget_ticks [OF this, of ticks] show ?thesis unfolding budget_def by fastforce
qed

end

end
