(* ===== verification/WorkerLoop.thy ===== *)
theory WorkerLoop
  imports UnreadReconciliation RuntimeTriggerExecutor RuntimeFallback TriggerLiveness
begin

text \<open>
  One tick of the supervisor worker (\<open>SupervisorWorkerLoop\<close> of
  \<open>apps/supervisor-worker/src/worker-loop.ts\<close>): the unread messages, the runtimes and the
  trigger queue, in this order and at one time.
\<close>

record worker_tick_result =
  wt_unreadReconciliation :: unread_result
  wt_runtimeReconciliation :: reconcile_result
  wt_triggerQueueProcessing :: processing_result

record worker_tick_input =
  wi_workspaceId :: string
  wi_staleAfterHours :: js_number
  wi_maxJobsPerTick :: int
  wi_tickAt :: "int option"

record 'w worker_loop =
  wl_unread :: "'w unread_service"
  wl_registry :: "'w registry_service"
  wl_processDueJobs :: "string \<Rightarrow> int \<Rightarrow> int \<Rightarrow> ('w, exn, processing_result) io"

text \<open>\<open>now\<close> is what \<open>new Date()\<close> gives, for an input without a time.\<close>

definition runTick :: "'w worker_loop \<Rightarrow> int \<Rightarrow> worker_tick_input \<Rightarrow> ('w, exn, worker_tick_result) io" where
  "runTick L now input =
     (let tickAt = (case wi_tickAt input of None \<Rightarrow> now | Some t \<Rightarrow> t) in
     io_bind (reconcile (wl_unread L) (wi_workspaceId input) (wi_staleAfterHours input) None tickAt)
       (\<lambda>unreadReconciliation.
     io_bind (reconcileWorkspaceRuntimes (wl_registry L) (wi_workspaceId input)
         (wi_staleAfterHours input) (Some tickAt)) (\<lambda>runtimeReconciliation.
     io_bind (wl_processDueJobs L (wi_workspaceId input) (wi_maxJobsPerTick input) tickAt)
       (\<lambda>triggerQueueProcessing.
       io_return
         \<lparr>wt_unreadReconciliation = unreadReconciliation,
          wt_runtimeReconciliation = runtimeReconciliation,
          wt_triggerQueueProcessing = triggerQueueProcessing\<rparr>))))"

section \<open>What the executors keep\<close>

lemma stays_lines:
  assumes "reflp R" "transp R" "\<And>c. stays R (run c)"
  shows "stays R (send_lines run target ls)"
proof (induction ls)
  case Nil
  show ?case unfolding send_lines.simps by (intro preserves assms)
next
  case (Cons l ls)
  then show ?case unfolding send_lines.simps sendLiteralLine_def by (intro preserves assms)
qed

lemma stays_deliver:
  assumes "reflp R" "transp R" "\<And>c. stays R (run c)"
  shows "stays R (deliver run m q)"
  unfolding deliver_def
  by (cases "prepareTriggerPayload (dq_triggerId q) (dq_threadId q) (dq_reason q) (dq_prompt q) m";
      simp only: payload_result.case; intro preserves stays_lines assms)

text \<open>
  A preorder that a look at the registry, a delivery, a command and the two private maps respect
  is respected by the executor and the fallback.
\<close>

locale executor_frame =
  fixes R :: "'w \<Rightarrow> 'w \<Rightarrow> bool" and M :: "'w managed_executor" and F :: "'w codex_fallback"
  assumes pre: "reflp R" "transp R"
    and looks: "stays R (rs_getRuntime (mx_registry M) a ws)" "stays R (rs_getRuntime (cx_registry F) a ws)"
    and delivers: "stays R (mx_ptyAdapter M q)"
    and runs: "stays R (cx_commandExecutor F c)"
    and put: "R w (cell_put (mx_lastBusyAt M) b w)" "R w (cell_put (cx_failures F) f w)"
begin

lemma busy: "stays R (io_cell (mx_lastBusyAt M) m)"
  using put(1) by (rule stays_cell)

lemma failures: "stays R (io_cell (cx_failures F) m)"
  using put(2) by (rule stays_cell)

lemma keeps_execute: "stays R (managed_execute M job n t)"
  unfolding managed_execute_def by (intro preserves looks busy delivers pre)

lemma keeps_spawn: "stays R (runSpawn F job)"
  unfolding runSpawn_def by (intro preserves runs pre)

lemma keeps_resume: "stays R (resume_attempts F job s t k n)"
proof (induction n arbitrary: k)
  case 0
  show ?case unfolding resume_attempts.simps by (intro preserves pre)
next
  case (Suc n)
  then show ?case
    unfolding resume_attempts.simps recordResumeFailure_def by (intro preserves runs failures pre)
qed

lemma keeps_codex: "stays R (codex_execute F job n i t)"
proof -
  have "stays R (canAttemptResume F job t)"
    unfolding canAttemptResume_def by (intro preserves looks failures pre)
  then show ?thesis
    unfolding codex_execute_def spawn_fallback_def by (intro preserves keeps_spawn keeps_resume pre)
qed

end

end
