(* ===== verification/WorkerInMemory.thy ===== *)
theory WorkerInMemory
  imports WorkerLoop
begin

text \<open>
  The worker over its in-memory stores, wired as \<open>apps/supervisor-worker/src/main.ts\<close> wires it:
  one world with a part for the state of every object, the interpretations of the contracts on
  it, and the configurations that the witnesses run. \<open>ww_commands\<close> lists the commands that were
  run; nothing reads it.
\<close>

section \<open>The world\<close>

record 'e worker_world =
  ww_queue :: mem_queue
  ww_processor :: processor_state
  ww_runtimes :: mem_runtimes
  ww_busy :: busy_map
  ww_failures :: failure_map
  ww_snapshots :: "unread_snapshot list"
  ww_notified :: notified_map
  ww_commands :: "shell_command list"
  ww_env :: 'e

definition queue_cell :: "('e worker_world, mem_queue) cell" where
  "queue_cell = \<lparr>cell_get = ww_queue, cell_put = (\<lambda>s w. w\<lparr>ww_queue := s\<rparr>)\<rparr>"

definition processor_cell :: "('e worker_world, processor_state) cell" where
  "processor_cell = \<lparr>cell_get = ww_processor, cell_put = (\<lambda>s w. w\<lparr>ww_processor := s\<rparr>)\<rparr>"

definition runtimes_cell :: "('e worker_world, mem_runtimes) cell" where
  "runtimes_cell = \<lparr>cell_get = ww_runtimes, cell_put = (\<lambda>s w. w\<lparr>ww_runtimes := s\<rparr>)\<rparr>"

definition busy_cell :: "('e worker_world, busy_map) cell" where
  "busy_cell = \<lparr>cell_get = ww_busy, cell_put = (\<lambda>s w. w\<lparr>ww_busy := s\<rparr>)\<rparr>"

definition failures_cell :: "('e worker_world, failure_map) cell" where
  "failures_cell = \<lparr>cell_get = ww_failures, cell_put = (\<lambda>s w. w\<lparr>ww_failures := s\<rparr>)\<rparr>"

definition snapshots_cell :: "('e worker_world, unread_snapshot list) cell" where
  "snapshots_cell = \<lparr>cell_get = ww_snapshots, cell_put = (\<lambda>s w. w\<lparr>ww_snapshots := s\<rparr>)\<rparr>"

definition notified_cell :: "('e worker_world, notified_map) cell" where
  "notified_cell = \<lparr>cell_get = ww_notified, cell_put = (\<lambda>s w. w\<lparr>ww_notified := s\<rparr>)\<rparr>"

lemmas cell_defs = queue_cell_def processor_cell_def runtimes_cell_def busy_cell_def
  failures_cell_def snapshots_cell_def notified_cell_def

lemma cells_lawful [simp]:
  "cell_laws queue_cell" "cell_laws processor_cell" "cell_laws runtimes_cell" "cell_laws busy_cell"
  "cell_laws failures_cell" "cell_laws snapshots_cell" "cell_laws notified_cell"
  by (simp_all add: cell_laws_def cell_defs)

lemma cell_gets [simp]:
  "cell_get queue_cell = ww_queue" "cell_get processor_cell = ww_processor"
  "cell_get runtimes_cell = ww_runtimes" "cell_get notified_cell = ww_notified"
  "cell_get snapshots_cell = ww_snapshots"
  by (simp_all add: cell_defs)

section \<open>The wiring\<close>

record 'e worker_config =
  wc_run :: "shell_command \<Rightarrow> ('e, exn, command_result) io"
  wc_safeguards :: queue_safeguards
  wc_runtimeSafeguards :: runtime_safeguards
  wc_codex :: codex_config
  wc_backoffBaseMs :: int
  wc_backoffMaxMs :: int
  wc_maxPayloadBytes :: "int option"
  wc_now :: int

definition worker_run :: "'e worker_config \<Rightarrow> 'e worker_world command_executor" where
  "worker_run K c w =
     (case wc_run K c (ww_env w) of
        (r, e) \<Rightarrow> (r, w\<lparr>ww_commands := ww_commands w @ [c], ww_env := e\<rparr>))"

definition worker_registry :: "'e worker_config \<Rightarrow> 'e worker_world runtime_store" where
  "worker_registry K = mem_runtime_store (wc_now K) runtimes_cell"

definition worker_executor :: "'e worker_config \<Rightarrow> 'e worker_world managed_executor" where
  "worker_executor K =
     \<lparr>mx_registry = worker_registry K,
      mx_ptyAdapter = deliver (worker_run K) (wc_maxPayloadBytes K),
      mx_safeguards = wc_runtimeSafeguards K, mx_lastBusyAt = busy_cell\<rparr>"

definition worker_fallback :: "'e worker_config \<Rightarrow> 'e worker_world codex_fallback" where
  "worker_fallback K =
     \<lparr>cx_registry = worker_registry K, cx_commandExecutor = worker_run K,
      cx_config = wc_codex K, cx_failures = failures_cell\<rparr>"

definition worker_processor :: "'e worker_config \<Rightarrow> 'e worker_world processor" where
  "worker_processor K =
     \<lparr>pd_store = mem_queue_store queue_cell, pd_executor = managed_execute (worker_executor K),
      pd_fallbackExecutor = codex_execute (worker_fallback K), pd_safeguards = wc_safeguards K,
      pd_backoffBaseMs = wc_backoffBaseMs K, pd_backoffMaxMs = wc_backoffMaxMs K,
      pd_state = processor_cell\<rparr>"

definition worker_unread :: "'e worker_world unread_service" where
  "worker_unread = \<lparr>uv_snapshotStore = mem_snapshot_store snapshots_cell,
     uv_stateStore = mem_unread_state notified_cell\<rparr>"

definition worker_service :: "'e worker_config \<Rightarrow> 'e worker_world registry_service" where
  "worker_service K = \<lparr>rg_store = worker_registry K, rg_now = io_return (wc_now K)\<rparr>"

definition worker_loop_of :: "'e worker_config \<Rightarrow> 'e worker_world worker_loop" where
  "worker_loop_of K = \<lparr>wl_unread = worker_unread, wl_registry = worker_service K,
     wl_processDueJobs = processDueJobs (worker_processor K)\<rparr>"

definition worker_jobs :: "'e worker_world \<Rightarrow> job_view" where
  "worker_jobs w = mem_queue_jobs (ww_queue w)"

definition worker_queue_inv :: "'e worker_world \<Rightarrow> bool" where
  "worker_queue_inv w \<longleftrightarrow> mem_queue_inv (ww_queue w)"

section \<open>What the executors leave alone\<close>

lemma worker_executor_frame:
  assumes "reflp R" "transp R" "\<And>c. stays R (worker_run K c)" "\<And>w. R w w"
    "\<And>w b. R w (cell_put busy_cell b w)" "\<And>w f. R w (cell_put failures_cell f w)"
  shows "executor_frame R (worker_executor K) (worker_fallback K)"
proof -
  have "stays R (rs_getRuntime (worker_registry K) a ws)" for a ws
    using assms(4) by (auto simp: stays_def worker_registry_def mem_runtime_store_def io_cell_iff
        mr_getRuntime_def runtimes_cell_def)
  then show ?thesis
    by unfold_locales
      (simp_all add: assms worker_executor_def worker_fallback_def stays_deliver [where R = R, OF assms(1-3)])
qed

definition same_queue :: "'e worker_world \<Rightarrow> 'e worker_world \<Rightarrow> bool" where
  "same_queue w w' \<longleftrightarrow> ww_queue w' = ww_queue w \<and> ww_processor w' = ww_processor w"

definition same_registry :: "'e worker_world \<Rightarrow> 'e worker_world \<Rightarrow> bool" where
  "same_registry w w' \<longleftrightarrow> ww_runtimes w' = ww_runtimes w \<and> ww_notified w' = ww_notified w \<and>
     ww_snapshots w' = ww_snapshots w"

interpretation queue_frame: executor_frame same_queue "worker_executor K" "worker_fallback K" for K
  by (rule worker_executor_frame)
    (auto simp: same_queue_def reflp_def transp_def stays_def worker_run_def cell_defs split: prod.splits)

interpretation registry_frame: executor_frame same_registry "worker_executor K" "worker_fallback K" for K
  by (rule worker_executor_frame)
    (auto simp: same_registry_def reflp_def transp_def stays_def worker_run_def cell_defs split: prod.splits)

text \<open>
  A preorder that the executors respect, and every change of the queue and of the processor's
  own state, is respected by a run of the processor.
\<close>

lemma worker_processing_frame:
  assumes "reflp R" "transp R" "\<And>w s. R w (cell_put queue_cell s w)"
    "\<And>w p. R w (cell_put processor_cell p w)"
    "\<And>job n t. stays R (managed_execute (worker_executor K) job n t)"
    "\<And>job n i t. stays R (codex_execute (worker_fallback K) job n i t)"
  shows "processing_frame R (worker_processor K)"
  by unfold_locales
    (simp_all add: assms worker_processor_def mem_queue_store_def stays_cell [where C = queue_cell and R = R, OF assms(3)])

interpretation registry_processing: processing_frame same_registry "worker_processor K" for K
  by (rule worker_processing_frame)
    (simp_all add: registry_frame.pre registry_frame.keeps_execute registry_frame.keeps_codex
       same_registry_def cell_defs)

lemmas processing_keeps_registry = registry_processing.keeps_processing

section \<open>The contracts hold\<close>

interpretation worker_trace: command_trace "worker_run K" ww_commands for K
  by unfold_locales (auto simp: worker_run_def split: prod.splits)

definition worker_runtimes :: "'e worker_world \<Rightarrow> string runtime_view" where
  "worker_runtimes w = js_get (ww_runtimes w)"

definition worker_runtimes_inv :: "'e worker_world \<Rightarrow> bool" where
  "worker_runtimes_inv w \<longleftrightarrow> mem_runtimes_inv (ww_runtimes w)"

interpretation worker_rts: runtime_registry_contract "worker_registry K" worker_runtimes runtimeKey
  worker_runtimes_inv for K
  using mem_runtime_contract [OF cells_lawful(3), of "wc_now K"]
  by (simp add: worker_registry_def worker_runtimes_def [abs_def] worker_runtimes_inv_def [abs_def])

interpretation worker_fb: traced_fallback "worker_fallback K" ww_commands for K
proof (unfold_locales, goal_cases)
  case (1 c w r w')
  then show ?case by (auto simp: worker_fallback_def worker_run_def split: prod.splits)
next
  case (2 a ws w g w')
  then show ?case
    by (auto simp: worker_fallback_def worker_registry_def mem_runtime_store_def io_cell_iff
        mr_getRuntime_def runtimes_cell_def)
next
  case (3 s w)
  show ?case by (simp add: worker_fallback_def failures_cell_def)
qed

definition worker_notified :: "'e worker_world \<Rightarrow> string \<Rightarrow> int option" where
  "worker_notified w k = map_option fst (js_get (ww_notified w) k)"

interpretation worker_us: unread_state_contract "mem_unread_state notified_cell" worker_notified
  reconciliationStateKey
  using mem_unread_contract [OF cells_lawful(7)]
  by (simp add: worker_notified_def [abs_def])

lemma worker_queue_same:
  "same_queue w w' \<Longrightarrow> worker_jobs w' = worker_jobs w \<and> worker_queue_inv w' = worker_queue_inv w \<and>
     cell_get processor_cell w' = cell_get processor_cell w"
  by (simp add: same_queue_def worker_jobs_def worker_queue_inv_def)

lemmas execute_same = worker_queue_same [OF staysD [OF queue_frame.keeps_execute]]

lemmas codex_same = worker_queue_same [OF staysD [OF queue_frame.keeps_codex]]

lemma worker_processor_sel [simp]:
  "pd_store (worker_processor K) = mem_queue_store queue_cell"
  "pd_executor (worker_processor K) = managed_execute (worker_executor K)"
  "pd_fallbackExecutor (worker_processor K) = codex_execute (worker_fallback K)"
  "pd_safeguards (worker_processor K) = wc_safeguards K"
  "pd_state (worker_processor K) = processor_cell"
  by (simp_all add: worker_processor_def)

lemma queue_cell_processor [simp]: "ww_processor (cell_put queue_cell s w) = ww_processor w"
  by (simp add: cell_defs)

lemma worker_queue_processor: "queue_processor (worker_processor K) worker_jobs worker_queue_inv"
proof (rule queue_processor.intro)
  show "trigger_queue_contract (pd_store (worker_processor K)) worker_jobs worker_queue_inv"
    using mem_queue_contract [OF cells_lawful(1)]
    by (simp add: worker_jobs_def [abs_def] worker_queue_inv_def [abs_def])
  show "queue_processor_axioms (worker_processor K) worker_jobs worker_queue_inv"
  proof (unfold_locales, goal_cases)
    case (1 w s)
    then show ?case by (simp add: worker_jobs_def worker_queue_inv_def processor_cell_def)
  next
    case (2 job n t w o' w')
    then show ?case by (auto dest: execute_same)
  next
    case (3 job n t w out w')
    then show ?case by (simp add: managed_ok)
  next
    case (4 job n out t w f w')
    then show ?case by (auto dest: codex_same)
  next
    case (5 job n out t w fo w')
    then show ?case by (simp add: codex_ok)
  qed
qed

interpretation worker_q: guarded_processor "worker_processor K" worker_jobs worker_queue_inv for K
proof (rule guarded_processor.intro [OF worker_queue_processor], unfold_locales, goal_cases)
  case 1
  show ?case by simp
next
  case (2 job n t w o' w')
  then show ?case by (auto dest: execute_same)
next
  case (3 job n out t w f w')
  then show ?case by (auto dest: codex_same)
qed (auto simp: mem_queue_store_def io_cell_iff)

end
