(* ===== verification/WorkerProperties.thy ===== *)
theory WorkerProperties
  imports WorkerInMemory
begin

text \<open>The properties of the supervisor worker, on its in-memory stores.\<close>

section \<open>A configuration for the witnesses\<close>

definition demo_job :: "string \<Rightarrow> int \<Rightarrow> trigger_job" where
  "demo_job i created =
     \<lparr>tj_triggerId = i, tj_threadId = ''th_1'', tj_workspaceId = ''w'', tj_targetAgentId = ''a'',
      tj_targetSessionId = Some ''s'', tj_reason = ''new'', tj_prompt = ''go'', tj_status = Queued,
      tj_attempts = 0, tj_maxRetries = 2, tj_nextRetryAt = None, tj_createdAt = created,
      tj_updatedAt = created\<rparr>"

definition demo_runtime :: session where
  "demo_runtime = \<lparr>se_agentId = ''a'', se_workspaceId = ''w'', se_sessionId = ''s'',
     se_runtime = ''tmux:main.1'', se_managementMode = Managed, se_resumable = True,
     se_status = SIdle, se_lastHeartbeatAt = 0, se_updatedAt = 0\<rparr>"

definition demo_worker :: "unit worker_config" where
  "demo_worker =
     \<lparr>wc_run = (\<lambda>c e. (Inr \<lparr>cr_exitCode = 0, cr_stdout = ''0|7'', cr_stderr = []\<rparr>, e)),
      wc_safeguards = DEFAULT_TRIGGER_QUEUE_SAFEGUARDS,
      wc_runtimeSafeguards = DEFAULT_RUNTIME_TRIGGER_SAFEGUARDS,
      wc_codex = DEFAULT_CODEX_FALLBACK_CONFIG, wc_backoffBaseMs = 2000, wc_backoffMaxMs = 60000,
      wc_maxPayloadBytes = None, wc_now = 0\<rparr>"

definition start_world :: "trigger_job list \<Rightarrow> mem_runtimes \<Rightarrow> unread_snapshot list \<Rightarrow> unit worker_world" where
  "start_world js rts snaps =
     \<lparr>ww_queue = InMemoryTriggerQueueStore js,
      ww_processor = \<lparr>ps_rateLimitEvents = [], ps_threadLoopState = []\<rparr>,
      ww_runtimes = rts, ww_busy = [], ww_failures = [], ww_snapshots = snaps, ww_notified = [],
      ww_commands = [], ww_env = ()\<rparr>"

definition demo_worker_world :: "unit worker_world" where
  "demo_worker_world = start_world [demo_job ''j2'' 20, demo_job ''j1'' 10]
     [(''a::w'', demo_runtime)] []"

definition lone_job_world :: "unit worker_world" where
  "lone_job_world = start_world [demo_job ''j1'' 10] [] []"

lemma start_inv: "worker_queue_inv (start_world js rts snaps)"
  by (simp add: worker_queue_inv_def start_world_def seed_inv)

lemma demo_jobs: "worker_jobs demo_worker_world ''j1'' = Some (demo_job ''j1'' 10)"
  by code_simp

lemma demo_queue_inv: "worker_queue_inv demo_worker_world"
  by (simp add: demo_worker_world_def start_inv)

lemma lone_queue_inv: "worker_queue_inv lone_job_world"
  by (simp add: lone_job_world_def start_inv)

lemma right_of: "\<not> isl (fst p) \<Longrightarrow> p = (Inr (projr (fst p)), snd p)"
  by (rule run_ok) simp

section \<open>The queue\<close>

text \<open>C11: a claim takes due jobs of the workspace only, the oldest first and no more than the
  limit but as many as there are up to it. Each is marked as being triggered, nothing else
  changes, and a later claim, at any time, takes none of them again.\<close>

theorem claims_oldest_due_jobs:
  assumes "mem_queue_inv s" "0 \<le> l" "mq_claimDueJobs ws l t s = (Inr js, s')"
  defines "due \<equiv> {i. \<exists>d. mem_queue_jobs s i = Some d \<and> job_due ws t d}"
  shows "tj_triggerId ` set js \<subseteq> due \<and> distinct (map tj_triggerId js) \<and>
    int (length js) = min l (int (card due)) \<and> sorted (map tj_createdAt js) \<and>
    (\<forall>i d j. i \<in> due \<and> mem_queue_jobs s i = Some d \<and> i \<notin> tj_triggerId ` set js \<and> j \<in> set js \<longrightarrow>
       tj_createdAt j \<le> tj_createdAt d) \<and>
    mem_queue_jobs s' = (\<lambda>i. if i \<in> tj_triggerId ` set js then map_option (claim t) (mem_queue_jobs s i)
       else mem_queue_jobs s i) \<and>
    (\<forall>ws2 l2 t2 js2 s2. mq_claimDueJobs ws2 l2 t2 s' = (Inr js2, s2) \<longrightarrow>
       tj_triggerId ` set js2 \<inter> tj_triggerId ` set js = {})"
proof -
  let ?f = "filter (job_due ws t) (js_values (mq_jobs s))"
  let ?all = "sort_asc tj_createdAt ?f"
  let ?cs = "due_jobs ws l t s"
  have cs: "?cs = take (nat l) ?all" using assms(2) by (simp add: due_jobs_def js_slice0_def)
  from mem_claim [OF assms(1), of ws l t] assms(3) have js: "js = map (claim t) ?cs"
    and s': "mem_queue_inv s'" "mem_queue_jobs s' = claimed_view t ?cs (mem_queue_jobs s)" by auto
  have ids: "tj_triggerId ` set js = tj_triggerId ` set ?cs" by (simp add: js image_image)
  note facts = due_jobs_facts [OF assms(1), where ws = ws and l = l and t = t]
  have filed: "filed (mem_queue_jobs s)" using assms(1) by (simp add: mem_queue_inv_def)
  have stored: "d \<in> set (js_values (mq_jobs s)) \<and> tj_triggerId d = i" if "mem_queue_jobs s i = Some d" for i d
    using map_of_SomeD [OF that [unfolded mem_queue_jobs_def]] filedD [OF filed that] by force
  have due: "due = tj_triggerId ` set ?f"
  proof (intro set_eqI iffI)
    fix i assume "i \<in> due"
    then obtain d where d: "mem_queue_jobs s i = Some d" "job_due ws t d" unfolding due_def by blast
    with stored [OF d(1)] show "i \<in> tj_triggerId ` set ?f" by (intro image_eqI [of _ _ d]) auto
  next
    fix i assume "i \<in> tj_triggerId ` set ?f"
    then obtain d where "d \<in> set (js_values (mq_jobs s))" "job_due ws t d" "i = tj_triggerId d" by auto
    with inv_value [OF assms(1), of d] show "i \<in> due" unfolding due_def mem_queue_jobs_def by blast
  qed
  have card: "card due = length ?all"
  proof -
    have "card (set (map tj_triggerId ?f)) = length (map tj_triggerId ?f)"
      by (rule distinct_card [OF distinct_map_filter [OF inv_ids_distinct [OF assms(1)]]])
    then show ?thesis unfolding due set_map sort_asc_def length_map length_sort .
  qed
  have sub: "tj_triggerId ` set js \<subseteq> due" unfolding ids due cs by (auto dest!: in_set_takeD)
  have older: "tj_createdAt j \<le> tj_createdAt d"
    if h: "i \<in> due" "mem_queue_jobs s i = Some d" "i \<notin> tj_triggerId ` set js" "j \<in> set js" for i d j
  proof -
    obtain c where c: "c \<in> set ?cs" "tj_createdAt j = tj_createdAt c" using h(4) by (auto simp: js)
    have "d \<in> set ?all" using h(1,2) stored [OF h(2)] by (auto simp: due_def)
    moreover have "tj_triggerId d = i" by (rule filedD [OF filed h(2)])
    ultimately have "d \<in> set (drop (nat l) ?all)"
      using h(3) unfolding ids cs by (metis append_take_drop_id image_eqI Un_iff set_append)
    moreover have "sorted (map tj_createdAt (take (nat l) ?all) @ map tj_createdAt (drop (nat l) ?all))"
      by (metis append_take_drop_id map_append sort_asc_sorted)
    then have "\<forall>x\<in>set (take (nat l) ?all). \<forall>y\<in>set (drop (nat l) ?all). tj_createdAt x \<le> tj_createdAt y"
      unfolding sorted_append by simp
    ultimately show ?thesis using c unfolding cs by simp
  qed
  have disj: "tj_triggerId ` set js2 \<inter> tj_triggerId ` set js = {}"
    if "mq_claimDueJobs ws2 l2 t2 s' = (Inr js2, s2)" for ws2 l2 t2 js2 s2
  proof -
    from mem_claim [OF s'(1), of ws2 l2 t2] that have "js2 = map (claim t2) (due_jobs ws2 l2 t2 s')" by auto
    with due_jobs_facts(3) [OF s'(1), where ws = ws2 and l = l2 and t = t2] show ?thesis
      unfolding ids s'(2) using facts(3)
      by (fastforce simp: claimed_view_def job_due_def DUE_TRIGGER_STATUSES_def)
  qed
  have view: "mem_queue_jobs s' = (\<lambda>i. if i \<in> tj_triggerId ` set js
      then map_option (claim t) (mem_queue_jobs s i) else mem_queue_jobs s i)"
    unfolding ids s'(2) claimed_view_def ..
  have "int (length js) = min l (int (card due))" using assms(2) by (simp add: js cs card)
  moreover have "distinct (map tj_triggerId js)" "sorted (map tj_createdAt js)"
    using facts(1,2) by (simp_all add: js comp_def)
  ultimately show ?thesis using sub older disj view by blast
qed

theorem claims_oldest_due_jobs_witness:
  "tj_triggerId ` set (projr (fst (mq_claimDueJobs ''w'' 1 50 (ww_queue demo_worker_world))))
     \<subseteq> {i. \<exists>d. mem_queue_jobs (ww_queue demo_worker_world) i = Some d \<and> job_due ''w'' 50 d}"
proof -
  have r: "mq_claimDueJobs ''w'' 1 50 (ww_queue demo_worker_world) =
      (Inr (projr (fst (mq_claimDueJobs ''w'' 1 50 (ww_queue demo_worker_world)))),
       snd (mq_claimDueJobs ''w'' 1 50 (ww_queue demo_worker_world)))"
    by (rule right_of) code_simp
  show ?thesis
    using claims_oldest_due_jobs [OF _ _ r] demo_queue_inv by (simp add: worker_queue_inv_def)
qed

text \<open>A run of the processor accounts for every job it claimed: as delivered, retried or
  failed. It claims no more than the limit, and reports as dead letters only jobs of the
  workspace that have failed.\<close>

theorem processing_adds_up:
  assumes "worker_queue_inv w" "0 \<le> l" "processDueJobs (worker_processor K) ws l t w = (Inr res, w')"
  shows "qr_claimedJobs res = qr_delivered res + qr_retried res + qr_failed res \<and>
    qr_deadLettered res \<le> qr_failed res \<and>
    qr_fallbackResumed res + qr_fallbackSpawned res \<le> qr_delivered res \<and>
    qr_autoBlocked res \<le> qr_claimedJobs res \<and> int (qr_claimedJobs res) \<le> l \<and>
    (\<forall>i\<in>set (qr_deadLetterJobIds res). \<exists>j. worker_jobs w' i = Some j \<and> tj_status j = Failed \<and>
       tj_workspaceId j = ws)"
  using worker_q.processDueJobs_counts [OF assms(3,1)] assms(2) by blast

lemma demo_processes:
  "isl (fst (processDueJobs (worker_processor demo_worker) ''w'' 5 50 lone_job_world)) = False"
  by code_simp

theorem processing_adds_up_witness:
  "\<exists>res w'. processDueJobs (worker_processor demo_worker) ''w'' 5 50 lone_job_world = (Inr res, w') \<and>
    qr_claimedJobs res = qr_delivered res + qr_retried res + qr_failed res"
  using processing_adds_up [OF lone_queue_inv _ right_of [OF demo_processes [unfolded eq_False]]]
    right_of [OF demo_processes [unfolded eq_False]] by force

text \<open>C5: whatever runs of the processor follow each other, each job goes along the life cycle of
  a job: a due job is claimed, a claimed one is settled. Its identity never changes, its
  attempts never go down, a job that is timed out still has retries, and a job that is in none
  of the three due statuses stays exactly as it is.\<close>

theorem job_life_cycle:
  assumes "worker_queue_inv w" "worker_jobs w i = Some j"
    "tj_status j = Timeout \<longrightarrow> tj_attempts j \<le> tj_maxRetries j"
  shows "\<exists>j'. worker_jobs (run_ticks (worker_processor K) ticks w) i = Some j' \<and> job_steps j j' \<and>
    tj_triggerId j' = tj_triggerId j \<and> tj_threadId j' = tj_threadId j \<and>
    tj_workspaceId j' = tj_workspaceId j \<and> tj_targetAgentId j' = tj_targetAgentId j \<and>
    tj_prompt j' = tj_prompt j \<and> tj_attempts j \<le> tj_attempts j' \<and>
    (tj_status j' = Timeout \<longrightarrow> tj_attempts j' \<le> tj_maxRetries j') \<and>
    (tj_status j \<notin> {Queued, Timeout, Deferred} \<longrightarrow> j' = j)"
proof -
  from worker_q.ticks_steps [OF assms(1,2), of K ticks] obtain j' where
    j': "worker_jobs (run_ticks (worker_processor K) ticks w) i = Some j'" "job_steps j j'"
    "tj_status j \<notin> set DUE_TRIGGER_STATUSES \<longrightarrow> j' = j" by blast
  with job_steps_frame [OF j'(2)] job_steps_retries [OF j'(2) assms(3)] show ?thesis
    by (intro exI [of _ j']) (simp add: DUE_TRIGGER_STATUSES_def)
qed

theorem job_life_cycle_witness:
  "\<exists>j'. worker_jobs (run_ticks (worker_processor demo_worker) [(''w'', 1, 50), (''w'', 5, 60)]
      demo_worker_world) ''j1'' = Some j' \<and> job_steps (demo_job ''j1'' 10) j'"
  using job_life_cycle [OF demo_queue_inv demo_jobs, of demo_worker "[(''w'', 1, 50), (''w'', 5, 60)]"]
  by (force simp: demo_job_def)

text \<open>C6: retries end. Whatever the executor answers (even if it defers the job every time), a
  job that is alone in its thread is attempted at most \<open>loopMaxTurns\<close> more times, and when it
  has been, it has left the queue for good.\<close>

theorem retries_end:
  assumes "worker_queue_inv w" "worker_jobs w i = Some j"
    "\<forall>k j'. worker_jobs w k = Some j' \<longrightarrow> tj_threadId j' = tj_threadId j \<longrightarrow> k = i"
    "0 < sg_loopMaxTurns (wc_safeguards K)"
    "loop_of (ww_processor w) (tj_threadId j) = None"
  shows "\<exists>j'. worker_jobs (run_ticks (worker_processor K) ticks w) i = Some j' \<and>
    tj_attempts j' \<le> tj_attempts j + sg_loopMaxTurns (wc_safeguards K) \<and>
    (tj_attempts j' = tj_attempts j + sg_loopMaxTurns (wc_safeguards K) \<longrightarrow>
       tj_status j' \<notin> {Queued, Timeout, Deferred})"
proof -
  have "worker_q.alone i (tj_threadId j) w" "0 \<le> worker_q.turns K (tj_threadId j) w"
    using assms(3,5) by (auto simp: worker_q.alone_def worker_q.turns_def worker_q.guard_at_def)
  from worker_q.attempts_bounded [where K = K and ticks = ticks, OF assms(1) this(1) assms(2) refl _ this(2)]
    assms(4)
  show ?thesis by (simp add: DUE_TRIGGER_STATUSES_def)
qed

lemma lone_job: "worker_jobs lone_job_world = [''j1'' \<mapsto> demo_job ''j1'' 10]"
  by (rule ext) (simp add: lone_job_world_def start_world_def worker_jobs_def mem_queue_jobs_def
      InMemoryTriggerQueueStore_def triggerKey_def demo_job_def)

theorem retries_end_witness:
  "\<exists>j'. worker_jobs (run_ticks (worker_processor demo_worker) (replicate 30 (''w'', 1, 50))
      lone_job_world) ''j1'' = Some j' \<and> tj_attempts j' \<le> 20"
proof -
  have "loop_of (ww_processor lone_job_world) x = None" for x
    by (simp add: lone_job_world_def start_world_def loop_of_def)
  from retries_end [OF lone_queue_inv, of "''j1''" "demo_job ''j1'' 10" demo_worker, OF _ _ _ this]
  show ?thesis
    by (force simp: lone_job demo_job_def demo_worker_def DEFAULT_TRIGGER_QUEUE_SAFEGUARDS_def
        split: if_split_asm)
qed

text \<open>C34: a run that an error stops leaves every job as it was, settled, or claimed; and a job
  that is left claimed is never looked at again, however often the processor runs.\<close>

theorem failed_run_strands_claimed_jobs:
  assumes "worker_queue_inv w" "processDueJobs (worker_processor K) ws l t w = (Inl e, w')"
    "worker_jobs w i = Some j"
  shows "worker_jobs w' i = Some j \<or>
    (\<exists>plan. settles j plan \<and> worker_jobs w' i = Some (settle (transition_of j t plan) j)) \<or>
    (\<forall>ticks. worker_jobs (run_ticks (worker_processor K) ticks w') i = Some (claim t j))"
proof -
  from worker_q.processDueJobs_effect [OF assms(2,1)] assms(3)
  have inv: "worker_queue_inv w'" and c: "worker_jobs w' i = Some j \<or>
    (\<exists>plan. settles j plan \<and> worker_jobs w' i = Some (settle (transition_of j t plan) j)) \<or>
    worker_jobs w' i = Some (claim t j)" by (metis option.inject)+
  have "worker_jobs (run_ticks (worker_processor K) ticks w') i = Some (claim t j)"
    if "worker_jobs w' i = Some (claim t j)" for ticks
    using worker_q.ticks_steps [OF inv that, of K ticks] by (auto simp: DUE_TRIGGER_STATUSES_def)
  with c show ?thesis by blast
qed

definition broken_worker :: "unit worker_config" where
  "broken_worker = demo_worker\<lparr>wc_run := (\<lambda>c e. (Inl (OtherExn ''spawn ENOENT''), e))\<rparr>"

lemma broken_fails:
  "isl (fst (processDueJobs (worker_processor broken_worker) ''w'' 5 50 lone_job_world))"
  "worker_jobs (snd (processDueJobs (worker_processor broken_worker) ''w'' 5 50 lone_job_world)) ''j1''
     = Some (claim 50 (demo_job ''j1'' 10))"
  by code_simp+

theorem failed_run_strands_claimed_jobs_witness:
  "\<forall>ticks. worker_jobs (run_ticks (worker_processor broken_worker) ticks
     (snd (processDueJobs (worker_processor broken_worker) ''w'' 5 50 lone_job_world))) ''j1''
       = Some (claim 50 (demo_job ''j1'' 10))"
proof -
  obtain e w' where run: "processDueJobs (worker_processor broken_worker) ''w'' 5 50 lone_job_world = (Inl e, w')"
    using broken_fails(1) by (cases "processDueJobs (worker_processor broken_worker) ''w'' 5 50 lone_job_world") (auto simp: isl_def)
  have "worker_jobs w' ''j1'' = Some (claim 50 (demo_job ''j1'' 10))"
    using broken_fails(2) by (simp only: run snd_conv)
  with failed_run_strands_claimed_jobs [OF lone_queue_inv run, of "''j1''" "demo_job ''j1'' 10"]
  show ?thesis
    by (auto simp: run lone_job claim_def demo_job_def settle_def transition_of_def)
qed



section \<open>Safeguards\<close>

text \<open>C19: no target is triggered more often than the limit allows: in every window of a minute,
  wherever it starts, at most \<open>rateLimitPerMinute\<close> requests of a thread and agent get through.\<close>

theorem rate_limit_holds:
  assumes "sorted (map snd requests)"
  shows "int (length (filter (\<lambda>t. t0 \<le> t \<and> t \<le> t0 + 60000)
      (admitted G k requests \<lparr>ps_rateLimitEvents = [], ps_threadLoopState = []\<rparr>)))
    \<le> max 0 (sg_rateLimitPerMinute G)"
proof (cases requests)
  case Nil
  then show ?thesis by simp
next
  case (Cons x xs)
  have "rate_inv G k [] (snd x) \<lparr>ps_rateLimitEvents = [], ps_threadLoopState = []\<rparr>"
    by (simp add: rate_inv_def rate_events_def in_window_def)
  from admitted_inv [OF this, of requests t0] assms show ?thesis
    by (simp add: Cons in_window_def)
qed

theorem rate_limit_holds_witness:
  "int (length (filter (\<lambda>t. 0 \<le> t \<and> t \<le> 0 + 60000)
      (admitted (DEFAULT_TRIGGER_QUEUE_SAFEGUARDS\<lparr>sg_rateLimitPerMinute := 2\<rparr>) ''w:th_1:a''
        [(demo_job ''a'' 0, 1), (demo_job ''b'' 0, 2), (demo_job ''c'' 0, 3), (demo_job ''d'' 0, 60003)]
        \<lparr>ps_rateLimitEvents = [], ps_threadLoopState = []\<rparr>)))
    \<le> max 0 (sg_rateLimitPerMinute (DEFAULT_TRIGGER_QUEUE_SAFEGUARDS\<lparr>sg_rateLimitPerMinute := 2\<rparr>))"
  by (rule rate_limit_holds) simp

text \<open>C20: the state of the loop guard of a thread is that of its history: the number of outcomes
  since the last progress, the code of the latest, and how many of the latest share that code.
  The next outcome blocks the thread exactly if the run without progress or the run of one code
  has reached its limit.\<close>

theorem loop_guard_refines_history:
  "loop_of (guard_run G events \<lparr>ps_rateLimitEvents = [], ps_threadLoopState = []\<rparr>) th =
     guard_abs (history_of th events) \<and>
   (fst (updateLoopState G th o' (guard_run G events
       \<lparr>ps_rateLimitEvents = [], ps_threadLoopState = []\<rparr>)) \<noteq> None) =
     must_block G (o' # history_of th events)"
proof -
  have "loop_of (guard_run G events \<lparr>ps_rateLimitEvents = [], ps_threadLoopState = []\<rparr>) th =
     guard_abs (history_of th events @ [])"
    by (rule guard_run_refines) (simp add: loop_of_def guard_abs_def stalled_def)
  moreover from this have "(fst (updateLoopState G th o' (guard_run G events
       \<lparr>ps_rateLimitEvents = [], ps_threadLoopState = []\<rparr>)) \<noteq> None) =
     must_block G (o' # history_of th events)"
    by (intro guard_step(2) [OF surjective_pairing]) simp
  ultimately show ?thesis by simp
qed

text \<open>The backoff starts at the base, doubles with every attempt until it meets the cap, never
  exceeds it and never goes down.\<close>

theorem backoff_doubles_up_to_cap:
  assumes "0 \<le> pd_backoffBaseMs P" "0 \<le> pd_backoffMaxMs P" "1 \<le> n"
  shows "computeBackoffMs P 1 = min (pd_backoffBaseMs P) (pd_backoffMaxMs P) \<and>
    computeBackoffMs P (n + 1) = min (2 * computeBackoffMs P n) (pd_backoffMaxMs P) \<and>
    computeBackoffMs P n \<le> computeBackoffMs P (n + 1) \<and>
    0 \<le> computeBackoffMs P n \<and> computeBackoffMs P n \<le> pd_backoffMaxMs P"
proof -
  define x where "x = pd_backoffBaseMs P * 2 ^ nat (n - 1)"
  have "nat n = Suc (nat (n - 1))" using assms(3) by simp
  then have e: "computeBackoffMs P (n + 1) = min (2 * x) (pd_backoffMaxMs P)"
    "computeBackoffMs P n = min x (pd_backoffMaxMs P)"
    "computeBackoffMs P 1 = min (pd_backoffBaseMs P) (pd_backoffMaxMs P)"
    using assms(3) by (simp_all add: computeBackoffMs_def Let_def x_def max_def)
  have "0 \<le> x" using assms(1) by (simp add: x_def)
  then have "min (2 * x) (pd_backoffMaxMs P) = min (2 * min x (pd_backoffMaxMs P)) (pd_backoffMaxMs P)"
    using assms(2) by linarith
  with backoff_bounds(1,2) [OF assms(1,2), of n] backoff_bounds(3) [OF assms(1,2), of n "n + 1"]
  show ?thesis unfolding e by simp
qed

definition plain_processor :: "unit processor" where
  "plain_processor =
     \<lparr>pd_store = mem_queue_store \<lparr>cell_get = (\<lambda>_. InMemoryTriggerQueueStore []), cell_put = (\<lambda>_ w. w)\<rparr>,
      pd_executor = NotImplementedTriggerJobExecutor, pd_fallbackExecutor = NoopTriggerFallbackExecutor,
      pd_safeguards = DEFAULT_TRIGGER_QUEUE_SAFEGUARDS, pd_backoffBaseMs = 2000, pd_backoffMaxMs = 60000,
      pd_state = \<lparr>cell_get = (\<lambda>_. \<lparr>ps_rateLimitEvents = [], ps_threadLoopState = []\<rparr>), cell_put = (\<lambda>_ w. w)\<rparr>\<rparr>"

lemma plain_backoff: "pd_backoffBaseMs plain_processor = 2000" "pd_backoffMaxMs plain_processor = 60000"
  by (simp_all add: plain_processor_def)

theorem backoff_doubles_up_to_cap_witness:
  "computeBackoffMs plain_processor (3 + 1) = min (2 * computeBackoffMs plain_processor 3) 60000"
proof -
  have "(0::int) \<le> 2000" "(0::int) \<le> 60000" "(1::int) \<le> 3" by simp_all
  from backoff_doubles_up_to_cap [of plain_processor 3, unfolded plain_backoff, OF this]
  show ?thesis by (elim conjE)
qed

end
