(* ===== verification/DeliveryProperties.thy ===== *)
theory DeliveryProperties
  imports WorkerProperties
begin

text \<open>The properties of the delivery of a trigger, of its payload and of the fallback.\<close>

lemma worker_get [simp]:
  "rs_getRuntime (worker_registry K) a ws w = (Inr (worker_runtimes w (runtimeKey a ws)), w)"
  by (simp add: worker_registry_def mem_runtime_store_def io_cell_def io_zoom_def mr_getRuntime_def
      runtimes_cell_def worker_runtimes_def)

definition request_for :: "trigger_job \<Rightarrow> session \<Rightarrow> delivery_request" where
  "request_for job runtime =
     \<lparr>dq_runtime = runtime, dq_triggerId = tj_triggerId job, dq_threadId = tj_threadId job,
      dq_reason = tj_reason job, dq_prompt = tj_prompt job, dq_forceOverride = forces_override job\<rparr>"

lemma request_for_sel [simp]:
  "dq_runtime (request_for job s) = s" "dq_forceOverride (request_for job s) = forces_override job"
  "dq_triggerId (request_for job s) = tj_triggerId job" "dq_threadId (request_for job s) = tj_threadId job"
  "dq_reason (request_for job s) = tj_reason job" "dq_prompt (request_for job s) = tj_prompt job"
  by (simp_all add: request_for_def)

lemma worker_executor_sel:
  "mx_registry (worker_executor K) = worker_registry K"
  "mx_ptyAdapter (worker_executor K) = deliver (worker_run K) (wc_maxPayloadBytes K)"
  "mx_safeguards (worker_executor K) = wc_runtimeSafeguards K"
  "mx_lastBusyAt (worker_executor K) = busy_cell"
  by (simp_all add: worker_executor_def)

lemma busy_keeps_commands: "ww_commands (cell_put busy_cell b w) = ww_commands w"
  by (simp add: busy_cell_def)

text \<open>
  An execution either ends before the delivery and runs nothing, or it delivers to the runtime
  that passed the checks, and the commands are those of the delivery.
\<close>

lemma execute_commands:
  assumes "managed_execute (worker_executor K) job n t w = (r, w')"
  shows "(\<exists>o'. r = Inr o' \<and> eo_attemptResult o' \<noteq> ADelivered \<and>
      eo_errorCode o' \<noteq> Some ''SEND_KEYS_ERROR'' \<and> ww_commands w' = ww_commands w) \<or>
    (\<exists>runtime w1 x w2 b. check_runtime job (worker_runtimes w (runtimeKey (tj_targetAgentId job)
        (tj_workspaceId job))) = Inr runtime \<and> ww_commands w1 = ww_commands w \<and>
      deliver (worker_run K) (wc_maxPayloadBytes K) (request_for job runtime) w1 = (Inr x, w2) \<and>
      ww_commands w' = ww_commands w2 \<and>
      r = Inr (fst (after_delivery (wc_runtimeSafeguards K) job runtime t x b))) \<or>
    (\<exists>runtime w1 e. check_runtime job (worker_runtimes w (runtimeKey (tj_targetAgentId job)
        (tj_workspaceId job))) = Inr runtime \<and> ww_commands w1 = ww_commands w \<and>
      deliver (worker_run K) (wc_maxPayloadBytes K) (request_for job runtime) w1 = (Inl e, w') \<and> r = Inl e)"
proof -
  have early: "eo_attemptResult o' \<noteq> ADelivered \<and> eo_errorCode o' \<noteq> Some ''SEND_KEYS_ERROR''"
    if "check_runtime job found = Inl o'" for found o'
    using that by (auto simp: check_runtime_def split: option.split_asm if_split_asm)
  have quiet: "eo_attemptResult o' \<noteq> ADelivered \<and> eo_errorCode o' \<noteq> Some ''SEND_KEYS_ERROR''"
    if "quiet_window G job rt t b = Some o'" for G rt b o'
    using that by (auto simp: quiet_window_def Let_def split: option.split_asm if_split_asm)
  let ?found = "worker_runtimes w (runtimeKey (tj_targetAgentId job) (tj_workspaceId job))"
  have run: "managed_execute (worker_executor K) job n t w =
     (case check_runtime job ?found of
       Inl early \<Rightarrow> io_return early
     | Inr runtime \<Rightarrow>
         io_bind (io_cell busy_cell
             (io_pure (\<lambda>busy. (quiet_window (wc_runtimeSafeguards K) job runtime t busy, busy)))) (\<lambda>quiet.
         case quiet of
           Some early \<Rightarrow> io_return early
         | None \<Rightarrow>
             io_bind (deliver (worker_run K) (wc_maxPayloadBytes K) (request_for job runtime)) (\<lambda>delivery.
               io_cell busy_cell
                 (io_pure (after_delivery (wc_runtimeSafeguards K) job runtime t delivery))))) w"
    unfolding managed_execute_def worker_executor_sel request_for_def
    by (subst io_bind_run [OF worker_get]) (rule refl)
  show ?thesis
  proof (cases "check_runtime job ?found")
    case (Inl o')
    with assms early [OF Inl] show ?thesis by (auto simp: run)
  next
    case (Inr runtime)
    let ?q = "quiet_window (wc_runtimeSafeguards K) job runtime t (cell_get busy_cell w)"
    let ?w = "cell_put busy_cell (cell_get busy_cell w) w"
    have q: "io_cell busy_cell (io_pure (\<lambda>busy. (quiet_window (wc_runtimeSafeguards K) job runtime t
        busy, busy))) w = (Inr ?q, ?w)" by (simp add: io_cell_iff)
    show ?thesis
    proof (cases ?q)
      case (Some o')
      with assms have "r = Inr o' \<and> w' = ?w"
        unfolding run Inr sum.case io_bind_run [where m = "io_cell busy_cell m" for m, OF q] by simp
      with quiet [OF Some] show ?thesis by (auto simp: busy_keeps_commands)
    next
      case None
      obtain d w2 where d: "deliver (worker_run K) (wc_maxPayloadBytes K) (request_for job runtime) ?w = (d, w2)"
        by fastforce
      show ?thesis
      proof (cases d)
        case (Inl e)
        with assms d None have "r = Inl e" "w' = w2"
          unfolding run Inr sum.case io_bind_run [where m = "io_cell busy_cell m" for m, OF q]
          by (auto simp: io_bind_iff)
        with Inr d Inl show ?thesis by (metis busy_keeps_commands)
      next
        case inr: (Inr x)
        with assms d None have "ww_commands w' = ww_commands w2 \<and>
            r = Inr (fst (after_delivery (wc_runtimeSafeguards K) job runtime t x (cell_get busy_cell w2)))"
          unfolding run Inr sum.case io_bind_run [where m = "io_cell busy_cell m" for m, OF q]
          by (auto simp: io_bind_iff io_cell_iff busy_keeps_commands)
        with Inr d inr show ?thesis by (metis busy_keeps_commands)
      qed
    qed
  qed
qed

lemma after_delivery_fst:
  "eo_attemptResult (fst (after_delivery G job rt t d b)) = ADelivered \<longleftrightarrow> (\<exists>x. d = DeliverySuccess x)"
  using after_delivery_ok [of G job rt t d b] by (metis prod.collapse)

lemma after_delivery_code:
  "d = DeliveryFailure SEND_KEYS_ERROR x \<Longrightarrow>
     eo_errorCode (fst (after_delivery G job rt t d b)) = Some ''SEND_KEYS_ERROR''"
  by (simp add: after_delivery_def)

text \<open>C12: a trigger is reported as delivered only if the runtime registered for its target is
  managed, not offline and in the session the job names, and then the commands that ran are the
  two probes (one, for an override) and the whole envelope of the prompt, line by line, typed
  into the pane of that runtime.\<close>

theorem delivery_reaches_the_registered_runtime:
  assumes "managed_execute (worker_executor K) job n t w = (Inr o', w')"
    "eo_attemptResult o' = ADelivered"
  shows "\<exists>runtime target payload.
    worker_runtimes w (runtimeKey (tj_targetAgentId job) (tj_workspaceId job)) = Some runtime \<and>
    se_managementMode runtime = Managed \<and> se_status runtime \<noteq> SOffline \<and>
    (\<forall>s. tj_targetSessionId job = Some s \<longrightarrow> se_sessionId runtime = s) \<and>
    resolveTmuxTargetFromRuntime (se_runtime runtime) = Some target \<and>
    prepareTriggerPayload (tj_triggerId job) (tj_threadId job) (tj_reason job) (tj_prompt job)
      (wc_maxPayloadBytes K) = PayloadOk payload \<and>
    ww_commands w' = ww_commands w @ probes target (forces_override job) @ typed target payload"
proof -
  from execute_commands [OF assms(1)] assms(2) obtain runtime w1 d w2 where
    c: "check_runtime job (worker_runtimes w (runtimeKey (tj_targetAgentId job) (tj_workspaceId job))) = Inr runtime"
    and w: "ww_commands w1 = ww_commands w" "ww_commands w' = ww_commands w2"
    and d: "deliver (worker_run K) (wc_maxPayloadBytes K) (request_for job runtime) w1 = (Inr (DeliverySuccess d), w2)"
    by (auto simp: after_delivery_fst)
  let ?q = "request_for job runtime" and ?m = "wc_maxPayloadBytes K"
  have "\<exists>target payload. resolveTmuxTargetFromRuntime (se_runtime runtime) = Some target \<and>
      prepareTriggerPayload (tj_triggerId job) (tj_threadId job) (tj_reason job) (tj_prompt job) ?m = PayloadOk payload"
    using runsD [OF worker_trace.deliver_refused [of ?q ?m] d]
    by (cases "resolveTmuxTargetFromRuntime (se_runtime runtime)";
        cases "prepareTriggerPayload (tj_triggerId job) (tj_threadId job) (tj_reason job) (tj_prompt job) ?m") auto
  then obtain target payload where tp: "resolveTmuxTargetFromRuntime (se_runtime runtime) = Some target"
      "prepareTriggerPayload (tj_triggerId job) (tj_threadId job) (tj_reason job) (tj_prompt job) ?m = PayloadOk payload"
    by blast
  from runsD [OF worker_trace.runs_deliver [of ?q target ?m payload] d] tp
  have "ww_commands w2 = ww_commands w1 @ probes target (forces_override job) @ typed target payload" by auto
  with tp c [unfolded check_runtime_Inr] w show ?thesis by auto
qed

text \<open>An execution that is deferred or refused types nothing. Unless the prompt was delivered,
  or typing itself failed, every command it ran only displays something.\<close>

theorem refused_delivery_types_nothing:
  assumes "managed_execute (worker_executor K) job n t w = (Inr o', w')"
    "eo_attemptResult o' \<noteq> ADelivered" "eo_errorCode o' \<noteq> Some ''SEND_KEYS_ERROR''"
  shows "\<exists>cs. ww_commands w' = ww_commands w @ cs \<and> length cs \<le> 2 \<and>
    (\<forall>c\<in>set cs. hd (sc_args c) = ''display-message'')"
  using execute_commands [OF assms(1)]
proof (elim disjE exE conjE)
  fix runtime w1 x w2 b
  assume w: "ww_commands w1 = ww_commands w" "ww_commands w' = ww_commands w2"
    and d: "deliver (worker_run K) (wc_maxPayloadBytes K) (request_for job runtime) w1 = (Inr x, w2)"
    and r: "Inr o' = (Inr (fst (after_delivery (wc_runtimeSafeguards K) job runtime t x b)) :: exn + execution_outcome)"
  obtain c y where f: "x = DeliveryFailure c y" "c \<noteq> SEND_KEYS_ERROR"
    using r assms(2,3) after_delivery_code [of x _ "wc_runtimeSafeguards K" job runtime t b]
    by (cases x) (auto simp: after_delivery_fst)
  let ?q = "request_for job runtime" and ?m = "wc_maxPayloadBytes K"
  have "\<exists>cs. ww_commands w2 = ww_commands w1 @ cs \<and> (\<exists>target. prefix cs (probes target (forces_override job)))"
  proof (cases "resolveTmuxTargetFromRuntime (se_runtime runtime)")
    case None
    from runsD [OF worker_trace.deliver_refused [of ?q ?m] d] None show ?thesis by auto
  next
    case (Some target)
    show ?thesis
    proof (cases "prepareTriggerPayload (tj_triggerId job) (tj_threadId job) (tj_reason job) (tj_prompt job) ?m")
      case (PayloadBad c d')
      from runsD [OF worker_trace.deliver_refused [of ?q ?m c d'] d] PayloadBad show ?thesis by auto
    next
      case (PayloadOk payload)
      from runsD [OF worker_trace.runs_deliver [of ?q target ?m payload] d] Some PayloadOk f
      show ?thesis by auto
    qed
  qed
  then obtain cs target zs where cs: "ww_commands w2 = ww_commands w1 @ cs"
    "probes target (forces_override job) = cs @ zs" by (auto simp: prefix_def)
  have "\<forall>c\<in>set (probes target (forces_override job)). hd (sc_args c) = ''display-message''"
    "length (probes target (forces_override job)) \<le> 2"
    by (auto simp: probes_def probe_command_def)
  with cs w show ?thesis by (intro exI [of _ cs]) auto
qed auto

lemma demo_get_runtime:
  "worker_runtimes demo_worker_world (runtimeKey ''a'' ''w'') = Some demo_runtime"
  by code_simp

lemma demo_executes:
  "(case fst (managed_execute (worker_executor demo_worker) (demo_job ''j1'' 10) 1 50 demo_worker_world) of
      Inl e \<Rightarrow> False | Inr o' \<Rightarrow> eo_attemptResult o' = ADelivered)"
  by code_simp

theorem delivery_reaches_the_registered_runtime_witness:
  "\<exists>target payload. ww_commands (snd (managed_execute (worker_executor demo_worker) (demo_job ''j1'' 10)
     1 50 demo_worker_world)) = probes target False @ typed target payload"
proof -
  obtain o' where o': "fst (managed_execute (worker_executor demo_worker) (demo_job ''j1'' 10) 1 50
      demo_worker_world) = Inr o'" "eo_attemptResult o' = ADelivered"
    using demo_executes by (auto split: sum.split_asm)
  have "forces_override (demo_job ''j1'' 10) = False" "ww_commands demo_worker_world = []" by code_simp+
  with delivery_reaches_the_registered_runtime [of demo_worker "demo_job ''j1'' 10" 1 50 demo_worker_world o',
      OF prod_eqI] o' show ?thesis by fastforce
qed

definition busy_worker :: "unit worker_config" where
  "busy_worker = demo_worker\<lparr>wc_run :=
     (\<lambda>c e. (Inr \<lparr>cr_exitCode = 0, cr_stdout = ''1|1'', cr_stderr = []\<rparr>, e))\<rparr>"

lemma busy_executes:
  "(case fst (managed_execute (worker_executor busy_worker) (demo_job ''j1'' 10) 1 50 demo_worker_world) of
      Inl e \<Rightarrow> False | Inr o' \<Rightarrow> eo_attemptResult o' \<noteq> ADelivered \<and> eo_errorCode o' \<noteq> Some ''SEND_KEYS_ERROR'')"
  by code_simp

theorem refused_delivery_types_nothing_witness:
  "list_all (\<lambda>c. hd (sc_args c) = ''display-message'')
     (ww_commands (snd (managed_execute (worker_executor busy_worker) (demo_job ''j1'' 10) 1 50
       demo_worker_world)))"
proof -
  obtain o' where o': "fst (managed_execute (worker_executor busy_worker) (demo_job ''j1'' 10) 1 50
      demo_worker_world) = Inr o'" "eo_attemptResult o' \<noteq> ADelivered" "eo_errorCode o' \<noteq> Some ''SEND_KEYS_ERROR''"
    using busy_executes by (auto split: sum.split_asm)
  have "ww_commands demo_worker_world = []" by code_simp
  with refused_delivery_types_nothing [of busy_worker "demo_job ''j1'' 10" 1 50 demo_worker_world o',
      OF prod_eqI] o' show ?thesis unfolding list_all_iff by fastforce
qed

section \<open>The payload\<close>



section \<open>The fallback\<close>

lemma fallback_sel:
  "cx_registry (worker_fallback K) = worker_registry K"
  "cx_commandExecutor (worker_fallback K) = worker_run K"
  "cx_config (worker_fallback K) = wc_codex K" "cx_failures (worker_fallback K) = failures_cell"
  by (simp_all add: worker_fallback_def)

text \<open>C25: a fallback runs at most \<open>resumeMaxAttempts\<close> attempts to resume a session, then at most
  one command that spawns one, and nothing after a success. It tries to resume only the session
  the job names, and only if that is the registered session of the target, not stale, and the
  agent has not failed too often lately.\<close>

theorem fallback_is_bounded:
  assumes "codex_execute (worker_fallback K) job n i now w = (r, w')"
  shows "\<exists>k spawned. ww_commands w' = ww_commands w @ fallback_commands job k spawned \<and>
    k \<le> nat (cf_resumeMaxAttempts (wc_codex K)) \<and>
    (\<forall>f. r = Inr f \<longrightarrow> (fo_attemptResult f = ResumeSucceeded \<longleftrightarrow> \<not> spawned) \<and> (\<not> spawned \<longrightarrow> 0 < k)) \<and>
    (0 < k \<longrightarrow> (\<exists>runtime h. worker_runtimes w (runtimeKey (tj_targetAgentId job) (tj_workspaceId job)) =
        Some runtime \<and> tj_targetSessionId job = Some (se_sessionId runtime) \<and>
      cf_staleAfterHours (wc_codex K) = js_int h \<and> \<not> stale_at h now runtime \<and>
      int (length (filter (\<lambda>f. now - cf_crashLoopWindowMs (wc_codex K) \<le> f)
        (failures_of (ww_failures w) (failure_key job)))) < cf_crashLoopThreshold (wc_codex K)))"
proof -
  obtain a w1 where c: "canAttemptResume (worker_fallback K) job now w = (a, w1)" by fastforce
  have silent: "ww_commands w1 = ww_commands w"
    using runsD [OF worker_fb.runs_check c] by auto
  show ?thesis
  proof (cases "\<exists>reason. a = Inr (True, reason)")
    case True
    then obtain reason where "canAttemptResume (worker_fallback K) job now w = (Inr (True, reason), w1)"
      using c by blast
    from canAttemptResume_True [OF this]
    have facts: "\<exists>runtime h. worker_runtimes w (runtimeKey (tj_targetAgentId job) (tj_workspaceId job)) =
        Some runtime \<and> tj_targetSessionId job = Some (se_sessionId runtime) \<and>
      cf_staleAfterHours (wc_codex K) = js_int h \<and> \<not> stale_at h now runtime \<and>
      int (length (filter (\<lambda>f. now - cf_crashLoopWindowMs (wc_codex K) \<le> f)
        (failures_of (ww_failures w) (failure_key job)))) < cf_crashLoopThreshold (wc_codex K)"
      by (auto simp: fallback_sel failures_cell_def)
    from runsD [OF worker_fb.runs_codex assms] obtain k spawned where
      k: "ww_commands w' = ww_commands w @ fallback_commands job k spawned"
      "k \<le> nat (cf_resumeMaxAttempts (wc_codex K))"
      "\<forall>f. r = Inr f \<longrightarrow> (fo_attemptResult f = ResumeSucceeded \<longleftrightarrow> \<not> spawned) \<and> (\<not> spawned \<longrightarrow> 0 < k)"
      unfolding fallback_sel by blast
    show ?thesis by (intro exI [of _ k] exI [of _ spawned] conjI impI facts k)
  next
    case False
    have "\<exists>spawned. ww_commands w' = ww_commands w @ fallback_commands job 0 spawned \<and>
        (\<forall>f. r = Inr f \<longrightarrow> spawned \<and> fo_attemptResult f \<noteq> ResumeSucceeded)"
    proof (cases a)
      case (Inl e)
      with assms c silent show ?thesis
        by (auto simp: codex_execute_def io_bind_def fallback_commands_def intro!: exI [of _ False])
    next
      case (Inr x)
      with False obtain reason where x: "a = Inr (False, reason)" by (cases x) auto
      from assms c x have "spawn_fallback (worker_fallback K) job i reason w1 = (r, w')"
        by (simp add: codex_execute_def io_bind_def)
      from runsD [OF worker_fb.runs_spawn_fallback this] silent show ?thesis
        by (auto simp: fallback_commands_def intro!: exI [of _ True])
    qed
    then obtain spawned where s: "ww_commands w' = ww_commands w @ fallback_commands job 0 spawned"
      "\<forall>f. r = Inr f \<longrightarrow> spawned \<and> fo_attemptResult f \<noteq> ResumeSucceeded" by blast
    show ?thesis by (rule exI [of _ 0], rule exI [of _ spawned]) (use s in simp)
  qed
qed

theorem fallback_is_bounded_witness:
  "\<exists>k spawned. ww_commands (snd (codex_execute (worker_fallback demo_worker) (demo_job ''j1'' 10) 1
      (outcome AFailed False ''x'' []) 50 demo_worker_world)) = fallback_commands (demo_job ''j1'' 10) k spawned \<and> k \<le> 2"
proof -
  have "ww_commands demo_worker_world = []" by code_simp
  with fallback_is_bounded [of demo_worker "demo_job ''j1'' 10" 1 "outcome AFailed False ''x'' []" 50
      demo_worker_world, OF surjective_pairing] show ?thesis
    by (force simp: demo_worker_def DEFAULT_CODEX_FALLBACK_CONFIG_def)
qed

end
