(* ===== verification/TickProperties.thy ===== *)
theory TickProperties
  imports DeliveryProperties
begin

text \<open>
  The properties of the two reconciliations and of a whole tick of the worker, on its in-memory
  stores.
\<close>

section \<open>The runtimes\<close>

lemma service_sel [simp]: "rg_store (worker_service K) = worker_registry K"
  by (simp add: worker_service_def)

lemma mark_runs:
  "\<exists>m w'. rs_markRuntimeStatus (worker_registry K) a ws st r u w = (Inr m, w')"
  by (auto simp: worker_registry_def mem_runtime_store_def io_cell_iff mr_markRuntimeStatus_def
      Let_def split: option.split)

lemma reconcile_runs:
  assumes "0 < h"
  shows "\<exists>m w'. reconcile_runtimes (worker_service K) (js_int h) t rs n w = (Inr m, w')"
proof (induction rs arbitrary: n w)
  case Nil
  show ?case by simp
next
  case (Cons s rs)
  with assms show ?case
    using mark_runs [of K "se_agentId s" "se_workspaceId s" SOffline None t w]
    by (fastforce simp: io_bind_def)
qed

lemma reconcile_total:
  assumes "0 < h"
  shows "\<exists>res w'. reconcileWorkspaceRuntimes (worker_service K) ws (js_int h) (Some t) w = (Inr res, w')"
proof -
  obtain rs w1 where ls: "rs_listWorkspaceRuntimes (worker_registry K) ws w = (Inr rs, w1)"
    by (auto simp: worker_registry_def mem_runtime_store_def io_cell_iff mr_listWorkspaceRuntimes_def)
  obtain m w' where "reconcile_runtimes (worker_service K) (js_int h) t rs 0 w1 = (Inr m, w')"
    using reconcile_runs [OF assms] by blast
  with ls show ?thesis unfolding reconcileWorkspaceRuntimes_def by (simp add: io_bind_def)
qed

lemma expire_idem: "expire ws h t (expire ws h t s) = expire ws h t s"
  by (simp add: expire_def)

lemma expire_live:
  "\<not> (se_workspaceId (expire ws h t s) = ws \<and> se_status (expire ws h t s) \<noteq> SOffline \<and>
     stale_at h t (expire ws h t s))"
  by (simp add: expire_def)

text \<open>A reconciliation of the runtimes always ends well. It takes offline exactly the runtimes of
  the workspace that are stale and not offline yet, and counts them; nothing else in the
  registry changes. Done again at the same time it takes none offline and changes nothing.\<close>

theorem reconcile_takes_stale_runtimes_offline:
  assumes "worker_runtimes_inv w" "0 < h"
  shows "\<exists>res w' res2 w2.
    reconcileWorkspaceRuntimes (worker_service K) ws (js_int h) (Some t) w = (Inr res, w') \<and>
    worker_runtimes_inv w' \<and>
    worker_runtimes w' = (\<lambda>k. map_option (expire ws h t) (worker_runtimes w k)) \<and>
    rc_transitionedOffline res = card {s. se_workspaceId s = ws \<and>
      worker_runtimes w (runtimeKey (se_agentId s) ws) = Some s \<and> se_status s \<noteq> SOffline \<and> stale_at h t s} \<and>
    (\<forall>k s. \<not> (worker_runtimes w' k = Some s \<and> se_workspaceId s = ws \<and> se_status s \<noteq> SOffline \<and>
      stale_at h t s)) \<and>
    reconcileWorkspaceRuntimes (worker_service K) ws (js_int h) (Some t) w' = (Inr res2, w2) \<and>
    rc_transitionedOffline res2 = 0 \<and> worker_runtimes w2 = worker_runtimes w'"
proof -
  obtain res w' where run: "reconcileWorkspaceRuntimes (worker_service K) ws (js_int h) (Some t) w = (Inr res, w')"
    using reconcile_total [OF assms(2)] by blast
  obtain res2 w2 where run2: "reconcileWorkspaceRuntimes (worker_service K) ws (js_int h) (Some t) w' = (Inr res2, w2)"
    using reconcile_total [OF assms(2)] by blast
  note eff = worker_rts.reconcile_effect [OF run service_sel assms(2,1)]
  note eff2 = worker_rts.reconcile_effect [OF run2 service_sel assms(2) eff(1)]
  have gone: "\<not> (worker_runtimes w' k = Some s \<and> se_workspaceId s = ws \<and> se_status s \<noteq> SOffline \<and> stale_at h t s)" for k s
    unfolding eff(2) map_option_eq_Some using expire_live by blast
  have again: "worker_runtimes w2 = worker_runtimes w'"
    unfolding eff2(2) eff(2) by (simp add: option.map_comp comp_def expire_idem)
  have none: "rc_transitionedOffline res2 = 0"
  proof -
    have "{s. se_workspaceId s = ws \<and> worker_runtimes w' (runtimeKey (se_agentId s) (se_workspaceId s)) = Some s \<and>
        se_status s \<noteq> SOffline \<and> stale_at h t s} = {}" using gone by blast
    then show ?thesis unfolding eff2(3) expires_def by (simp only: card.empty)
  qed
  have count: "rc_transitionedOffline res = card {s. se_workspaceId s = ws \<and>
      worker_runtimes w (runtimeKey (se_agentId s) ws) = Some s \<and> se_status s \<noteq> SOffline \<and> stale_at h t s}"
    unfolding eff(3) expires_def by (rule arg_cong [where f = card]) auto
  show ?thesis
    by (intro exI conjI allI) (rule run eff(1,2) count gone run2 none again)+
qed

lemma demo_runtimes_inv: "worker_runtimes_inv demo_worker_world"
  by (simp add: worker_runtimes_inv_def mem_runtimes_inv_def runtimes_filed_def demo_worker_world_def
      start_world_def demo_runtime_def runtimeKey_def)

theorem reconcile_takes_stale_runtimes_offline_witness:
  "\<exists>res w'. reconcileWorkspaceRuntimes (worker_service demo_worker) ''w'' (js_int 12) (Some 99000000)
     demo_worker_world = (Inr res, w') \<and> map_option se_status (worker_runtimes w' ''a::w'') = Some SOffline"
proof -
  have "worker_runtimes demo_worker_world ''a::w'' = Some demo_runtime"
    using demo_get_runtime by (simp add: runtimeKey_def)
  with reconcile_takes_stale_runtimes_offline [OF demo_runtimes_inv, of 12 demo_worker "''w''" 99000000]
  show ?thesis by (force simp: expire_def demo_runtime_def stale_at_def)
qed

section \<open>The unread messages\<close>

lemma snapshots_total:
  assumes "0 < h"
  shows "\<exists>c' w'. reconcile_snapshots (mem_unread_state notified_cell) (js_int h) t ss c w = (Inr c', w')"
proof (induction ss arbitrary: c w)
  case Nil
  show ?case by simp
next
  case (Cons s ss)
  have get: "us_getLastNotifiedSeq (mem_unread_state notified_cell) th a u =
      (Inr (worker_notified u (reconciliationStateKey th a)), cell_put notified_cell (ww_notified u) u)"
    for th a and u :: "'a worker_world"
    by (simp add: mem_unread_state_def io_cell_def io_zoom_def mu_getLastNotifiedSeq_def worker_notified_def)
  have mark: "\<exists>u'. us_markNotified (mem_unread_state notified_cell) th a n t u = (Inr (), u')"
    for th a n and u :: "'a worker_world"
    by (auto simp: mem_unread_state_def io_cell_iff mu_markNotified_def)
  obtain b where b: "stale_snapshot (up_session s) (js_int h) t = Inr b"
    using stale_snapshot_valid [OF assms] by blast
  show ?case
    using Cons.IH mark
    by (simp add: isDormantSession_valid [OF assms] Let_def b io_bind_run [where m =
          "us_getLastNotifiedSeq (mem_unread_state notified_cell) th a" for th a, OF get])
      (metis io_bind_run)
qed

text \<open>One poll: the snapshots that are stored when it runs, and what it finds.\<close>

definition wanting :: "string \<Rightarrow> int \<Rightarrow> int \<Rightarrow> unread_snapshot list \<Rightarrow> unread_snapshot list" where
  "wanting ws h t ss = filter (\<lambda>s. up_workspaceId s = ws \<and> up_threadStatus s \<noteq> Closed \<and> unread s \<and>
     dormant h t (up_session s)) ss"

definition visible :: "string \<Rightarrow> unread_snapshot list \<Rightarrow> unread_snapshot list" where
  "visible ws ss = filter (\<lambda>s. up_workspaceId s = ws \<and> up_threadStatus s \<noteq> Closed) ss"

lemma wanting_visible:
  "wanting ws h t ss = filter (\<lambda>s. unread s \<and> dormant h t (up_session s)) (visible ws ss)"
  unfolding wanting_def visible_def filter_filter by (rule filter_cong) auto

lemma list_snapshots:
  "uv_snapshotStore worker_unread ws False w = (Inr (visible ws (ww_snapshots w)), w)"
  by (simp add: worker_unread_def mem_snapshot_store_def io_cell_def io_zoom_def
      mu_listParticipantSnapshots_def visible_def snapshots_cell_def)

lemma poll_effect:
  assumes "0 < h"
  shows "\<exists>res w'. reconcile worker_unread ws (js_int h) None t w = (Inr res, w') \<and>
    (\<forall>x\<in>set (ur_candidates res). candidate_from h t (wanting ws h t (ww_snapshots w)) x) \<and>
    (\<forall>k. climbs (worker_notified w k) (worker_us.seqs_for k (ur_candidates res)) (worker_notified w' k)) \<and>
    (\<forall>s\<in>set (wanting ws h t (ww_snapshots w)). \<exists>n. worker_notified w' (worker_us.key_of s) = Some n \<and>
       up_latestSeq s \<le> n) \<and>
    ut_participantsScanned (ur_stats res) = length (visible ws (ww_snapshots w)) \<and>
    ut_unreadParticipants (ur_stats res) = length (filter unread (visible ws (ww_snapshots w))) \<and>
    ut_dormantUnreadParticipants (ur_stats res) = length (wanting ws h t (ww_snapshots w)) \<and>
    length (ur_candidates res) + ut_deduplicatedParticipants (ur_stats res) =
      length (wanting ws h t (ww_snapshots w))"
proof -
  let ?c = "\<lparr>un_unread = 0, un_dormant = 0, un_deduplicated = 0, un_candidates = []\<rparr>"
  let ?ss = "visible ws (ww_snapshots w)"
  obtain c' w' where loop: "reconcile_snapshots (mem_unread_state notified_cell) (js_int h) t ?ss ?c w = (Inr c', w')"
    using snapshots_total [OF assms] by blast
  have state: "uv_stateStore worker_unread = mem_unread_state notified_cell"
    by (simp add: worker_unread_def)
  have run: "reconcile worker_unread ws (js_int h) None t w = (Inr
      \<lparr>ur_workspaceId = ws, ur_polledAt = t, ur_candidates = un_candidates c',
       ur_stats = \<lparr>ut_participantsScanned = length ?ss, ut_unreadParticipants = un_unread c',
         ut_dormantUnreadParticipants = un_dormant c', ut_deduplicatedParticipants = un_deduplicated c'\<rparr>\<rparr>, w')"
    unfolding reconcile_def option.case
    by (simp add: io_bind_run [where m = "uv_snapshotStore worker_unread ws False", OF list_snapshots] state
        io_bind_run [where m = "reconcile_snapshots (mem_unread_state notified_cell) (js_int h) t ?ss ?c", OF loop])
  from worker_us.reconcile_loop [OF loop assms] obtain new where new:
    "un_candidates c' = new" "\<forall>x\<in>set new. candidate_from h t ?ss x"
    "\<forall>k. climbs (worker_notified w k) (worker_us.seqs_for k new) (worker_notified w' k)"
    "\<forall>s\<in>set ?ss. unread s \<longrightarrow> dormant h t (up_session s) \<longrightarrow>
       (\<exists>n. worker_notified w' (worker_us.key_of s) = Some n \<and> up_latestSeq s \<le> n)"
    "un_unread c' = length (filter unread ?ss)"
    "un_dormant c' = length (wanting ws h t (ww_snapshots w))"
    "un_dormant c' = length new + un_deduplicated c'"
    unfolding wanting_visible by auto
  have "candidate_from h t (wanting ws h t (ww_snapshots w)) x" if "candidate_from h t ?ss x" for x
    using that unfolding candidate_from_def wanting_visible by auto
  with new show ?thesis
    unfolding run by (intro exI conjI) (rule refl, auto simp: wanting_visible)
qed

definition poll_frame :: "'e worker_world \<Rightarrow> 'e worker_world \<Rightarrow> bool" where
  "poll_frame w w' \<longleftrightarrow> same_queue w w' \<and> ww_runtimes w' = ww_runtimes w \<and> ww_commands w' = ww_commands w"

lemma poll_keeps: "stays poll_frame (reconcile worker_unread ws h i t)"
proof -
  have pre: "reflp poll_frame" "transp poll_frame"
    by (auto simp: poll_frame_def same_queue_def reflp_def transp_def)
  have cells: "stays poll_frame (io_cell snapshots_cell m)" "stays poll_frame (io_cell notified_cell m')" for m m'
    by (auto simp: stays_def poll_frame_def same_queue_def io_cell_iff cell_defs)
  have "stays poll_frame (reconcile_snapshots (mem_unread_state notified_cell) h t ss c)" for ss c
  proof (induction ss arbitrary: c)
    case Nil
    show ?case unfolding reconcile_snapshots.simps by (intro preserves pre)
  next
    case (Cons s ss)
    then show ?case
      unfolding reconcile_snapshots.simps mem_unread_state_def unread_state_store.simps
      by (intro preserves pre cells)
  qed
  then show ?thesis
    unfolding reconcile_def worker_unread_def unread_service.simps mem_snapshot_store_def
    by (intro preserves pre cells)
qed

definition registry_writes :: "'e worker_world \<Rightarrow> 'e worker_world \<Rightarrow> bool" where
  "registry_writes w w' \<longleftrightarrow> same_queue w w' \<and> ww_notified w' = ww_notified w \<and> ww_commands w' = ww_commands w"

lemma reconcile_keeps: "stays registry_writes (reconcileWorkspaceRuntimes (worker_service K) ws h t)"
proof -
  have pre: "reflp registry_writes" "transp registry_writes"
    by (auto simp: registry_writes_def same_queue_def reflp_def transp_def)
  have cell: "stays registry_writes (io_cell runtimes_cell m)" for m
    by (auto simp: stays_def registry_writes_def same_queue_def io_cell_iff cell_defs)
  have "stays registry_writes (reconcile_runtimes (worker_service K) h u rs n)" for u rs n
  proof (induction rs arbitrary: n)
    case Nil
    show ?case unfolding reconcile_runtimes.simps by (intro preserves pre)
  next
    case (Cons s ss)
    then show ?case
      unfolding reconcile_runtimes.simps worker_service_def registry_service.simps worker_registry_def
        mem_runtime_store_def runtime_store.simps
      by (intro preserves pre cell)
  qed
  then show ?thesis
    unfolding reconcileWorkspaceRuntimes_def worker_service_def registry_service.simps
      worker_registry_def mem_runtime_store_def runtime_store.simps
    by (intro preserves pre cell)
qed

text \<open>
  Polls that follow each other, each with the snapshots that are stored by then: all candidates,
  in their order, and the world at the end.
\<close>

fun polls :: "string \<Rightarrow> int \<Rightarrow> (int \<times> unread_snapshot list) list \<Rightarrow> 'e worker_world \<Rightarrow>
    unread_candidate list \<times> 'e worker_world" where
  "polls ws h [] w = ([], w)"
| "polls ws h ((t, ss) # ps) w =
     (let (r, w1) = io_bind (io_cell snapshots_cell (mu_setSnapshots ss))
             (\<lambda>_. reconcile worker_unread ws (js_int h) None t) w;
          (cs, w2) = polls ws h ps w1
      in ((case r of Inl e \<Rightarrow> [] | Inr res \<Rightarrow> ur_candidates res) @ cs, w2))"

lemma poll_step:
  assumes "0 < h"
  shows "\<exists>new w1. polls ws h ((t, ss) # ps) w = (new @ fst (polls ws h ps w1), snd (polls ws h ps w1)) \<and>
    (\<forall>x\<in>set new. candidate_from h t (wanting ws h t ss) x) \<and>
    (\<forall>k. climbs (worker_notified w k) (worker_us.seqs_for k new) (worker_notified w1 k)) \<and>
    (\<forall>s\<in>set (wanting ws h t ss). \<exists>n. worker_notified w1 (worker_us.key_of s) = Some n \<and> up_latestSeq s \<le> n)"
proof -
  let ?w = "cell_put snapshots_cell ss w"
  have set: "io_cell snapshots_cell (mu_setSnapshots ss) w = (Inr (), ?w)"
    by (simp add: io_cell_iff mu_setSnapshots_def)
  have w: "ww_snapshots ?w = ss" "worker_notified ?w = worker_notified w"
    by (simp_all add: snapshots_cell_def worker_notified_def fun_eq_iff)
  from poll_effect [OF assms, of ws t ?w] obtain res w1 where
    run: "reconcile worker_unread ws (js_int h) None t ?w = (Inr res, w1)"
    and res: "\<forall>x\<in>set (ur_candidates res). candidate_from h t (wanting ws h t ss) x"
    "\<forall>k. climbs (worker_notified w k) (worker_us.seqs_for k (ur_candidates res)) (worker_notified w1 k)"
    "\<forall>s\<in>set (wanting ws h t ss). \<exists>n. worker_notified w1 (worker_us.key_of s) = Some n \<and> up_latestSeq s \<le> n"
    unfolding w by blast
  have "polls ws h ((t, ss) # ps) w =
      (ur_candidates res @ fst (polls ws h ps w1), snd (polls ws h ps w1))"
    by (simp add: io_bind_run [where m = "io_cell snapshots_cell (mu_setSnapshots ss)", OF set] run
        split: prod.split)
  with res show ?thesis by blast
qed

lemma polls_climb:
  assumes "0 < h"
  shows "climbs (worker_notified w k) (worker_us.seqs_for k (fst (polls ws h ps w)))
    (worker_notified (snd (polls ws h ps w)) k)"
proof (induction ps arbitrary: w)
  case Nil
  show ?case by simp
next
  case (Cons p ps)
  obtain t ss where p: "p = (t, ss)" by (cases p)
  from poll_step [OF assms] obtain new w1 where
    e: "polls ws h ((t, ss) # ps) w = (new @ fst (polls ws h ps w1), snd (polls ws h ps w1))"
    and c: "climbs (worker_notified w k) (worker_us.seqs_for k new) (worker_notified w1 k)" by blast
  from climbs_append [OF c Cons.IH] show ?case
    unfolding p e fst_conv snd_conv filter_append map_append .
qed

lemma polls_from:
  assumes "0 < h" "x \<in> set (fst (polls ws h ps w))"
  shows "\<exists>t ss. (t, ss) \<in> set ps \<and> candidate_from h t (wanting ws h t ss) x"
  using assms(2)
proof (induction ps arbitrary: w)
  case Nil
  then show ?case by simp
next
  case (Cons p ps)
  obtain t ss where p: "p = (t, ss)" by (cases p)
  from poll_step [OF assms(1)] obtain new w1 where
    e: "polls ws h ((t, ss) # ps) w = (new @ fst (polls ws h ps w1), snd (polls ws h ps w1))"
    and c: "\<forall>x\<in>set new. candidate_from h t (wanting ws h t ss) x" by blast
  from Cons.prems have "x \<in> set new \<or> x \<in> set (fst (polls ws h ps w1))"
    unfolding p e fst_conv set_append by blast
  then show ?case
  proof
    assume "x \<in> set new"
    with c show ?thesis unfolding p by (meson list.set_intros(1))
  next
    assume "x \<in> set (fst (polls ws h ps w1))"
    from Cons.IH [OF this] show ?thesis by (meson list.set_intros(2))
  qed
qed

text \<open>C21: whatever the snapshots show from poll to poll, no participant is notified twice of the same
  messages: the numbers of the latest message in its notifications go up strictly. And every
  notification is for a participant that at that poll had unread messages in an open thread of
  the workspace and no live session.\<close>

theorem unread_notified_once:
  assumes "0 < h"
  shows "sorted_wrt (<) (map uc_latestSeq (filter (\<lambda>c. uc_threadId c = th \<and> uc_participantAgentId c = a)
      (fst (polls ws h ps w)))) \<and>
    (\<forall>x\<in>set (fst (polls ws h ps w)). \<exists>t ss. (t, ss) \<in> set ps \<and>
      candidate_from h t (wanting ws h t ss) x)"
proof -
  let ?cs = "fst (polls ws h ps w)" and ?k = "reconciliationStateKey th a"
  have "sorted_wrt (<) (worker_us.seqs_for ?k ?cs)"
    using climbs_sorted [OF polls_climb [OF assms]] by blast
  then have "sorted_wrt (\<lambda>x y. uc_latestSeq x < uc_latestSeq y)
      (filter (\<lambda>c. uc_threadId c = th \<and> uc_participantAgentId c = a)
        (filter (\<lambda>c. worker_us.cand_key c = ?k) ?cs))"
    unfolding sorted_wrt_map by (rule sorted_wrt_filter)
  also have "filter (\<lambda>c. uc_threadId c = th \<and> uc_participantAgentId c = a)
        (filter (\<lambda>c. worker_us.cand_key c = ?k) ?cs) =
      filter (\<lambda>c. uc_threadId c = th \<and> uc_participantAgentId c = a) ?cs"
    unfolding filter_filter by (rule filter_cong) auto
  finally show ?thesis
    unfolding sorted_wrt_map using polls_from [OF assms] by blast
qed

definition demo_snapshot :: "int \<Rightarrow> unread_snapshot" where
  "demo_snapshot latest = \<lparr>up_threadId = ''th_1'', up_workspaceId = ''w'', up_threadStatus = Active,
     up_participantAgentId = ''a'', up_latestSeq = latest, up_lastReadSeq = 1, up_session = None\<rparr>"

theorem unread_notified_once_witness:
  "map uc_latestSeq (fst (polls ''w'' 12 [(1, [demo_snapshot 2]), (2, [demo_snapshot 2]),
     (3, [demo_snapshot 4])] demo_worker_world)) = [2, 4] \<and>
   sorted_wrt (<) (map uc_latestSeq (filter (\<lambda>c. uc_threadId c = ''th_1'' \<and> uc_participantAgentId c = ''a'')
     (fst (polls ''w'' 12 [(1, [demo_snapshot 2]), (2, [demo_snapshot 2]), (3, [demo_snapshot 4])]
       demo_worker_world))))"
proof
  show "map uc_latestSeq (fst (polls ''w'' 12 [(1, [demo_snapshot 2]), (2, [demo_snapshot 2]),
     (3, [demo_snapshot 4])] demo_worker_world)) = [2, 4]" by code_simp
qed (rule conjunct1 [OF unread_notified_once], simp)

lemma climbs_end: "climbs a xs (Some n) \<Longrightarrow> a = Some n \<or> n \<in> set xs"
  by (induction xs arbitrary: a) auto

text \<open>A poll always ends well and misses nobody: for each participant with unread messages in an
  open thread of the workspace and no live session there is a candidate at or past its latest
  message, unless it has been notified of that before. The counts add up: each such
  participant is a candidate or counted as a duplicate.\<close>

theorem unread_none_missed:
  assumes "0 < h"
  shows "\<exists>res w'. reconcile worker_unread ws (js_int h) None t w = (Inr res, w') \<and>
    (\<forall>s\<in>set (wanting ws h t (ww_snapshots w)).
       (\<exists>n. worker_notified w (reconciliationStateKey (up_threadId s) (up_participantAgentId s)) = Some n \<and>
          up_latestSeq s \<le> n) \<or>
       (\<exists>x\<in>set (ur_candidates res). up_latestSeq s \<le> uc_latestSeq x \<and>
          reconciliationStateKey (uc_threadId x) (uc_participantAgentId x) =
            reconciliationStateKey (up_threadId s) (up_participantAgentId s))) \<and>
    ut_participantsScanned (ur_stats res) = length (visible ws (ww_snapshots w)) \<and>
    ut_unreadParticipants (ur_stats res) = length (filter unread (visible ws (ww_snapshots w))) \<and>
    ut_dormantUnreadParticipants (ur_stats res) = length (wanting ws h t (ww_snapshots w)) \<and>
    length (ur_candidates res) + ut_deduplicatedParticipants (ur_stats res) =
      length (wanting ws h t (ww_snapshots w))"
proof -
  from poll_effect [OF assms, of ws t w] obtain res w' where
    run: "reconcile worker_unread ws (js_int h) None t w = (Inr res, w')"
    and climb: "\<forall>k. climbs (worker_notified w k) (worker_us.seqs_for k (ur_candidates res)) (worker_notified w' k)"
    and told: "\<forall>s\<in>set (wanting ws h t (ww_snapshots w)). \<exists>n. worker_notified w' (worker_us.key_of s) = Some n \<and>
       up_latestSeq s \<le> n"
    and counts: "ut_participantsScanned (ur_stats res) = length (visible ws (ww_snapshots w))"
    "ut_unreadParticipants (ur_stats res) = length (filter unread (visible ws (ww_snapshots w)))"
    "ut_dormantUnreadParticipants (ur_stats res) = length (wanting ws h t (ww_snapshots w))"
    "length (ur_candidates res) + ut_deduplicatedParticipants (ur_stats res) =
      length (wanting ws h t (ww_snapshots w))" by blast
  have "(\<exists>n. worker_notified w (worker_us.key_of s) = Some n \<and> up_latestSeq s \<le> n) \<or>
       (\<exists>x\<in>set (ur_candidates res). up_latestSeq s \<le> uc_latestSeq x \<and>
          worker_us.cand_key x = worker_us.key_of s)"
    if s: "s \<in> set (wanting ws h t (ww_snapshots w))" for s
  proof -
    obtain n where n: "worker_notified w' (worker_us.key_of s) = Some n" "up_latestSeq s \<le> n"
      using told s by blast
    with climbs_end [OF climb [rule_format, of "worker_us.key_of s", unfolded n(1)]]
    show ?thesis by auto
  qed
  with run counts show ?thesis by blast
qed

theorem unread_none_missed_witness:
  "\<exists>res w'. reconcile worker_unread ''w'' (js_int 12) None 5 (start_world [] [] [demo_snapshot 3]) = (Inr res, w') \<and>
     length (ur_candidates res) + ut_deduplicatedParticipants (ur_stats res) = 1"
proof -
  have "length (wanting ''w'' 12 5 (ww_snapshots (start_world [] [] [demo_snapshot 3]))) = 1" by code_simp
  with unread_none_missed [of 12 "''w''" 5 "start_world [] [] [demo_snapshot 3]"] show ?thesis by force
qed

end
