(* ===== verification/WorkerTick.thy ===== *)
theory WorkerTick
  imports TickProperties
begin

text \<open>
  The properties of a whole tick of the worker: what it keeps and moves, in which order, and
  into which panes it types.
\<close>

section \<open>The panes that commands reach\<close>

text \<open>A command to tmux that reads or types into the pane \<open>target\<close>.\<close>

definition into :: "string \<Rightarrow> shell_command \<Rightarrow> bool" where
  "into target c \<longleftrightarrow> sc_command c = ''tmux'' \<and>
     (take 3 (sc_args c) = [''send-keys'', ''-t'', target] \<or>
      take 4 (sc_args c) = [''display-message'', ''-p'', ''-t'', target])"

lemma into_probes: "c \<in> set (probes target force) \<Longrightarrow> into target c"
  by (auto simp: probes_def probe_command_def into_def split: if_split_asm)

lemma into_typed: "c \<in> set (typed target payload) \<Longrightarrow> into target c"
  by (auto simp: typed_def line_commands_def send_text_def send_enter_def into_def)

lemma runs_into:
  "runs ww_commands (deliver (worker_run K) m q) (\<lambda>cs r. \<forall>c\<in>set cs. \<exists>target.
     resolveTmuxTargetFromRuntime (se_runtime (dq_runtime q)) = Some target \<and> into target c)"
proof (cases "resolveTmuxTargetFromRuntime (se_runtime (dq_runtime q))")
  case None
  then show ?thesis by (intro runs_mono [OF worker_trace.deliver_refused]) auto
next
  case (Some target)
  show ?thesis
  proof (cases "prepareTriggerPayload (dq_triggerId q) (dq_threadId q) (dq_reason q) (dq_prompt q) m")
    case (PayloadBad c d)
    then show ?thesis by (intro runs_mono [OF worker_trace.deliver_refused]) auto
  next
    case (PayloadOk payload)
    show ?thesis
    proof (rule runs_mono [OF worker_trace.runs_deliver [OF Some PayloadOk]], intro ballI, goal_cases)
      case (1 cs r c)
      then have "c \<in> set (probes target (dq_forceOverride q) @ typed target payload)"
        by (meson set_mono_prefix subsetD)
      then have "into target c" using into_probes into_typed by auto
      with Some show ?case by blast
    qed
  qed
qed

text \<open>
  What a run may do to the commands: add commands that start \<open>codex\<close> or reach the pane of a
  registered runtime that is managed and not offline. The registry stays as it is.
\<close>

definition live_pane :: "string runtime_view \<Rightarrow> shell_command \<Rightarrow> bool" where
  "live_pane rts c \<longleftrightarrow> (\<exists>k runtime target. rts k = Some runtime \<and> se_managementMode runtime = Managed \<and>
     se_status runtime \<noteq> SOffline \<and> resolveTmuxTargetFromRuntime (se_runtime runtime) = Some target \<and>
     into target c)"

definition careful :: "'e worker_world \<Rightarrow> 'e worker_world \<Rightarrow> bool" where
  "careful w w' \<longleftrightarrow> ww_runtimes w' = ww_runtimes w \<and> (\<exists>cs. ww_commands w' = ww_commands w @ cs \<and>
     (\<forall>c\<in>set cs. sc_command c = ''codex'' \<or> live_pane (worker_runtimes w) c))"

lemma careful_refl: "careful w w"
  by (simp add: careful_def)

lemma careful_trans: "careful u v \<Longrightarrow> careful v w \<Longrightarrow> careful u w"
  by (fastforce simp: careful_def worker_runtimes_def)

lemma same_runtimes: "same_registry w w' \<Longrightarrow> ww_runtimes w' = ww_runtimes w"
  by (simp add: same_registry_def)

lemma careful_execute: "stays careful (managed_execute (worker_executor K) job n t)"
proof (rule staysI)
  fix w r and w' :: "'a worker_world"
  assume run: "managed_execute (worker_executor K) job n t w = (r, w')"
  have deliver: "\<exists>cs. ww_commands w2 = ww_commands w @ cs \<and> (\<forall>c\<in>set cs. live_pane (worker_runtimes w) c)"
    if "check_runtime job (worker_runtimes w (runtimeKey (tj_targetAgentId job) (tj_workspaceId job))) = Inr runtime"
      "ww_commands w1 = ww_commands w"
      "deliver (worker_run K) (wc_maxPayloadBytes K) (request_for job runtime) w1 = (x, w2)" for runtime w1 x w2
    using runsD [OF runs_into that(3)] that(1,2) unfolding check_runtime_Inr live_pane_def request_for_sel
    by fastforce
  have "\<exists>cs. ww_commands w' = ww_commands w @ cs \<and> (\<forall>c\<in>set cs. live_pane (worker_runtimes w) c)"
    using execute_commands [OF run] deliver by (elim disjE exE conjE) fastforce+
  with same_runtimes [OF staysD [OF registry_frame.keeps_execute run]] show "careful w w'"
    unfolding careful_def by blast
qed

lemma careful_fallback: "stays careful (codex_execute (worker_fallback K) job n i t)"
proof (rule staysI)
  fix w r and w' :: "'a worker_world"
  assume run: "codex_execute (worker_fallback K) job n i t w = (r, w')"
  from runsD [OF worker_fb.runs_codex run] obtain k spawned where
    "ww_commands w' = ww_commands w @ fallback_commands job k spawned" by blast
  moreover have "\<forall>c\<in>set (fallback_commands job k spawned). sc_command c = ''codex''"
    by (auto simp: fallback_commands_def resume_command_def spawn_command_def)
  ultimately show "careful w w'"
    using same_runtimes [OF staysD [OF registry_frame.keeps_codex run]] unfolding careful_def by blast
qed

interpretation careful_processing: processing_frame careful "worker_processor K" for K
proof (rule worker_processing_frame)
  show "reflp careful" by (simp add: reflp_def careful_refl)
  show "transp careful" using careful_trans by (rule transpI)
qed (simp_all add: careful_execute careful_fallback, simp_all add: careful_def cell_defs)

section \<open>A tick\<close>

lemma expire_fresh:
  "se_status (expire ws h t s) \<noteq> SOffline \<Longrightarrow>
     expire ws h t s = s \<and> (se_workspaceId s = ws \<longrightarrow> \<not> stale_at h t s)"
  by (auto simp: expire_def split: if_split_asm)

lemma runtimes_view:
  "ww_runtimes w' = ww_runtimes w \<Longrightarrow> worker_runtimes w' = worker_runtimes w \<and>
     worker_runtimes_inv w' = worker_runtimes_inv w"
  by (simp add: worker_runtimes_def worker_runtimes_inv_def)

lemma notified_view: "ww_notified w' = ww_notified w \<Longrightarrow> worker_notified w' = worker_notified w"
  by (simp add: worker_notified_def fun_eq_iff)

text \<open>A tick is a poll, a reconciliation and a run of the processor, and only the last can fail.\<close>

lemma tick_parts:
  assumes "runTick (worker_loop_of K) now \<lparr>wi_workspaceId = ws, wi_staleAfterHours = js_int h,
      wi_maxJobsPerTick = l, wi_tickAt = Some t\<rparr> w = (r, w')" "0 < h"
  obtains u w1 rc w2 pr where
    "reconcile worker_unread ws (js_int h) None t w = (Inr u, w1)"
    "reconcileWorkspaceRuntimes (worker_service K) ws (js_int h) (Some t) w1 = (Inr rc, w2)"
    "processDueJobs (worker_processor K) ws l t w2 = (pr, w')"
    "r = map_sum id (\<lambda>p. \<lparr>wt_unreadReconciliation = u, wt_runtimeReconciliation = rc,
       wt_triggerQueueProcessing = p\<rparr>) pr"
proof -
  obtain u w1 where u: "reconcile worker_unread ws (js_int h) None t w = (Inr u, w1)"
    using poll_effect [OF assms(2)] by blast
  obtain rc w2 where rc: "reconcileWorkspaceRuntimes (worker_service K) ws (js_int h) (Some t) w1 = (Inr rc, w2)"
    using reconcile_total [OF assms(2)] by blast
  obtain pr w3 where p: "processDueJobs (worker_processor K) ws l t w2 = (pr, w3)" by fastforce
  have "runTick (worker_loop_of K) now \<lparr>wi_workspaceId = ws, wi_staleAfterHours = js_int h,
      wi_maxJobsPerTick = l, wi_tickAt = Some t\<rparr> w =
    (map_sum id (\<lambda>p. \<lparr>wt_unreadReconciliation = u, wt_runtimeReconciliation = rc,
       wt_triggerQueueProcessing = p\<rparr>) pr, w3)"
    unfolding runTick_def worker_loop_of_def worker_loop.simps worker_tick_input.simps option.case Let_def
      io_bind_run [where m = "reconcile worker_unread ws (js_int h) None t", OF u]
      io_bind_run [where m = "reconcileWorkspaceRuntimes (worker_service K) ws (js_int h) (Some t)", OF rc]
    by (cases pr) (simp_all add: io_bind_def p)
  with assms(1) that [OF u rc] p show thesis by simp
qed

text \<open>A tick looks at the unread messages, then at the runtimes, then at the queue, all at one
  time, and whatever happens in it: the queue and the registry stay well formed, the stale
  runtimes of the workspace are offline and the others as they were, whoever has to be notified
  has been, and every job has gone along its life cycle, those not due in the workspace not at
  all. This holds even if the run of the queue ends with an error.\<close>

theorem tick_composes:
  assumes "worker_queue_inv w" "worker_runtimes_inv w" "0 < h"
    "runTick (worker_loop_of K) now \<lparr>wi_workspaceId = ws, wi_staleAfterHours = js_int h,
      wi_maxJobsPerTick = l, wi_tickAt = Some t\<rparr> w = (r, w')"
  shows "worker_queue_inv w' \<and> worker_runtimes_inv w' \<and>
    worker_runtimes w' = (\<lambda>k. map_option (expire ws h t) (worker_runtimes w k)) \<and>
    (\<forall>s\<in>set (wanting ws h t (ww_snapshots w)). \<exists>n. up_latestSeq s \<le> n \<and>
       worker_notified w' (reconciliationStateKey (up_threadId s) (up_participantAgentId s)) = Some n) \<and>
    (\<forall>i j. worker_jobs w i = Some j \<longrightarrow> (\<exists>j'. worker_jobs w' i = Some j' \<and> job_steps j j' \<and>
       (\<not> job_due ws t j \<longrightarrow> j' = j)))"
proof (rule tick_parts [OF assms(4,3)])
  fix u w1 rc w2 pr
  assume u: "reconcile worker_unread ws (js_int h) None t w = (Inr u, w1)"
    and rc: "reconcileWorkspaceRuntimes (worker_service K) ws (js_int h) (Some t) w1 = (Inr rc, w2)"
    and p: "processDueJobs (worker_processor K) ws l t w2 = (pr, w')"
  have k1: "poll_frame w w1" by (rule staysD [OF poll_keeps u])
  have k2: "registry_writes w1 w2" by (rule staysD [OF reconcile_keeps rc])
  have k3: "same_registry w2 w'" by (rule staysD [OF processing_keeps_registry p])
  have jobs: "worker_jobs w2 = worker_jobs w" "worker_queue_inv w2"
    using k1 k2 assms(1) by (auto simp: poll_frame_def registry_writes_def dest!: worker_queue_same)
  have "worker_runtimes_inv w1" "worker_runtimes w1 = worker_runtimes w"
    using k1 assms(2) by (auto simp: poll_frame_def dest!: runtimes_view)
  with worker_rts.reconcile_effect(1,2) [OF rc service_sel assms(3)]
  have rts: "worker_runtimes_inv w2" "worker_runtimes w2 = (\<lambda>k. map_option (expire ws h t) (worker_runtimes w k))"
    by simp_all
  have same: "worker_runtimes w' = worker_runtimes w2" "worker_runtimes_inv w' = worker_runtimes_inv w2"
    "worker_notified w' = worker_notified w1"
    using runtimes_view [of w' w2] notified_view [of w' w2] notified_view [of w2 w1] k2 k3
    by (simp_all add: same_registry_def registry_writes_def)
  have told: "\<exists>n. up_latestSeq s \<le> n \<and> worker_notified w' (worker_us.key_of s) = Some n"
    if "s \<in> set (wanting ws h t (ww_snapshots w))" for s
    using poll_effect [OF assms(3), of ws t w] u that unfolding same(3) by auto
  have step: "\<exists>j'. worker_jobs w' i = Some j' \<and> job_steps j j' \<and> (\<not> job_due ws t j \<longrightarrow> j' = j)"
    if j: "worker_jobs w i = Some j" for i j
  proof -
    from worker_q.tick_steps [OF p jobs(2), of i j] j obtain j' where
      j': "worker_jobs w' i = Some j'" "job_steps j j'" unfolding jobs(1) by blast
    moreover have "j' = j" if "\<not> job_due ws t j"
      using worker_q.processDueJobs_effect [OF p jobs(2)] j j'(1) that unfolding jobs(1)
      by (metis option.inject)
    ultimately show ?thesis by blast
  qed
  have inv: "worker_queue_inv w'" using worker_q.processDueJobs_effect [OF p jobs(2)] by blast
  show ?thesis
    unfolding same(1,2) by (intro conjI allI impI ballI inv rts step told)
qed

definition demo_tick :: worker_tick_input where
  "demo_tick = \<lparr>wi_workspaceId = ''w'', wi_staleAfterHours = js_int 12, wi_maxJobsPerTick = 5,
     wi_tickAt = Some 50\<rparr>"

theorem tick_composes_witness:
  "worker_runtimes_inv (snd (runTick (worker_loop_of demo_worker) 0 demo_tick lone_job_world)) \<and>
   (\<exists>j'. worker_jobs (snd (runTick (worker_loop_of demo_worker) 0 demo_tick lone_job_world)) ''j1'' = Some j' \<and>
     job_steps (demo_job ''j1'' 10) j')"
proof -
  have "worker_runtimes_inv lone_job_world"
    by (simp add: worker_runtimes_inv_def mem_runtimes_inv_def runtimes_filed_def lone_job_world_def
        start_world_def)
  note tick_composes [OF lone_queue_inv this, of 12 demo_worker 0 "''w''" 5 50, OF _ surjective_pairing]
  moreover have "worker_jobs lone_job_world ''j1'' = Some (demo_job ''j1'' 10)" by (simp add: lone_job)
  ultimately show ?thesis unfolding demo_tick_def by (metis zero_less_numeral)
qed

text \<open>C3: every command that a tick runs starts \<open>codex\<close> or reaches the pane of a runtime that is
  registered, managed and not offline, and so, if it is of the workspace of the tick, has had a
  heartbeat within the staleness limit: the tick has taken the others offline before.\<close>

theorem tick_types_only_into_live_panes:
  assumes "worker_runtimes_inv w" "0 < h"
    "runTick (worker_loop_of K) now \<lparr>wi_workspaceId = ws, wi_staleAfterHours = js_int h,
      wi_maxJobsPerTick = l, wi_tickAt = Some t\<rparr> w = (r, w')"
  shows "\<exists>cs. ww_commands w' = ww_commands w @ cs \<and> (\<forall>c\<in>set cs. sc_command c = ''codex'' \<or>
    (\<exists>k runtime target. worker_runtimes w k = Some runtime \<and> se_managementMode runtime = Managed \<and>
       se_status runtime \<noteq> SOffline \<and> (se_workspaceId runtime = ws \<longrightarrow> \<not> stale_at h t runtime) \<and>
       resolveTmuxTargetFromRuntime (se_runtime runtime) = Some target \<and> into target c))"
proof (rule tick_parts [OF assms(3,2)])
  fix u w1 rc w2 pr
  assume u: "reconcile worker_unread ws (js_int h) None t w = (Inr u, w1)"
    and rc: "reconcileWorkspaceRuntimes (worker_service K) ws (js_int h) (Some t) w1 = (Inr rc, w2)"
    and p: "processDueJobs (worker_processor K) ws l t w2 = (pr, w')"
  have k1: "poll_frame w w1" by (rule staysD [OF poll_keeps u])
  have k2: "registry_writes w1 w2" by (rule staysD [OF reconcile_keeps rc])
  have cmds: "ww_commands w2 = ww_commands w"
    using k1 k2 by (simp add: poll_frame_def registry_writes_def)
  have "worker_runtimes_inv w1" "worker_runtimes w1 = worker_runtimes w"
    using k1 assms(1) by (auto simp: poll_frame_def dest!: runtimes_view)
  with worker_rts.reconcile_effect(2) [OF rc service_sel assms(2)]
  have rts: "worker_runtimes w2 = (\<lambda>k. map_option (expire ws h t) (worker_runtimes w k))" by simp
  have fresh: "worker_runtimes w k = Some s \<and> (se_workspaceId s = ws \<longrightarrow> \<not> stale_at h t s)"
    if "worker_runtimes w2 k = Some s" "se_status s \<noteq> SOffline" for k s
  proof -
    from that(1) obtain s0 where "worker_runtimes w k = Some s0" "s = expire ws h t s0"
      unfolding rts by blast
    with expire_fresh that(2) show ?thesis by metis
  qed
  from staysD [OF careful_processing.keeps_processing p] obtain cs where
    cs: "ww_commands w' = ww_commands w2 @ cs"
    "\<forall>c\<in>set cs. sc_command c = ''codex'' \<or> live_pane (worker_runtimes w2) c"
    unfolding careful_def by blast
  have "sc_command c = ''codex'' \<or>
    (\<exists>k runtime target. worker_runtimes w k = Some runtime \<and> se_managementMode runtime = Managed \<and>
       se_status runtime \<noteq> SOffline \<and> (se_workspaceId runtime = ws \<longrightarrow> \<not> stale_at h t runtime) \<and>
       resolveTmuxTargetFromRuntime (se_runtime runtime) = Some target \<and> into target c)" if "c \<in> set cs" for c
    using cs(2) that fresh unfolding live_pane_def by blast
  with cs(1) cmds show ?thesis by metis
qed

theorem tick_types_only_into_live_panes_witness:
  "list_all (\<lambda>c. sc_command c = ''codex'')
     (ww_commands (snd (runTick (worker_loop_of demo_worker) 0 demo_tick lone_job_world)))"
proof -
  have "worker_runtimes_inv lone_job_world" "worker_runtimes lone_job_world = (\<lambda>_. None)"
    by (simp_all add: worker_runtimes_inv_def mem_runtimes_inv_def runtimes_filed_def lone_job_world_def
        start_world_def worker_runtimes_def fun_eq_iff)
  moreover have "ww_commands lone_job_world = []" by (simp add: lone_job_world_def start_world_def)
  ultimately show ?thesis
    using tick_types_only_into_live_panes [of lone_job_world 12 demo_worker 0 "''w''" 5 50, OF _ _ surjective_pairing]
    unfolding demo_tick_def list_all_iff by fastforce
qed

end
