(* ===== verification/Database.thy ===== *)
theory Database
  imports BridgeStores TriggerQueue "HOL-Library.Multiset"
begin

text \<open>
  The database that the \<open>Db\<close> stores use. The tables are those of
  \<open>packages/db/src/schema.ts\<close>, with the columns as records and the unique indexes as relations
  between two rows. The client that runs the queries (drizzle and PostgreSQL) is a parameter: a
  record of the operations the sources call, whose documented behaviour is the locale
  \<open>db_table_contract\<close>. A row order that a query does not ask for is left open, and so is the
  collation of texts. \<open>mem_table\<close> is a table that satisfies the contract, for the witnesses.
\<close>

lemma io_map_run:
  assumes "io_bind m (\<lambda>x. io_return (g x)) w = (r, w')"
  obtains f where "m w = (f, w')" "r = (case f of Inl e \<Rightarrow> Inl e | Inr x \<Rightarrow> Inr (g x))"
proof -
  obtain f v where "m w = (f, v)" by fastforce
  with assms that show thesis by (cases f) (auto simp: io_bind_def)
qed

section \<open>The tables\<close>

record thread_row =
  tw_threadId :: string
  tw_workspaceId :: string
  tw_title :: string
  tw_type :: thread_type
  tw_status :: thread_status
  tw_createdAt :: int
  tw_updatedAt :: int

record participant_row =
  pw_threadId :: string
  pw_agentId :: string
  pw_joinedAt :: int

text \<open>A column that may be null is an option; \<open>metadata\<close> may hold any JSON value.\<close>

record message_row =
  mw_messageId :: string
  mw_threadId :: string
  mw_schemaVersion :: int
  mw_seq :: int
  mw_senderAgentId :: string
  mw_senderSessionId :: string
  mw_kind :: message_kind
  mw_body :: string
  mw_metadata :: "json option"
  mw_inReplyTo :: "string option"
  mw_idempotencyKey :: "string option"
  mw_createdAt :: int

record cursor_row =
  cw_threadId :: string
  cw_agentId :: string
  cw_lastReadSeq :: int
  cw_lastAckedMessageId :: "string option"
  cw_updatedAt :: int

record session_row =
  sw_agentId :: string
  sw_workspaceId :: string
  sw_sessionId :: string
  sw_runtime :: string
  sw_managementMode :: management_mode
  sw_resumable :: bool
  sw_status :: session_status
  sw_lastHeartbeatAt :: int
  sw_updatedAt :: int

record job_row =
  jw_triggerId :: string
  jw_threadId :: string
  jw_workspaceId :: string
  jw_targetAgentId :: string
  jw_targetSessionId :: "string option"
  jw_reason :: string
  jw_prompt :: string
  jw_status :: job_status
  jw_attempts :: int
  jw_maxRetries :: int
  jw_nextRetryAt :: "int option"
  jw_createdAt :: int
  jw_updatedAt :: int

text \<open>An attempt without its serial number.\<close>

record attempt_row =
  aw_triggerId :: string
  aw_attemptNo :: int
  aw_result :: attempt_result
  aw_errorCode :: "string option"
  aw_details :: "details option"
  aw_createdAt :: int

text \<open>The primary keys and the unique indexes. A null in a unique index never clashes.\<close>

definition thread_clash :: "thread_row \<Rightarrow> thread_row \<Rightarrow> bool" where
  "thread_clash x y \<longleftrightarrow> tw_threadId x = tw_threadId y"

definition participant_clash :: "participant_row \<Rightarrow> participant_row \<Rightarrow> bool" where
  "participant_clash x y \<longleftrightarrow> pw_threadId x = pw_threadId y \<and> pw_agentId x = pw_agentId y"

definition message_clash :: "message_row \<Rightarrow> message_row \<Rightarrow> bool" where
  "message_clash x y \<longleftrightarrow> mw_messageId x = mw_messageId y \<or>
     mw_threadId x = mw_threadId y \<and> mw_seq x = mw_seq y \<or>
     mw_threadId x = mw_threadId y \<and> mw_senderAgentId x = mw_senderAgentId y \<and>
       mw_idempotencyKey x \<noteq> None \<and> mw_idempotencyKey x = mw_idempotencyKey y"

definition cursor_clash :: "cursor_row \<Rightarrow> cursor_row \<Rightarrow> bool" where
  "cursor_clash x y \<longleftrightarrow> cw_threadId x = cw_threadId y \<and> cw_agentId x = cw_agentId y"

definition session_clash :: "session_row \<Rightarrow> session_row \<Rightarrow> bool" where
  "session_clash x y \<longleftrightarrow> sw_workspaceId x = sw_workspaceId y \<and>
     (sw_agentId x = sw_agentId y \<or> sw_sessionId x = sw_sessionId y)"

definition job_clash :: "job_row \<Rightarrow> job_row \<Rightarrow> bool" where
  "job_clash x y \<longleftrightarrow> jw_triggerId x = jw_triggerId y"

definition attempt_clash :: "attempt_row \<Rightarrow> attempt_row \<Rightarrow> bool" where
  "attempt_clash x y \<longleftrightarrow> aw_triggerId x = aw_triggerId y \<and> aw_attemptNo x = aw_attemptNo y"

text \<open>The rows of \<open>audit_events\<close> have a serial number only.\<close>

definition no_clash :: "'r \<Rightarrow> 'r \<Rightarrow> bool" where
  "no_clash x y \<longleftrightarrow> False"

section \<open>The client\<close>

datatype 'r ordering = AnyOrder | Asc "'r \<Rightarrow> int" | Desc "'r \<Rightarrow> int" | AscText "'r \<Rightarrow> string"

text \<open>
  The operations on one table: \<open>findMany\<close> with \<open>where\<close>, \<open>orderBy\<close> and \<open>limit\<close>;
  \<open>insert().values()\<close>; with \<open>onConflictDoNothing().returning()\<close>; with \<open>onConflictDoUpdate\<close> on the
  primary key; \<open>update().set().where().returning()\<close>.
\<close>

record ('w, 'r) db_table =
  db_findMany :: "('r \<Rightarrow> bool) \<Rightarrow> 'r ordering \<Rightarrow> int option \<Rightarrow> ('w, exn, 'r list) io"
  db_insert :: "'r list \<Rightarrow> ('w, exn, unit) io"
  db_insertNew :: "'r \<Rightarrow> ('w, exn, 'r list) io"
  db_upsert :: "'r \<Rightarrow> ('r \<Rightarrow> 'r) \<Rightarrow> ('w, exn, unit) io"
  db_update :: "('r \<Rightarrow> bool) \<Rightarrow> ('r \<Rightarrow> 'r) \<Rightarrow> ('w, exn, 'r list) io"

text \<open>\<open>findFirst\<close> is \<open>findMany\<close> with the limit 1.\<close>

definition findFirst ::
  "('w, 'r) db_table \<Rightarrow> ('r \<Rightarrow> bool) \<Rightarrow> 'r ordering \<Rightarrow> ('w, exn, 'r option) io" where
  "findFirst T p ord =
     io_bind (db_findMany T p ord (Some 1)) (\<lambda>rows.
       io_return (case rows of [] \<Rightarrow> None | row # _ \<Rightarrow> Some row))"

fun ordered :: "'r ordering \<Rightarrow> 'r list \<Rightarrow> bool" where
  "ordered AnyOrder rs \<longleftrightarrow> True"
| "ordered (Asc f) rs \<longleftrightarrow> sorted_wrt (\<lambda>x y. f x \<le> f y) rs"
| "ordered (Desc f) rs \<longleftrightarrow> sorted_wrt (\<lambda>x y. f y \<le> f x) rs"
| "ordered (AscText f) rs \<longleftrightarrow> True"

text \<open>What a query may return: the rows that match, in an order as asked, up to the limit.\<close>

definition limited :: "int option \<Rightarrow> 'r list \<Rightarrow> 'r list" where
  "limited most xs = (case most of None \<Rightarrow> xs | Some n \<Rightarrow> take (nat n) xs)"

definition selection ::
  "('r \<Rightarrow> bool) \<Rightarrow> 'r ordering \<Rightarrow> int option \<Rightarrow> 'r list \<Rightarrow> 'r list \<Rightarrow> bool" where
  "selection p ord most rows rs \<longleftrightarrow>
     (\<exists>xs. mset xs = mset (filter p rows) \<and> ordered ord xs \<and> rs = limited most xs)"

definition unique :: "('r \<Rightarrow> 'r \<Rightarrow> bool) \<Rightarrow> 'r list \<Rightarrow> bool" where
  "unique clash rows \<longleftrightarrow> sorted_wrt (\<lambda>x y. \<not> clash x y) rows"

definition change :: "('r \<Rightarrow> bool) \<Rightarrow> ('r \<Rightarrow> 'r) \<Rightarrow> 'r list \<Rightarrow> 'r list" where
  "change p f rows = map (\<lambda>r. if p r then f r else r) rows"

text \<open>
  \<open>state\<close> is what the database holds, \<open>C\<close> the part of it that is the table. A statement that fails
  changes nothing. One that would break a unique index fails.
\<close>

lemma selection_first:
  assumes "selection p ord (Some 1) rows rs"
  shows "rs = [] \<Longrightarrow> \<forall>x\<in>set rows. \<not> p x"
    "rs = x # r \<Longrightarrow> x \<in> set rows \<and> p x \<and> (\<forall>f. ord = Desc f \<longrightarrow> (\<forall>y\<in>set rows. p y \<longrightarrow> f y \<le> f x))"
proof -
  from assms obtain xs where xs: "mset xs = mset (filter p rows)" "ordered ord xs" "rs = take 1 xs"
    by (auto simp: selection_def limited_def)
  have s: "set xs = {x \<in> set rows. p x}" using mset_eq_setD [OF xs(1)] by simp
  show "\<forall>x\<in>set rows. \<not> p x" if "rs = []" using that xs(3) s by (cases xs) auto
  assume "rs = x # r"
  then obtain zs where z: "xs = x # zs" using xs(3) by (cases xs) auto
  have "x \<in> set rows \<and> p x" using s z by auto
  moreover have "f y \<le> f x" if "ord = Desc f" "y \<in> set rows" "p y" for f y
  proof -
    have "y \<in> set (x # zs)" using s z that by blast
    with xs(2) z that(1) show ?thesis by auto
  qed
  ultimately show "x \<in> set rows \<and> p x \<and> (\<forall>f. ord = Desc f \<longrightarrow> (\<forall>y\<in>set rows. p y \<longrightarrow> f y \<le> f x))" by blast
qed

lemma selection_mem:
  assumes "selection p ord most rows rs" "x \<in> set rs"
  shows "x \<in> set rows" "p x"
proof -
  from assms(1) obtain xs where xs: "mset xs = mset (filter p rows)" "rs = limited most xs"
    by (auto simp: selection_def)
  have "x \<in> set xs" using assms(2) xs(2) by (auto simp: limited_def split: option.split_asm dest: in_set_takeD)
  with mset_eq_setD [OF xs(1)] show "x \<in> set rows" "p x" by auto
qed

text \<open>If no two of the rows have the same number, the order decides what is returned.\<close>

lemma selection_sorted:
  assumes "selection p (Asc f) most rows rs" "inj_on f (set (filter p rows))"
  shows "rs = limited most (sort_key f (filter p rows))"
proof -
  from assms(1) obtain xs where xs: "mset xs = mset (filter p rows)" "sorted (map f xs)" "rs = limited most xs"
    by (auto simp: selection_def sorted_map)
  have "sort_key f (filter p rows) = xs"
    using assms(2) xs(2) by (intro sort_key_inj_key_eq [OF xs(1) [symmetric]]) simp_all
  with xs(3) show ?thesis by simp
qed

text \<open>Rows by a key.\<close>

lemma unique_key:
  "(\<And>x y. clash x y \<longleftrightarrow> key x = key y) \<Longrightarrow> unique clash rows \<longleftrightarrow> distinct (map key rows)"
  by (induction rows) (auto simp: unique_def image_iff)

lemma find_change:
  assumes "\<And>r. key (f r) = key r"
  shows "find (\<lambda>r. key r = i) (change (\<lambda>r. key r = k \<and> q r) f rows) =
    (if i = k then map_option (\<lambda>r. if q r then f r else r) (find (\<lambda>r. key r = i) rows)
     else find (\<lambda>r. key r = i) rows)"
  by (induction rows) (auto simp: change_def assms)

lemma filter_key:
  assumes "distinct (map key rows)"
  shows "filter (\<lambda>r. key r = k \<and> q r) rows =
    (case find (\<lambda>r. key r = k) rows of None \<Rightarrow> [] | Some r \<Rightarrow> if q r then [r] else [])"
  using assms
proof (induction rows)
  case (Cons a rows)
  have "find (\<lambda>r. key r = k) rows = None" if "key a = k"
    using Cons.prems that by (auto simp: find_None_iff image_iff)
  with Cons show ?case by (cases "key a = k") auto
qed simp

lemma find_key_mem:
  "distinct (map key rows) \<Longrightarrow> x \<in> set rows \<Longrightarrow> find (\<lambda>r. key r = key x) rows = Some x"
  by (induction rows) (auto simp: image_iff)

lemma find_key_append:
  "find p (rows @ [r]) = (case find p rows of None \<Rightarrow> if p r then Some r else None | Some x \<Rightarrow> Some x)"
  by (induction rows) auto

lemma find_key_key: "find (\<lambda>r. key r = k) rows = Some x \<Longrightarrow> key x = k"
  by (auto simp: find_Some_iff)

locale db_table_contract =
  fixes T :: "('w, 'r) db_table" and state :: "'w \<Rightarrow> 'd" and C :: "('d, 'r list) cell"
    and clash :: "'r \<Rightarrow> 'r \<Rightarrow> bool"
  assumes lawful: "cell_laws C"
    and find_ok: "db_findMany T p ord most w = (r, w') \<Longrightarrow> state w' = state w \<and>
      (\<forall>rs. r = Inr rs \<longrightarrow> selection p ord most (cell_get C (state w)) rs)"
    and insert_ok: "db_insert T new w = (Inr u, w') \<Longrightarrow>
      state w' = cell_put C (cell_get C (state w) @ new) (state w) \<and>
      (unique clash (cell_get C (state w)) \<longrightarrow> unique clash (cell_get C (state w) @ new))"
    and insert_fail: "db_insert T new w = (Inl e, w') \<Longrightarrow> state w' = state w"
    and insertNew_ok: "db_insertNew T row w = (Inr rs, w') \<Longrightarrow>
      (if \<exists>x\<in>set (cell_get C (state w)). clash x row then rs = [] \<and> state w' = state w
       else rs = [row] \<and> state w' = cell_put C (cell_get C (state w) @ [row]) (state w))"
    and insertNew_fail: "db_insertNew T row w = (Inl e, w') \<Longrightarrow> state w' = state w"
    and upsert_ok: "db_upsert T row f w = (Inr u, w') \<Longrightarrow>
      (if \<exists>x\<in>set (cell_get C (state w)). clash x row
       then state w' = cell_put C (change (\<lambda>x. clash x row) f (cell_get C (state w))) (state w)
       else state w' = cell_put C (cell_get C (state w) @ [row]) (state w))"
    and upsert_fail: "db_upsert T row f w = (Inl e, w') \<Longrightarrow> state w' = state w"
    and update_ok: "db_update T p f w = (Inr rs, w') \<Longrightarrow>
      state w' = cell_put C (change p f (cell_get C (state w))) (state w) \<and>
      mset rs = mset (map f (filter p (cell_get C (state w)))) \<and>
      (unique clash (cell_get C (state w)) \<longrightarrow> unique clash (change p f (cell_get C (state w))))"
    and update_fail: "db_update T p f w = (Inl e, w') \<Longrightarrow> state w' = state w"
begin

abbreviation rows :: "'w \<Rightarrow> 'r list" where
  "rows w \<equiv> cell_get C (state w)"

lemma find_all:
  assumes "db_findMany T p ord None w = (Inr rs, w')"
  shows "state w' = state w" "mset rs = mset (filter p (rows w))" "ordered ord rs"
  using find_ok [OF assms] by (auto simp: selection_def limited_def)

lemma first_ok:
  assumes "findFirst T p ord w = (r, w')"
  shows "state w' = state w" "r = Inr None \<Longrightarrow> \<forall>x\<in>set (rows w). \<not> p x"
    "r = Inr (Some x) \<Longrightarrow> x \<in> set (rows w) \<and> p x"
    "r = Inr (Some x) \<Longrightarrow> ord = Desc f \<Longrightarrow> \<forall>y\<in>set (rows w). p y \<longrightarrow> f y \<le> f x"
proof -
  from assms obtain q where q: "db_findMany T p ord (Some 1) w = (q, w')"
    and r: "r = (case q of Inl e \<Rightarrow> Inl e | Inr rs \<Rightarrow> Inr (case rs of [] \<Rightarrow> None | row # _ \<Rightarrow> Some row))"
    by (auto simp: findFirst_def io_bind_iff)
  show "state w' = state w" using find_ok [OF q] by blast
  have sel: "selection p ord (Some 1) (rows w) rs" if "q = Inr rs" for rs
    using find_ok [OF q] that by blast
  show "\<forall>x\<in>set (rows w). \<not> p x" if "r = Inr None"
    using that r sel by (auto split: sum.split_asm list.split_asm dest: selection_first)
  assume "r = Inr (Some x)"
  then obtain rs where "q = Inr (x # rs)" using r by (auto split: sum.split_asm list.split_asm)
  from selection_first(2) [OF sel [OF this]]
  show "x \<in> set (rows w) \<and> p x" "ord = Desc f \<Longrightarrow> \<forall>y\<in>set (rows w). p y \<longrightarrow> f y \<le> f x" by blast+
qed

text \<open>A query for the one row of a key.\<close>

lemma first_key:
  assumes "findFirst T p ord w = (Inr found, w')"
    "\<And>x y. x \<in> set (rows w) \<Longrightarrow> y \<in> set (rows w) \<Longrightarrow> p x \<Longrightarrow> p y \<Longrightarrow> x = y"
  shows "found = find p (rows w)"
proof (cases found)
  case None
  with first_ok(2) [OF assms(1)] show ?thesis by (metis find_None_iff)
next
  case (Some x)
  with first_ok(3) [OF assms(1)] have x: "x \<in> set (rows w)" "p x" by blast+
  then obtain y where y: "find p (rows w) = Some y" by (cases "find p (rows w)") (auto simp: find_None_iff)
  then have "y \<in> set (rows w)" "p y" by (auto simp: find_Some_iff)
  from assms(2) [OF x(1) this(1) x(2) this(2)] Some y show ?thesis by simp
qed

text \<open>An update of the one row of a key, on a condition, that keeps the keys.\<close>

lemma update_key:
  assumes "db_update T (\<lambda>r. key r = k \<and> q r) f w = (u, w')" "distinct (map key (rows w))"
    "\<And>r. key (f r) = key r"
  shows "u = Inl e \<Longrightarrow> state w' = state w"
    "u = Inr rs \<Longrightarrow> state w' = cell_put C (change (\<lambda>r. key r = k \<and> q r) f (rows w)) (state w)"
    "u = Inr rs \<Longrightarrow> rs = (case find (\<lambda>r. key r = k) (rows w) of None \<Rightarrow> []
       | Some r \<Rightarrow> if q r then [f r] else [])"
    "u = Inr rs \<Longrightarrow> find (\<lambda>r. key r = i) (rows w') = (if i = k
       then map_option (\<lambda>r. if q r then f r else r) (find (\<lambda>r. key r = i) (rows w))
       else find (\<lambda>r. key r = i) (rows w))"
    "u = Inr [] \<Longrightarrow> state w' = state w"
    "map key (rows w') = map key (rows w)"
proof -
  let ?p = "\<lambda>r. key r = k \<and> q r"
  have get: "cell_get C (cell_put C x s) = x" and put: "cell_put C (cell_get C s) s = s" for x s
    using lawful by (simp_all add: cell_laws_def)
  show fail: "state w' = state w" if "u = Inl e" for e using update_fail assms(1) that by metis
  have filter: "filter ?p (rows w) = (case find (\<lambda>r. key r = k) (rows w) of None \<Rightarrow> []
      | Some r \<Rightarrow> if q r then [r] else [])" by (rule filter_key [OF assms(2)])
  have ok: "state w' = cell_put C (change ?p f (rows w)) (state w)"
    "mset rs = mset (map f (filter ?p (rows w)))" if "u = Inr rs" for rs
    using update_ok [OF assms(1) [unfolded that]] by blast+
  then show "state w' = cell_put C (change ?p f (rows w)) (state w)" if "u = Inr rs" using that by blast
  show "rs = (case find (\<lambda>r. key r = k) (rows w) of None \<Rightarrow> [] | Some r \<Rightarrow> if q r then [f r] else [])"
    if "u = Inr rs" using ok(2) [OF that] unfolding filter by (auto split: option.split)
  show "find (\<lambda>r. key r = i) (rows w') = (if i = k
       then map_option (\<lambda>r. if q r then f r else r) (find (\<lambda>r. key r = i) (rows w))
       else find (\<lambda>r. key r = i) (rows w))" if "u = Inr rs"
    unfolding ok(1) [OF that] get by (rule find_change) (rule assms(3))
  show "state w' = state w" if "u = Inr []"
  proof -
    from ok(2) [OF that] have "filter ?p (rows w) = []" by simp
    then have "change ?p f (rows w) = rows w"
      unfolding change_def filter_empty_conv by (intro map_idI) auto
    with ok(1) [OF that] put show ?thesis by simp
  qed
  show "map key (rows w') = map key (rows w)"
  proof (cases u)
    case (Inr rs)
    show ?thesis unfolding ok(1) [OF Inr] get by (simp add: change_def assms(3))
  qed (simp add: fail)
qed

end

section \<open>A table that keeps the contract\<close>

fun arrange :: "'r ordering \<Rightarrow> 'r list \<Rightarrow> 'r list" where
  "arrange (Asc f) rs = sort_asc f rs"
| "arrange (Desc f) rs = sort_desc f rs"
| "arrange _ rs = rs"

fun unique_rows :: "('r \<Rightarrow> 'r \<Rightarrow> bool) \<Rightarrow> 'r list \<Rightarrow> bool" where
  "unique_rows clash [] \<longleftrightarrow> True"
| "unique_rows clash (r # rs) \<longleftrightarrow> \<not> list_ex (clash r) rs \<and> unique_rows clash rs"

lemma unique_rows: "unique_rows clash rs = unique clash rs"
  by (induction rs) (auto simp: unique_def list_ex_iff)

definition duplicate_key :: exn where
  "duplicate_key = DbExn ''23505'' ''duplicate key value violates unique constraint''"

definition checked :: "('r \<Rightarrow> 'r \<Rightarrow> bool) \<Rightarrow> 'a \<Rightarrow> 'r list \<Rightarrow> ('r list, exn, 'a) io" where
  "checked clash a new old = (if unique_rows clash new then (Inr a, new) else (Inl duplicate_key, old))"

definition mem_table :: "('w, 'r list) cell \<Rightarrow> ('r \<Rightarrow> 'r \<Rightarrow> bool) \<Rightarrow> ('w, 'r) db_table" where
  "mem_table C clash =
     \<lparr>db_findMany = (\<lambda>p ord most. io_cell C (\<lambda>rs. (Inr (limited most (arrange ord (filter p rs))), rs))),
      db_insert = (\<lambda>new. io_cell C (\<lambda>rs. checked clash () (rs @ new) rs)),
      db_insertNew = (\<lambda>row. io_cell C (\<lambda>rs.
        if list_ex (\<lambda>x. clash x row) rs then (Inr [], rs) else (Inr [row], rs @ [row]))),
      db_upsert = (\<lambda>row f. io_cell C (\<lambda>rs.
        (Inr (), if list_ex (\<lambda>x. clash x row) rs then change (\<lambda>x. clash x row) f rs else rs @ [row]))),
      db_update = (\<lambda>p f. io_cell C (\<lambda>rs. checked clash (map f (filter p rs)) (change p f rs) rs))\<rparr>"

lemma arrange_ordered: "ordered ord (arrange ord rs)" "mset (arrange ord rs) = mset rs"
proof -
  show "mset (arrange ord rs) = mset rs" by (cases ord) (simp_all add: sort_asc_def sort_desc_def)
  have "sorted_wrt (\<lambda>x y. f x \<le> f y) (sort_asc f rs)" for f
    using sort_asc_sorted [of f rs] by (simp add: sorted_map)
  moreover have "sorted_wrt (\<lambda>x y. f y \<le> f x) (sort_desc f rs)" for f
    using sort_asc_sorted [of "\<lambda>x. - f x" rs] by (simp add: sorted_map sort_asc_def sort_desc_def)
  ultimately show "ordered ord (arrange ord rs)" by (cases ord) simp_all
qed

lemma mem_table_contract:
  assumes C: "cell_laws C" and S: "cell_laws S"
  shows "db_table_contract (mem_table (cell_in S C) clash) (cell_get S) C clash"
proof -
  have *: "io_cell (cell_in S C) m w = (r, w') \<longleftrightarrow> (\<exists>rs. m (cell_get C (cell_get S w)) = (r, rs) \<and>
      w' = cell_put S (cell_put C rs (cell_get S w)) w)" for m r w w'
    by (simp add: io_cell_iff cell_in_def)
  have same: "cell_put C (cell_get C d) d = d" for d using C by (simp add: cell_laws_def)
  show ?thesis
  proof (unfold_locales, goal_cases)
    case 1
    show ?case by (rule C)
  next
    case (2 p ord most w r w')
    then show ?case
      using arrange_ordered [of ord "filter p (cell_get C (cell_get S w))"] S
      by (auto simp: mem_table_def * same selection_def)
  qed (use S in \<open>auto simp: mem_table_def * same checked_def unique_rows list_ex_iff split: if_split_asm\<close>)
qed

section \<open>The database\<close>

record db_state =
  ds_threads :: "thread_row list"
  ds_participants :: "participant_row list"
  ds_messages :: "message_row list"
  ds_cursors :: "cursor_row list"
  ds_sessions :: "session_row list"
  ds_jobs :: "job_row list"
  ds_attempts :: "attempt_row list"
  ds_audit :: "audit_event list"

definition threads_table :: "(db_state, thread_row list) cell" where
  "threads_table = \<lparr>cell_get = ds_threads, cell_put = (\<lambda>x s. s\<lparr>ds_threads := x\<rparr>)\<rparr>"

definition participants_table :: "(db_state, participant_row list) cell" where
  "participants_table = \<lparr>cell_get = ds_participants, cell_put = (\<lambda>x s. s\<lparr>ds_participants := x\<rparr>)\<rparr>"

definition messages_table :: "(db_state, message_row list) cell" where
  "messages_table = \<lparr>cell_get = ds_messages, cell_put = (\<lambda>x s. s\<lparr>ds_messages := x\<rparr>)\<rparr>"

definition cursors_table :: "(db_state, cursor_row list) cell" where
  "cursors_table = \<lparr>cell_get = ds_cursors, cell_put = (\<lambda>x s. s\<lparr>ds_cursors := x\<rparr>)\<rparr>"

definition sessions_table :: "(db_state, session_row list) cell" where
  "sessions_table = \<lparr>cell_get = ds_sessions, cell_put = (\<lambda>x s. s\<lparr>ds_sessions := x\<rparr>)\<rparr>"

definition jobs_table :: "(db_state, job_row list) cell" where
  "jobs_table = \<lparr>cell_get = ds_jobs, cell_put = (\<lambda>x s. s\<lparr>ds_jobs := x\<rparr>)\<rparr>"

definition attempts_table :: "(db_state, attempt_row list) cell" where
  "attempts_table = \<lparr>cell_get = ds_attempts, cell_put = (\<lambda>x s. s\<lparr>ds_attempts := x\<rparr>)\<rparr>"

definition audit_table :: "(db_state, audit_event list) cell" where
  "audit_table = \<lparr>cell_get = ds_audit, cell_put = (\<lambda>x s. s\<lparr>ds_audit := x\<rparr>)\<rparr>"

lemmas table_defs = threads_table_def participants_table_def messages_table_def cursors_table_def
  sessions_table_def jobs_table_def attempts_table_def audit_table_def

lemma tables_lawful [simp]:
  "cell_laws threads_table" "cell_laws participants_table" "cell_laws messages_table"
  "cell_laws cursors_table" "cell_laws sessions_table" "cell_laws jobs_table"
  "cell_laws attempts_table" "cell_laws audit_table"
  by (simp_all add: cell_laws_def table_defs)

lemma table_gets [simp]:
  "cell_get threads_table = ds_threads" "cell_get participants_table = ds_participants"
  "cell_get messages_table = ds_messages" "cell_get cursors_table = ds_cursors"
  "cell_get sessions_table = ds_sessions" "cell_get jobs_table = ds_jobs"
  "cell_get attempts_table = ds_attempts" "cell_get audit_table = ds_audit"
  by (simp_all add: table_defs)

lemma table_puts [simp]:
  "cell_put threads_table a s = s\<lparr>ds_threads := a\<rparr>"
  "cell_put participants_table b s = s\<lparr>ds_participants := b\<rparr>"
  "cell_put messages_table c s = s\<lparr>ds_messages := c\<rparr>"
  "cell_put cursors_table d s = s\<lparr>ds_cursors := d\<rparr>"
  "cell_put sessions_table e s = s\<lparr>ds_sessions := e\<rparr>"
  "cell_put jobs_table f s = s\<lparr>ds_jobs := f\<rparr>"
  "cell_put attempts_table g s = s\<lparr>ds_attempts := g\<rparr>"
  "cell_put audit_table h s = s\<lparr>ds_audit := h\<rparr>"
  by (simp_all add: table_defs)

text \<open>
  The client: the tables, and \<open>transaction\<close> at the two types the sources use it.
\<close>

record 'w db_client =
  dc_threads :: "('w, thread_row) db_table"
  dc_participants :: "('w, participant_row) db_table"
  dc_messages :: "('w, message_row) db_table"
  dc_cursors :: "('w, cursor_row) db_table"
  dc_sessions :: "('w, session_row) db_table"
  dc_jobs :: "('w, job_row) db_table"
  dc_attempts :: "('w, attempt_row) db_table"
  dc_audit :: "('w, audit_event) db_table"
  dc_transaction :: "('w, exn, unit) io \<Rightarrow> ('w, exn, unit) io"
  dc_transactionJob :: "('w, exn, trigger_job option) io \<Rightarrow> ('w, exn, trigger_job option) io"

text \<open>A transaction takes effect as a whole, or not at all if it throws.\<close>

locale transaction_contract =
  fixes tx :: "('w, exn, 'a) io \<Rightarrow> ('w, exn, 'a) io" and state :: "'w \<Rightarrow> 'd"
  assumes commit: "tx m w = (Inr a, w') \<Longrightarrow>
      \<exists>u u'. state u = state w \<and> m u = (Inr a, u') \<and> state w' = state u'"
    and rollback: "tx m w = (Inl e, w') \<Longrightarrow> state w' = state w"

locale database =
  threads: db_table_contract "dc_threads D" state threads_table thread_clash +
  participants: db_table_contract "dc_participants D" state participants_table participant_clash +
  messages: db_table_contract "dc_messages D" state messages_table message_clash +
  cursors: db_table_contract "dc_cursors D" state cursors_table cursor_clash +
  sessions: db_table_contract "dc_sessions D" state sessions_table session_clash +
  jobs: db_table_contract "dc_jobs D" state jobs_table job_clash +
  attempts: db_table_contract "dc_attempts D" state attempts_table attempt_clash +
  audit: db_table_contract "dc_audit D" state audit_table no_clash +
  tx: transaction_contract "dc_transaction D" state +
  txJob: transaction_contract "dc_transactionJob D" state
  for D :: "'w db_client" and state :: "'w \<Rightarrow> db_state"

section \<open>A database that keeps the contract\<close>

definition mem_transaction :: "('w, db_state) cell \<Rightarrow> ('w, exn, 'a) io \<Rightarrow> ('w, exn, 'a) io" where
  "mem_transaction S m w =
     (case m w of (Inr a, w') \<Rightarrow> (Inr a, w') | (Inl e, w') \<Rightarrow> (Inl e, cell_put S (cell_get S w) w'))"

definition mem_client :: "('w, db_state) cell \<Rightarrow> 'w db_client" where
  "mem_client S =
     \<lparr>dc_threads = mem_table (cell_in S threads_table) thread_clash,
      dc_participants = mem_table (cell_in S participants_table) participant_clash,
      dc_messages = mem_table (cell_in S messages_table) message_clash,
      dc_cursors = mem_table (cell_in S cursors_table) cursor_clash,
      dc_sessions = mem_table (cell_in S sessions_table) session_clash,
      dc_jobs = mem_table (cell_in S jobs_table) job_clash,
      dc_attempts = mem_table (cell_in S attempts_table) attempt_clash,
      dc_audit = mem_table (cell_in S audit_table) no_clash,
      dc_transaction = mem_transaction S, dc_transactionJob = mem_transaction S\<rparr>"

lemma mem_transaction_contract:
  "cell_laws S \<Longrightarrow> transaction_contract (mem_transaction S) (cell_get S)"
  by unfold_locales (auto simp: mem_transaction_def split: prod.split_asm sum.split_asm)

lemma mem_database: "cell_laws S \<Longrightarrow> database (mem_client S) (cell_get S)"
  by (intro database.intro) (simp_all add: mem_client_def mem_table_contract mem_transaction_contract)

end
