(* ===== verification/DbTriggerQueue.thy ===== *)
theory DbTriggerQueue
  imports Database TriggerQueueSafety
begin

text \<open>
  The trigger queue on the database (\<open>DbTriggerQueueStore\<close> of
  \<open>apps/supervisor-worker/src/trigger-queue.ts\<close>) and the trigger store of the bridge
  (\<open>DbTriggerStore\<close> of \<open>apps/bridge-api/src/trigger-store.ts\<close>), which share the table
  \<open>trigger_jobs\<close>. Over any client that keeps its contract they keep the contracts that the
  processor and the handlers rely on, so what is proved of those holds on the database too.
\<close>

section \<open>The store of the worker\<close>

text \<open>\<open>toTriggerJobRecord\<close> of a row; the columns have the names of the fields.\<close>

definition job_of_row :: "job_row \<Rightarrow> trigger_job" where
  "job_of_row row =
     \<lparr>tj_triggerId = jw_triggerId row, tj_threadId = jw_threadId row,
      tj_workspaceId = jw_workspaceId row, tj_targetAgentId = jw_targetAgentId row,
      tj_targetSessionId = jw_targetSessionId row, tj_reason = jw_reason row,
      tj_prompt = jw_prompt row, tj_status = jw_status row, tj_attempts = jw_attempts row,
      tj_maxRetries = jw_maxRetries row, tj_nextRetryAt = jw_nextRetryAt row,
      tj_createdAt = jw_createdAt row, tj_updatedAt = jw_updatedAt row\<rparr>"

definition due_row :: "string \<Rightarrow> int \<Rightarrow> job_row \<Rightarrow> bool" where
  "due_row workspaceId claimedAt row \<longleftrightarrow>
     jw_workspaceId row = workspaceId \<and> jw_status row \<in> set DUE_TRIGGER_STATUSES \<and>
     (case jw_nextRetryAt row of None \<Rightarrow> True | Some t \<Rightarrow> t \<le> claimedAt)"

fun db_claim_candidates ::
  "'w db_client \<Rightarrow> int \<Rightarrow> int \<Rightarrow> job_row list \<Rightarrow> trigger_job list \<Rightarrow> ('w, exn, trigger_job list) io"
where
  "db_claim_candidates D limit claimedAt [] claimed = io_return claimed"
| "db_claim_candidates D limit claimedAt (candidate # rest) claimed =
     (if limit \<le> int (length claimed) then io_return claimed
      else
        io_bind (db_update (dc_jobs D)
            (\<lambda>row. jw_triggerId row = jw_triggerId candidate \<and> jw_status row = jw_status candidate \<and>
               jw_updatedAt row = jw_updatedAt candidate)
            (\<lambda>row. row\<lparr>jw_status := Triggering, jw_updatedAt := claimedAt\<rparr>)) (\<lambda>updated.
        case updated of
          [] \<Rightarrow> db_claim_candidates D limit claimedAt rest claimed
        | firstUpdated # _ \<Rightarrow>
            db_claim_candidates D limit claimedAt rest (claimed @ [job_of_row firstUpdated])))"

definition db_claimDueJobs :: "'w db_client \<Rightarrow> string \<Rightarrow> int \<Rightarrow> int \<Rightarrow> ('w, exn, trigger_job list) io" where
  "db_claimDueJobs D workspaceId limit claimedAt =
     io_bind (db_findMany (dc_jobs D) (due_row workspaceId claimedAt) (Asc jw_createdAt)
        (Some (max (limit * 3) limit))) (\<lambda>candidates.
       db_claim_candidates D limit claimedAt candidates [])"

definition db_recordAttemptAndTransition ::
  "'w db_client \<Rightarrow> transition_input \<Rightarrow> ('w, exn, trigger_job option) io" where
  "db_recordAttemptAndTransition D input =
     dc_transactionJob D (
       io_bind (db_insert (dc_attempts D)
          [\<lparr>aw_triggerId = tr_triggerId input, aw_attemptNo = tr_attemptNo input,
            aw_result = tr_attemptResult input, aw_errorCode = tr_errorCode input,
            aw_details = tr_details input, aw_createdAt = tr_transitionedAt input\<rparr>]) (\<lambda>_.
       io_bind (db_update (dc_jobs D)
          (\<lambda>row. jw_triggerId row = tr_triggerId input \<and> jw_status row = Triggering)
          (\<lambda>row. row\<lparr>jw_attempts := tr_attemptNo input, jw_status := tr_nextStatus input,
             jw_nextRetryAt := tr_nextRetryAt input, jw_updatedAt := tr_transitionedAt input\<rparr>))
         (\<lambda>updated.
         io_return (case updated of [] \<Rightarrow> None | firstUpdated # _ \<Rightarrow> Some (job_of_row firstUpdated)))))"

definition db_listDeadLetterJobs :: "'w db_client \<Rightarrow> string \<Rightarrow> int \<Rightarrow> ('w, exn, trigger_job list) io" where
  "db_listDeadLetterJobs D workspaceId limit =
     io_bind (db_findMany (dc_jobs D)
        (\<lambda>row. jw_workspaceId row = workspaceId \<and> jw_status row = Failed) (Desc jw_updatedAt)
        (Some limit)) (\<lambda>rows. io_return (map job_of_row rows))"

definition db_getJobById :: "'w db_client \<Rightarrow> string \<Rightarrow> ('w, exn, trigger_job option) io" where
  "db_getJobById D triggerId =
     io_bind (findFirst (dc_jobs D) (\<lambda>row. jw_triggerId row = triggerId) AnyOrder) (\<lambda>row.
       io_return (map_option job_of_row row))"

definition db_markThreadBlocked :: "'w db_client \<Rightarrow> string \<Rightarrow> int \<Rightarrow> string \<Rightarrow> ('w, exn, bool) io" where
  "db_markThreadBlocked D threadId blockedAt reason =
     io_bind (db_update (dc_threads D)
        (\<lambda>row. tw_threadId row = threadId \<and> tw_status row = Active)
        (\<lambda>row. row\<lparr>tw_status := Blocked, tw_updatedAt := blockedAt\<rparr>)) (\<lambda>updated.
       io_return (0 < length updated))"

definition DbTriggerQueueStore :: "'w db_client \<Rightarrow> 'w trigger_queue_store" where
  "DbTriggerQueueStore D =
     \<lparr>tq_claimDueJobs = db_claimDueJobs D,
      tq_recordAttemptAndTransition = db_recordAttemptAndTransition D,
      tq_listDeadLetterJobs = db_listDeadLetterJobs D, tq_getJobById = db_getJobById D,
      tq_markThreadBlocked = db_markThreadBlocked D\<rparr>"

section \<open>The store of the bridge\<close>

definition row_of_job :: "trigger_job \<Rightarrow> job_row" where
  "row_of_job j =
     \<lparr>jw_triggerId = tj_triggerId j, jw_threadId = tj_threadId j, jw_workspaceId = tj_workspaceId j,
      jw_targetAgentId = tj_targetAgentId j, jw_targetSessionId = tj_targetSessionId j,
      jw_reason = tj_reason j, jw_prompt = tj_prompt j, jw_status = tj_status j,
      jw_attempts = tj_attempts j, jw_maxRetries = tj_maxRetries j,
      jw_nextRetryAt = tj_nextRetryAt j, jw_createdAt = tj_createdAt j,
      jw_updatedAt = tj_updatedAt j\<rparr>"

definition db_createOrReuseTriggerJob ::
  "'w db_client \<Rightarrow> trigger_job \<Rightarrow> ('w, exn, create_or_reuse_result) io" where
  "db_createOrReuseTriggerJob D input =
     io_bind (db_insertNew (dc_jobs D) (row_of_job input)) (\<lambda>inserted.
     case inserted of
       firstInserted # _ \<Rightarrow>
         io_return \<lparr>cr_record = job_of_row firstInserted, cr_created = True\<rparr>
     | [] \<Rightarrow>
         io_bind (findFirst (dc_jobs D) (\<lambda>row. jw_triggerId row = tj_triggerId input) AnyOrder)
           (\<lambda>existing.
           case existing of
             None \<Rightarrow> io_throw (OtherExn
                       (''Failed to read trigger job after conflict: '' @ tj_triggerId input))
           | Some row \<Rightarrow> io_return \<lparr>cr_record = job_of_row row, cr_created = False\<rparr>))"

definition DbTriggerStore :: "'w db_client \<Rightarrow> 'w trigger_store" where
  "DbTriggerStore D = \<lparr>trs_createOrReuseTriggerJob = db_createOrReuseTriggerJob D\<rparr>"

section \<open>Rows by key\<close>

definition jobs_view :: "db_state \<Rightarrow> job_view" where
  "jobs_view s i = map_option job_of_row (find (\<lambda>r. jw_triggerId r = i) (ds_jobs s))"

definition jobs_unique :: "db_state \<Rightarrow> bool" where
  "jobs_unique s \<longleftrightarrow> unique job_clash (ds_jobs s)"

lemma jobs_unique_iff: "jobs_unique s \<longleftrightarrow> distinct (map jw_triggerId (ds_jobs s))"
  unfolding jobs_unique_def by (rule unique_key) (simp add: job_clash_def)

lemma claimed_view_Cons:
  "tj_triggerId c \<notin> tj_triggerId ` set cs \<Longrightarrow>
     claimed_view t (c # cs) v = claimed_view t cs (claimed_view t [c] v)"
  by (rule ext) (auto simp: claimed_view_def)

lemma job_of_row_simps [simp]:
  "tj_triggerId (job_of_row r) = jw_triggerId r" "tj_status (job_of_row r) = jw_status r"
  "tj_createdAt (job_of_row r) = jw_createdAt r" "tj_workspaceId (job_of_row r) = jw_workspaceId r"
  "job_due ws t (job_of_row r) = due_row ws t r"
  by (auto simp: job_of_row_def job_due_def due_row_def split: option.split)

lemma job_of_row_inverse [simp]: "job_of_row (row_of_job j) = j" "row_of_job (job_of_row r) = r"
  by (simp_all add: job_of_row_def row_of_job_def)

lemma row_of_job_id [simp]: "jw_triggerId (row_of_job j) = tj_triggerId j"
  by (simp add: row_of_job_def)

lemma jobs_view_filed: "filed (jobs_view s)"
  by (auto simp: filed_def jobs_view_def dest: find_key_key)

section \<open>The contracts\<close>

context database
begin

text \<open>
  The loop of a claim: of the candidates, which are rows of the table, it claims the first ones
  up to the limit.
\<close>

lemma claim_loop:
  assumes "db_claim_candidates D l t cs claimed w = (r, w')" "jobs_unique (state w)"
    "distinct (map jw_triggerId cs)"
    "\<forall>c\<in>set cs. find (\<lambda>x. jw_triggerId x = jw_triggerId c) (ds_jobs (state w)) = Some c"
  shows "\<exists>n. jobs_unique (state w') \<and>
    jobs_view (state w') = claimed_view t (map job_of_row (take n cs)) (jobs_view (state w)) \<and>
    (\<forall>js. r = Inr js \<longrightarrow> js = claimed @ map (claim t) (map job_of_row (take n cs)) \<and>
       (int (length claimed) \<le> l \<longrightarrow> int (length js) \<le> l))"
  using assms
proof (induction cs arbitrary: claimed w)
  case Nil
  then show ?case by (auto simp: claimed_view_def fun_eq_iff)
next
  case (Cons c cs)
  show ?case
  proof (cases "l \<le> int (length claimed)")
    case True
    with Cons.prems show ?thesis by (intro exI [of _ 0]) (auto simp: claimed_view_def fun_eq_iff)
  next
    case False
    let ?p = "\<lambda>row. jw_triggerId row = jw_triggerId c \<and> jw_status row = jw_status c \<and>
               jw_updatedAt row = jw_updatedAt c"
    let ?f = "\<lambda>row. row\<lparr>jw_status := Triggering, jw_updatedAt := t\<rparr>"
    obtain u w1 where u: "db_update (dc_jobs D) ?p ?f w = (u, w1)" by fastforce
    have c: "find (\<lambda>x. jw_triggerId x = jw_triggerId c) (ds_jobs (state w)) = Some c"
      using Cons.prems(4) by simp
    show ?thesis
    proof (cases u)
      case (Inl e)
      with u Cons.prems False have "r = Inl e" "w' = w1" by (auto simp: io_bind_iff)
      with jobs.update_fail [OF u [unfolded Inl]] Cons.prems(2) show ?thesis
        by (intro exI [of _ 0]) (auto simp: claimed_view_def fun_eq_iff)
    next
      case (Inr rs)
      from jobs.update_ok [OF u [unfolded Inr]] Cons.prems(2)
      have w1: "state w1 = (state w)\<lparr>ds_jobs := change ?p ?f (ds_jobs (state w))\<rparr>"
        "mset rs = mset (map ?f (filter ?p (ds_jobs (state w))))" "jobs_unique (state w1)"
        by (simp_all add: jobs_unique_def)
      have "filter ?p (ds_jobs (state w)) = [c]"
        using filter_key [of jw_triggerId "ds_jobs (state w)" "jw_triggerId c"
            "\<lambda>row. jw_status row = jw_status c \<and> jw_updatedAt row = jw_updatedAt c"] Cons.prems(2) c
        by (simp add: jobs_unique_iff)
      with w1(2) have rs: "rs = [?f c]" by simp
      have job: "job_of_row (?f c) = claim t (job_of_row c)" by (simp add: job_of_row_def claim_def)
      have find: "find (\<lambda>x. jw_triggerId x = i) (ds_jobs (state w1)) =
          (if i = jw_triggerId c then Some (?f c) else find (\<lambda>x. jw_triggerId x = i) (ds_jobs (state w)))" for i
        using find_change [of jw_triggerId ?f i "jw_triggerId c"
            "\<lambda>row. jw_status row = jw_status c \<and> jw_updatedAt row = jw_updatedAt c" "ds_jobs (state w)"] c
        by (simp add: w1(1))
      have "db_claim_candidates D l t cs (claimed @ [claim t (job_of_row c)]) w1 = (r, w')"
        using Cons.prems(1) False u by (simp add: io_bind_iff Inr rs job)
      moreover have "\<forall>d\<in>set cs. find (\<lambda>x. jw_triggerId x = jw_triggerId d) (ds_jobs (state w1)) = Some d"
      proof
        fix d assume d: "d \<in> set cs"
        with Cons.prems(3) have "jw_triggerId d \<noteq> jw_triggerId c" by (auto simp: image_iff)
        moreover have "find (\<lambda>x. jw_triggerId x = jw_triggerId d) (ds_jobs (state w)) = Some d"
          using Cons.prems(4) d by (meson list.set_intros(2))
        ultimately show "find (\<lambda>x. jw_triggerId x = jw_triggerId d) (ds_jobs (state w1)) = Some d"
          by (simp only: find if_False)
      qed
      ultimately obtain n where n: "jobs_unique (state w')"
        "jobs_view (state w') = claimed_view t (map job_of_row (take n cs)) (jobs_view (state w1))"
        "\<forall>js. r = Inr js \<longrightarrow> js = (claimed @ [claim t (job_of_row c)]) @ map (claim t) (map job_of_row (take n cs)) \<and>
           (int (length claimed) + 1 \<le> l \<longrightarrow> int (length js) \<le> l)"
        using Cons.IH [of "claimed @ [claim t (job_of_row c)]" w1] Cons.prems(3) w1(3) by auto
      have view1: "jobs_view (state w1) = claimed_view t [job_of_row c] (jobs_view (state w))"
        unfolding jobs_view_def claimed_view_def find using c job by (auto simp: fun_eq_iff)
      have "jobs_view (state w') =
          claimed_view t (map job_of_row (take (Suc n) (c # cs))) (jobs_view (state w))"
      proof -
        have "tj_triggerId (job_of_row c) \<notin> tj_triggerId ` set (map job_of_row (take n cs))"
          using Cons.prems(3) by (auto simp: image_iff dest!: in_set_takeD)
        from claimed_view_Cons [OF this] n(2) view1 show ?thesis by simp
      qed
      with n(1,3) False show ?thesis by (intro exI [of _ "Suc n"]) auto
    qed
  qed
qed

lemma claim_effect:
  assumes run: "db_claimDueJobs D ws l t w = (r, w')" and u: "jobs_unique (state w)"
  shows "\<exists>cs. jobs_unique (state w') \<and> distinct (map tj_triggerId cs) \<and> sorted (map tj_createdAt cs) \<and>
    (\<forall>c\<in>set cs. jobs_view (state w) (tj_triggerId c) = Some c \<and> job_due ws t c) \<and>
    jobs_view (state w') = claimed_view t cs (jobs_view (state w)) \<and>
    (\<forall>js. r = Inr js \<longrightarrow> js = map (claim t) cs \<and> (0 \<le> l \<longrightarrow> int (length cs) \<le> l))"
proof -
  obtain f w1 where f: "db_findMany (dc_jobs D) (due_row ws t) (Asc jw_createdAt) (Some (max (l * 3) l)) w = (f, w1)"
    by fastforce
  have s: "state w1 = state w" using jobs.find_ok [OF f] by blast
  show ?thesis
  proof (cases f)
    case (Inl e)
    with run f have "r = Inl e" "w' = w1" by (auto simp: db_claimDueJobs_def io_bind_iff)
    with s u show ?thesis by (intro exI [of _ "[]"]) (auto simp: claimed_view_def fun_eq_iff)
  next
    case (Inr rows)
    obtain xs where xs: "mset xs = mset (filter (due_row ws t) (ds_jobs (state w)))"
      "sorted_wrt (\<lambda>x y. jw_createdAt x \<le> jw_createdAt y) xs" "rows = take (nat (max (l * 3) l)) xs"
      using jobs.find_ok [OF f] Inr by (auto simp: selection_def limited_def)
    have "distinct (map jw_triggerId (filter (due_row ws t) (ds_jobs (state w))))"
      using u by (simp add: jobs_unique_iff distinct_map_filter)
    then have dx: "distinct (map jw_triggerId xs)"
      using mset_eq_imp_distinct_iff [of "map jw_triggerId xs" "map jw_triggerId (filter (due_row ws t) (ds_jobs (state w)))"] xs(1)
      by (simp add: mset_map)
    have dr: "distinct (map jw_triggerId rows)" unfolding xs(3) by (metis dx distinct_take take_map)
    have "selection (due_row ws t) (Asc jw_createdAt) (Some (max (l * 3) l)) (ds_jobs (state w)) rows"
      using jobs.find_ok [OF f] Inr by simp
    from selection_mem [OF this] have mem: "c \<in> set (ds_jobs (state w)) \<and> due_row ws t c"
      if "c \<in> set rows" for c using that by blast
    have find: "\<forall>c\<in>set rows. find (\<lambda>x. jw_triggerId x = jw_triggerId c) (ds_jobs (state w1)) = Some c"
      using mem u unfolding s by (auto simp: jobs_unique_iff intro!: find_key_mem)
    have go: "db_claim_candidates D l t rows [] w1 = (r, w')"
      using run f Inr by (simp add: db_claimDueJobs_def io_bind_iff)
    from claim_loop [OF go _ dr find] u s obtain n where n: "jobs_unique (state w')"
      "jobs_view (state w') = claimed_view t (map job_of_row (take n rows)) (jobs_view (state w))"
      "\<forall>js. r = Inr js \<longrightarrow> js = map (claim t) (map job_of_row (take n rows)) \<and>
         (0 \<le> l \<longrightarrow> int (length js) \<le> l)" by auto
    have "distinct (map tj_triggerId (map job_of_row (take n rows)))"
      using distinct_take [OF dr, of n] by (simp add: take_map comp_def)
    moreover have "sorted (map tj_createdAt (map job_of_row (take n rows)))"
      using xs(2) unfolding xs(3) by (simp add: sorted_map comp_def sorted_wrt_take sorted_wrt_map)
    moreover have "\<forall>c\<in>set (map job_of_row (take n rows)).
        jobs_view (state w) (tj_triggerId c) = Some c \<and> job_due ws t c"
      using mem find unfolding s by (auto simp: jobs_view_def dest!: in_set_takeD)
    ultimately show ?thesis using n by (intro exI [of _ "map job_of_row (take n rows)"]) auto
  qed
qed

lemma record_effect:
  assumes run: "db_recordAttemptAndTransition D i w = (Inr r, w')" and u: "jobs_unique (state w)"
  shows "jobs_unique (state w') \<and> (case jobs_view (state w) (tr_triggerId i) of
     Some j \<Rightarrow> if tj_status j = Triggering
       then r = Some (settle i j) \<and>
         jobs_view (state w') = (jobs_view (state w))(tr_triggerId i \<mapsto> settle i j)
       else r = None \<and> jobs_view (state w') = jobs_view (state w)
   | None \<Rightarrow> r = None \<and> jobs_view (state w') = jobs_view (state w))"
proof -
  let ?p = "\<lambda>row. jw_triggerId row = tr_triggerId i \<and> jw_status row = Triggering"
  let ?f = "\<lambda>row. row\<lparr>jw_attempts := tr_attemptNo i, jw_status := tr_nextStatus i,
             jw_nextRetryAt := tr_nextRetryAt i, jw_updatedAt := tr_transitionedAt i\<rparr>"
  let ?rows = "ds_jobs (state w)"
  from txJob.commit [OF run [unfolded db_recordAttemptAndTransition_def]] obtain x w0 w1 w2 rs where
    ins: "db_insert (dc_attempts D) x w0 = (Inr (), w1)"
    and up: "db_update (dc_jobs D) ?p ?f w1 = (Inr rs, w2)"
    and r: "r = (case rs of [] \<Rightarrow> None | firstUpdated # _ \<Rightarrow> Some (job_of_row firstUpdated))"
    and s: "state w0 = state w" "state w' = state w2" by auto
  have j1: "ds_jobs (state w1) = ?rows" using attempts.insert_ok [OF ins] s(1) by simp
  from jobs.update_ok [OF up] j1 u have s': "ds_jobs (state w') = change ?p ?f ?rows"
    "mset rs = mset (map ?f (filter ?p ?rows))" "jobs_unique (state w')"
    by (simp_all add: jobs_unique_def s(2))
  have rs: "filter ?p ?rows = (case find (\<lambda>r. jw_triggerId r = tr_triggerId i) ?rows of None \<Rightarrow> []
      | Some r \<Rightarrow> if jw_status r = Triggering then [r] else [])"
    by (rule filter_key) (use u in \<open>simp add: jobs_unique_iff\<close>)
  have find: "find (\<lambda>x. jw_triggerId x = k) (ds_jobs (state w')) = (if k = tr_triggerId i
      then map_option (\<lambda>r. if jw_status r = Triggering then ?f r else r) (find (\<lambda>x. jw_triggerId x = k) ?rows)
      else find (\<lambda>x. jw_triggerId x = k) ?rows)" for k
    unfolding s'(1) by (rule find_change) simp
  have job: "job_of_row (?f row) = settle i (job_of_row row)" for row
    by (simp add: job_of_row_def settle_def)
  show ?thesis
  proof (cases "find (\<lambda>r. jw_triggerId r = tr_triggerId i) ?rows")
    case None
    with rs s' r find show ?thesis by (auto simp: jobs_view_def fun_eq_iff)
  next
    case (Some row)
    show ?thesis
    proof (cases "jw_status row = Triggering")
      case True
      with rs s'(2) Some have "rs = [?f row]" by simp
      with r s'(3) Some True find job show ?thesis by (auto simp: jobs_view_def fun_eq_iff)
    next
      case False
      with rs s' r find Some show ?thesis by (auto simp: jobs_view_def fun_eq_iff)
    qed
  qed
qed

lemma job_first:
  assumes "findFirst (dc_jobs D) (\<lambda>row. jw_triggerId row = i) AnyOrder w = (Inr found, w')"
    "jobs_unique (state w)"
  shows "state w' = state w" "map_option job_of_row found = jobs_view (state w) i"
proof -
  have "found = find (\<lambda>row. jw_triggerId row = i) (ds_jobs (state w))"
    using jobs.first_key [OF assms(1)] assms(2)
    by (simp add: jobs_unique_iff distinct_map inj_on_def)
  then show "map_option job_of_row found = jobs_view (state w) i" by (simp add: jobs_view_def)
qed (rule jobs.first_ok(1) [OF assms(1)])

theorem DbTriggerQueueStore_contract:
  "trigger_queue_contract (DbTriggerQueueStore D) (\<lambda>w. jobs_view (state w)) (\<lambda>w. jobs_unique (state w))"
proof (unfold_locales, unfold DbTriggerQueueStore_def trigger_queue_store.simps, goal_cases)
  case (1 w)
  show ?case by (rule jobs_view_filed)
next
  case (2 ws l t w js w')
  from claim_effect [OF this] show ?case by auto
next
  case (3 ws l t w e w')
  from claim_effect [OF this] show ?case by auto
next
  case (4 i w r w')
  from record_effect [OF this] show ?case .
next
  case (5 i w e w')
  from txJob.rollback [OF 5(1) [unfolded db_recordAttemptAndTransition_def]] 5(2) show ?case by simp
next
  case (6 ws l w dl w')
  from 6(1) obtain f where f: "db_findMany (dc_jobs D) (\<lambda>row. jw_workspaceId row = ws \<and> jw_status row = Failed)
      (Desc jw_updatedAt) (Some l) w = (f, w')" and dl: "dl = (case f of Inl e \<Rightarrow> Inl e | Inr rs \<Rightarrow> Inr (map job_of_row rs))"
    by (auto simp: db_listDeadLetterJobs_def io_bind_iff)
  have "jobs_view (state w) (jw_triggerId x) = Some (job_of_row x) \<and> jw_status x = Failed \<and> jw_workspaceId x = ws"
    if "f = Inr rs" "x \<in> set rs" for rs x
  proof -
    have sel: "selection (\<lambda>row. jw_workspaceId row = ws \<and> jw_status row = Failed) (Desc jw_updatedAt)
        (Some l) (ds_jobs (state w)) rs" using jobs.find_ok [OF f] that(1) by simp
    from selection_mem [OF this that(2)] have "x \<in> set (ds_jobs (state w))" "jw_workspaceId x = ws"
      "jw_status x = Failed" by simp_all
    with 6(2) find_key_mem [of jw_triggerId "ds_jobs (state w)" x] show ?thesis
      by (simp add: jobs_view_def jobs_unique_iff)
  qed
  with dl jobs.find_ok [OF f] 6(2) show ?case by (auto split: sum.split_asm)
next
  case (7 i w g w')
  from 7(1) obtain f where f: "findFirst (dc_jobs D) (\<lambda>row. jw_triggerId row = i) AnyOrder w = (f, w')"
    and g: "g = (case f of Inl e \<Rightarrow> Inl e | Inr x \<Rightarrow> Inr (map_option job_of_row x))"
    by (auto simp: db_getJobById_def io_bind_iff)
  with jobs.first_ok(1) [OF f] job_first(2) [of i w _ w'] 7(2) show ?case
    by (auto split: sum.split_asm)
next
  case (8 th t reason w b w')
  from 8(1) obtain f where f: "db_update (dc_threads D) (\<lambda>row. tw_threadId row = th \<and> tw_status row = Active)
      (\<lambda>row. row\<lparr>tw_status := Blocked, tw_updatedAt := t\<rparr>) w = (f, w')"
    by (auto simp: db_markThreadBlocked_def io_bind_iff)
  have "ds_jobs (state w') = ds_jobs (state w)"
  proof (cases f)
    case (Inl e)
    with threads.update_fail f show ?thesis by metis
  next
    case (Inr rs)
    with threads.update_ok f show ?thesis by fastforce
  qed
  with 8(2) show ?case by (simp add: jobs_view_def [abs_def] jobs_unique_def)
qed

text \<open>The trigger store of the bridge returns the job that is stored under the id, the first one.\<close>

theorem DbTriggerStore_effect:
  assumes "db_createOrReuseTriggerJob D j w = (r, w')" "jobs_unique (state w)"
  shows "jobs_unique (state w') \<and> (case r of Inl e \<Rightarrow> state w' = state w | Inr x \<Rightarrow>
    (case jobs_view (state w) (tj_triggerId j) of
       Some old \<Rightarrow> x = \<lparr>cr_record = old, cr_created = False\<rparr> \<and> state w' = state w
     | None \<Rightarrow> x = \<lparr>cr_record = j, cr_created = True\<rparr> \<and>
         state w' = (state w)\<lparr>ds_jobs := ds_jobs (state w) @ [row_of_job j]\<rparr> \<and>
         jobs_view (state w') = (jobs_view (state w))(tj_triggerId j \<mapsto> j)))"
proof -
  obtain i w1 where i: "db_insertNew (dc_jobs D) (row_of_job j) w = (i, w1)" by fastforce
  let ?old = "\<exists>x\<in>set (ds_jobs (state w)). job_clash x (row_of_job j)"
  have old: "?old \<longleftrightarrow> jobs_view (state w) (tj_triggerId j) \<noteq> None"
    by (auto simp: jobs_view_def job_clash_def find_None_iff)
  show ?thesis
  proof (cases i)
    case (Inl e)
    with i assms jobs.insertNew_fail show ?thesis
      by (auto simp: db_createOrReuseTriggerJob_def io_bind_iff)
  next
    case (Inr rs)
    note ok = jobs.insertNew_ok [OF i [unfolded Inr]]
    show ?thesis
    proof (cases ?old)
      case True
      with ok have s: "rs = []" "state w1 = state w" by simp_all
      with assms(1) i Inr obtain f w2 where
        f: "findFirst (dc_jobs D) (\<lambda>row. jw_triggerId row = tj_triggerId j) AnyOrder w1 = (f, w2)"
        "w' = w2" "\<forall>x. r = Inr x \<longrightarrow> (\<exists>row. f = Inr (Some row) \<and> x = \<lparr>cr_record = job_of_row row, cr_created = False\<rparr>)"
        by (auto simp: db_createOrReuseTriggerJob_def io_bind_iff split: option.split_asm)
      from jobs.first_ok(1) [OF f(1)] job_first(2) [of "tj_triggerId j" w1 _ w2] f s assms(2)
      show ?thesis by (auto split: sum.split option.split)
    next
      case False
      with ok have s: "rs = [row_of_job j]"
        "state w1 = (state w)\<lparr>ds_jobs := ds_jobs (state w) @ [row_of_job j]\<rparr>" by simp_all
      then have r: "r = Inr \<lparr>cr_record = j, cr_created = True\<rparr>" "w' = w1"
        using assms(1) i Inr by (auto simp: db_createOrReuseTriggerJob_def io_bind_iff)
      have "jobs_unique (state w1)"
        using assms(2) False by (auto simp: jobs_unique_iff s(2) job_clash_def)
      moreover have "jobs_view (state w1) = (jobs_view (state w))(tj_triggerId j \<mapsto> j)"
        using old False by (auto simp: jobs_view_def s(2) find_key_append fun_eq_iff split: option.split)
      ultimately show ?thesis using r s(2) old False by (auto split: option.split)
    qed
  qed
qed

end

end
