(* ===== verification/DbSessions.thy ===== *)
theory DbSessions
  imports DbTriggerQueue RuntimeRegistry BridgeMemory
begin

text \<open>
  The table \<open>session_registry\<close> and the two stores over it: \<open>DbSessionStore\<close> of
  \<open>apps/bridge-api/src/session-store.ts\<close> and \<open>DbRuntimeRegistryStore\<close> of
  \<open>apps/supervisor-worker/src/runtime-registry.ts\<close>. A heartbeat is two statements and two
  queries; what it stores and returns is what the domain function computes from the stored
  record. The registry keeps the contract that the reconciliation relies on.
\<close>

section \<open>The stores\<close>

text \<open>\<open>toSessionRecord\<close> and \<open>toRuntimeRegistryRecord\<close>.\<close>

definition session_of_row :: "session_row \<Rightarrow> session" where
  "session_of_row row =
     \<lparr>se_agentId = sw_agentId row, se_workspaceId = sw_workspaceId row,
      se_sessionId = sw_sessionId row, se_runtime = sw_runtime row,
      se_managementMode = sw_managementMode row, se_resumable = sw_resumable row,
      se_status = sw_status row, se_lastHeartbeatAt = sw_lastHeartbeatAt row,
      se_updatedAt = sw_updatedAt row\<rparr>"

definition row_of_session :: "session \<Rightarrow> session_row" where
  "row_of_session s =
     \<lparr>sw_agentId = se_agentId s, sw_workspaceId = se_workspaceId s,
      sw_sessionId = se_sessionId s, sw_runtime = se_runtime s,
      sw_managementMode = se_managementMode s, sw_resumable = se_resumable s,
      sw_status = se_status s, sw_lastHeartbeatAt = se_lastHeartbeatAt s,
      sw_updatedAt = se_updatedAt s\<rparr>"

definition db_findSession :: "'w db_client \<Rightarrow> string \<Rightarrow> string \<Rightarrow> ('w, exn, session option) io" where
  "db_findSession D agentId workspaceId =
     io_bind (findFirst (dc_sessions D)
        (\<lambda>row. sw_agentId row = agentId \<and> sw_workspaceId row = workspaceId) AnyOrder) (\<lambda>existing.
       io_return (map_option session_of_row existing))"

text \<open>The columns that a heartbeat sets.\<close>

definition heartbeat_columns :: "session \<Rightarrow> session_row \<Rightarrow> session_row" where
  "heartbeat_columns normalized row =
     row\<lparr>sw_sessionId := se_sessionId normalized, sw_runtime := se_runtime normalized,
       sw_managementMode := se_managementMode normalized,
       sw_resumable := se_resumable normalized, sw_status := se_status normalized,
       sw_lastHeartbeatAt := se_lastHeartbeatAt normalized, sw_updatedAt := se_updatedAt normalized\<rparr>"

text \<open>Both stores do the same; only the message of the last error differs.\<close>

definition db_heartbeat ::
  "string \<Rightarrow> 'w db_client \<Rightarrow> int \<Rightarrow> heartbeat_input \<Rightarrow> ('w, exn, session) io" where
  "db_heartbeat failure D now input =
     io_bind (io_lift (map_exn DomainExn (createSessionFromHeartbeat now input))) (\<lambda>normalized.
     io_bind (db_update (dc_sessions D)
        (\<lambda>row. sw_agentId row = se_agentId normalized \<and>
           sw_workspaceId row = se_workspaceId normalized \<and>
           sw_lastHeartbeatAt row < se_lastHeartbeatAt normalized)
        (heartbeat_columns normalized)) (\<lambda>updated.
     case updated of
       firstUpdated # _ \<Rightarrow> io_return (session_of_row firstUpdated)
     | [] \<Rightarrow>
         io_bind (db_findSession D (se_agentId normalized) (se_workspaceId normalized)) (\<lambda>existing.
         case existing of
           Some s \<Rightarrow> io_return s
         | None \<Rightarrow>
             io_bind (db_insertNew (dc_sessions D) (row_of_session normalized)) (\<lambda>_.
             io_bind (db_findSession D (se_agentId normalized) (se_workspaceId normalized)) (\<lambda>inserted.
             case inserted of
               Some s \<Rightarrow> io_return s
             | None \<Rightarrow> io_throw (OtherExn failure))))))"

definition db_heartbeatSession :: "'w db_client \<Rightarrow> int \<Rightarrow> heartbeat_input \<Rightarrow> ('w, exn, session) io" where
  "db_heartbeatSession = db_heartbeat ''Failed to persist session heartbeat''"

definition db_upsertFromHeartbeat :: "'w db_client \<Rightarrow> int \<Rightarrow> heartbeat_input \<Rightarrow> ('w, exn, session) io" where
  "db_upsertFromHeartbeat = db_heartbeat ''Failed to persist runtime heartbeat''"

definition db_getLatestResumableSession ::
  "'w db_client \<Rightarrow> int \<Rightarrow> session_lookup \<Rightarrow> ('w, exn, session option) io" where
  "db_getLatestResumableSession D now lookup =
     io_bind (db_findSession D (lk_agentId lookup) (lk_workspaceId lookup)) (\<lambda>existing.
     case existing of
       None \<Rightarrow> io_return None
     | Some session \<Rightarrow>
         if \<not> se_resumable session then io_return None
         else
           io_bind (io_lift (map_exn DomainExn (isSessionRecordStale now session
               (lk_staleAfterHours lookup) (lk_referenceTime lookup)))) (\<lambda>stale.
             io_return (if stale then None else Some session)))"

definition DbSessionStore :: "'w db_client \<Rightarrow> int \<Rightarrow> 'w session_store" where
  "DbSessionStore D now =
     \<lparr>ss_heartbeatSession = db_heartbeatSession D now,
      ss_getLatestResumableSession = db_getLatestResumableSession D now,
      ss_getSession = db_findSession D\<rparr>"

definition db_listWorkspaceRuntimes :: "'w db_client \<Rightarrow> string \<Rightarrow> ('w, exn, session list) io" where
  "db_listWorkspaceRuntimes D workspaceId =
     io_bind (db_findMany (dc_sessions D) (\<lambda>row. sw_workspaceId row = workspaceId) AnyOrder None)
       (\<lambda>rows. io_return (map session_of_row rows))"

definition db_markRuntimeStatus ::
  "'w db_client \<Rightarrow> string \<Rightarrow> string \<Rightarrow> session_status \<Rightarrow> bool option \<Rightarrow> int \<Rightarrow>
     ('w, exn, session option) io" where
  "db_markRuntimeStatus D agentId workspaceId status resumable updatedAt =
     io_bind (db_update (dc_sessions D)
        (\<lambda>row. sw_agentId row = agentId \<and> sw_workspaceId row = workspaceId)
        (\<lambda>row. row\<lparr>sw_status := status,
           sw_resumable := (case resumable of None \<Rightarrow> sw_resumable row | Some b \<Rightarrow> b),
           sw_updatedAt := updatedAt\<rparr>)) (\<lambda>updated.
       io_return (case updated of [] \<Rightarrow> None | firstUpdated # _ \<Rightarrow> Some (session_of_row firstUpdated)))"

definition DbRuntimeRegistryStore :: "'w db_client \<Rightarrow> int \<Rightarrow> 'w runtime_store" where
  "DbRuntimeRegistryStore D now =
     \<lparr>rs_upsertFromHeartbeat = db_upsertFromHeartbeat D now, rs_getRuntime = db_findSession D,
      rs_listWorkspaceRuntimes = db_listWorkspaceRuntimes D,
      rs_markRuntimeStatus = db_markRuntimeStatus D\<rparr>"

section \<open>Sessions by agent and workspace\<close>

definition session_key :: "session_row \<Rightarrow> string \<times> string" where
  "session_key row = (sw_agentId row, sw_workspaceId row)"

definition sessions_view :: "db_state \<Rightarrow> (string \<times> string) runtime_view" where
  "sessions_view s k = map_option session_of_row (find (\<lambda>r. session_key r = k) (ds_sessions s))"

definition sessions_unique :: "db_state \<Rightarrow> bool" where
  "sessions_unique s \<longleftrightarrow> unique session_clash (ds_sessions s)"

lemma sessions_distinct: "sessions_unique s \<Longrightarrow> distinct (map session_key (ds_sessions s))"
  unfolding sessions_unique_def unique_def distinct_map distinct_conv_nth
  by (metis (no_types, lifting) distinct_conv_nth distinct_map inj_on_def length_map nth_map
      session_clash_def session_key_def prod.inject sorted_wrt_iff_nth_less linorder_neqE_nat)

lemma session_of_row_simps [simp]:
  "se_agentId (session_of_row r) = sw_agentId r" "se_workspaceId (session_of_row r) = sw_workspaceId r"
  "session_of_row (row_of_session s) = s" "session_key (row_of_session s) = (se_agentId s, se_workspaceId s)"
  by (simp_all add: session_of_row_def row_of_session_def session_key_def)

lemma by_key:
  "(\<lambda>row. sw_agentId row = a \<and> sw_workspaceId row = ws) = (\<lambda>row. session_key row = (a, ws))"
  "(\<lambda>row. sw_agentId row = a \<and> sw_workspaceId row = ws \<and> q row) =
     (\<lambda>row. session_key row = (a, ws) \<and> q row)"
  by (auto simp: session_key_def)

lemma sessions_view_Some:
  "sessions_unique s \<Longrightarrow> row \<in> set (ds_sessions s) \<Longrightarrow>
     sessions_view s (session_key row) = Some (session_of_row row)"
  by (simp add: sessions_view_def find_key_mem sessions_distinct)

lemma sessions_view_filed: "runtimes_filed Pair (sessions_view s)"
  by (auto simp: runtimes_filed_def sessions_view_def session_key_def find_Some_iff)

text \<open>The rows of a workspace are the records the view has there.\<close>

lemma sessions_of_workspace:
  assumes "sessions_unique s"
  shows "session_of_row ` {r \<in> set (ds_sessions s). sw_workspaceId r = ws} =
    {x. se_workspaceId x = ws \<and> sessions_view s (se_agentId x, se_workspaceId x) = Some x}"
proof (intro equalityI subsetI)
  fix x assume "x \<in> session_of_row ` {r \<in> set (ds_sessions s). sw_workspaceId r = ws}"
  then obtain r where r: "x = session_of_row r" "r \<in> set (ds_sessions s)" "sw_workspaceId r = ws" by blast
  with sessions_view_Some [OF assms r(2)]
  show "x \<in> {x. se_workspaceId x = ws \<and> sessions_view s (se_agentId x, se_workspaceId x) = Some x}"
    by (simp add: session_key_def)
next
  fix x assume "x \<in> {x. se_workspaceId x = ws \<and> sessions_view s (se_agentId x, se_workspaceId x) = Some x}"
  then obtain r where "se_workspaceId x = ws" "find (\<lambda>r. session_key r = (se_agentId x, se_workspaceId x)) (ds_sessions s) = Some r"
    "x = session_of_row r" by (auto simp: sessions_view_def)
  then show "x \<in> session_of_row ` {r \<in> set (ds_sessions s). sw_workspaceId r = ws}"
    by (auto simp: find_Some_iff)
qed

section \<open>The registry of the worker\<close>

context database
begin

lemma session_first:
  assumes "db_findSession D a ws w = (r, w')" "sessions_unique (state w)"
  shows "state w' = state w" "r = Inr found \<Longrightarrow> found = sessions_view (state w) (a, ws)"
proof -
  from assms(1) obtain f where f: "findFirst (dc_sessions D) (\<lambda>row. session_key row = (a, ws)) AnyOrder w = (f, w')"
    and r: "r = (case f of Inl e \<Rightarrow> Inl e | Inr x \<Rightarrow> Inr (map_option session_of_row x))"
    by (auto simp: db_findSession_def io_bind_iff by_key)
  show "state w' = state w" by (rule sessions.first_ok(1) [OF f])
  assume "r = Inr found"
  with r obtain x where x: "f = Inr x" "found = map_option session_of_row x" by (cases f) auto
  have "x = find (\<lambda>row. session_key row = (a, ws)) (ds_sessions (state w))"
    using sessions.first_key [OF f [unfolded x(1)]] sessions_distinct [OF assms(2)]
    by (simp add: distinct_map inj_on_def)
  with x(2) show "found = sessions_view (state w) (a, ws)" by (simp add: sessions_view_def)
qed

text \<open>An update of the row of one agent that keeps its key.\<close>

lemma session_update:
  assumes "db_update (dc_sessions D) (\<lambda>r. session_key r = k \<and> q r) f w = (u, w')"
    "sessions_unique (state w)" "\<And>r. session_key (f r) = session_key r"
  shows "sessions_unique (state w')"
    "u = Inl e \<Longrightarrow> state w' = state w"
    "u = Inr rs \<Longrightarrow> rs = (case find (\<lambda>r. session_key r = k) (ds_sessions (state w)) of
       None \<Rightarrow> [] | Some r \<Rightarrow> if q r then [f r] else [])"
    "u = Inr rs \<Longrightarrow> find (\<lambda>r. session_key r = i) (ds_sessions (state w')) =
       (if i = k then map_option (\<lambda>r. if q r then f r else r) (find (\<lambda>r. session_key r = i) (ds_sessions (state w)))
        else find (\<lambda>r. session_key r = i) (ds_sessions (state w)))"
    "u = Inr [] \<Longrightarrow> state w' = state w"
proof -
  note up = sessions.update_key [OF assms(1), unfolded table_gets, OF sessions_distinct [OF assms(2)] assms(3)]
  show "u = Inl e \<Longrightarrow> state w' = state w" "u = Inr [] \<Longrightarrow> state w' = state w"
    "u = Inr rs \<Longrightarrow> rs = (case find (\<lambda>r. session_key r = k) (ds_sessions (state w)) of
       None \<Rightarrow> [] | Some r \<Rightarrow> if q r then [f r] else [])"
    "u = Inr rs \<Longrightarrow> find (\<lambda>r. session_key r = i) (ds_sessions (state w')) =
       (if i = k then map_option (\<lambda>r. if q r then f r else r) (find (\<lambda>r. session_key r = i) (ds_sessions (state w)))
        else find (\<lambda>r. session_key r = i) (ds_sessions (state w)))"
    by (fact up)+
  show "sessions_unique (state w')"
    using up(1) sessions.update_ok [of _ f w _ w'] assms(1,2) by (cases u) (fastforce simp: sessions_unique_def)+
qed

theorem DbRuntimeRegistryStore_contract:
  "runtime_registry_contract (DbRuntimeRegistryStore D now) (\<lambda>w. sessions_view (state w)) Pair
     (\<lambda>w. sessions_unique (state w))"
proof (unfold_locales, unfold DbRuntimeRegistryStore_def runtime_store.simps, goal_cases)
  case (1 w)
  show ?case by (rule sessions_view_filed)
next
  case (2 a ws w g w')
  from session_first [OF this] this(2) show ?case by simp
next
  case (3 ws w ls w')
  from 3(1) obtain f where f: "db_findMany (dc_sessions D) (\<lambda>row. sw_workspaceId row = ws) AnyOrder None w = (f, w')"
    and ls: "ls = (case f of Inl e \<Rightarrow> Inl e | Inr rows \<Rightarrow> Inr (map session_of_row rows))"
    by (auto simp: db_listWorkspaceRuntimes_def io_bind_iff)
  have s: "state w' = state w" using sessions.find_ok [OF f] by blast
  have "distinct (map (\<lambda>s. (se_agentId s, se_workspaceId s)) (map session_of_row rows)) \<and>
      set (map session_of_row rows) =
        {x. se_workspaceId x = ws \<and> sessions_view (state w) (se_agentId x, se_workspaceId x) = Some x}"
    if "f = Inr rows" for rows
  proof
    have m: "mset rows = mset (filter (\<lambda>row. sw_workspaceId row = ws) (ds_sessions (state w)))"
      using sessions.find_all(2) [OF f [unfolded that]] by simp
    have "mset (map session_key rows) =
        mset (map session_key (filter (\<lambda>row. sw_workspaceId row = ws) (ds_sessions (state w))))"
      using m by simp
    from mset_eq_imp_distinct_iff [OF this] sessions_distinct [OF 3(2)]
    show "distinct (map (\<lambda>s. (se_agentId s, se_workspaceId s)) (map session_of_row rows))"
      by (simp add: distinct_map_filter comp_def session_key_def [abs_def])
    show "set (map session_of_row rows) =
        {x. se_workspaceId x = ws \<and> sessions_view (state w) (se_agentId x, se_workspaceId x) = Some x}"
      unfolding sessions_of_workspace [OF 3(2), symmetric] set_map mset_eq_setD [OF m] by simp
  qed
  with ls s 3(2) show ?case by (auto split: sum.split_asm)
next
  case (4 a ws st r u w m w')
  let ?f = "\<lambda>row. row\<lparr>sw_status := st, sw_resumable := (case r of None \<Rightarrow> sw_resumable row | Some b \<Rightarrow> b),
     sw_updatedAt := u\<rparr>"
  from 4(1) obtain rs where up: "db_update (dc_sessions D) (\<lambda>row. session_key row = (a, ws) \<and> True) ?f w = (Inr rs, w')"
    and m: "m = (case rs of [] \<Rightarrow> None | x # _ \<Rightarrow> Some (session_of_row x))"
    by (auto simp: db_markRuntimeStatus_def by_key)
  have key: "session_key (?f row) = session_key row" for row by (simp add: session_key_def)
  note e = session_update [OF up 4(2) key]
  have f: "session_of_row (?f row) = marked st r u (session_of_row row)" for row
    by (simp add: session_of_row_def marked_def split: option.split)
  from e(1,3,4) m show ?case
    by (auto simp: sessions_view_def f fun_eq_iff split: option.split)
next
  case (5 a ws st r u w e w')
  have key: "session_key (row\<lparr>sw_status := st, sw_resumable := (case r of None \<Rightarrow> sw_resumable row | Some b \<Rightarrow> b),
     sw_updatedAt := u\<rparr>) = session_key row" for row by (simp add: session_key_def)
  from 5(1) have "db_update (dc_sessions D) (\<lambda>row. session_key row = (a, ws) \<and> True)
      (\<lambda>row. row\<lparr>sw_status := st, sw_resumable := (case r of None \<Rightarrow> sw_resumable row | Some b \<Rightarrow> b),
         sw_updatedAt := u\<rparr>) w = (Inl e, w')"
    by (auto simp: db_markRuntimeStatus_def io_bind_iff by_key)
  from session_update(2) [OF this 5(2) key] 5(2) show ?case by simp
qed

section \<open>Heartbeats\<close>

text \<open>The insert that follows when no record is there.\<close>

lemma session_insert:
  assumes "db_insertNew (dc_sessions D) (row_of_session s) w = (u, w')" "sessions_unique (state w)"
    "sessions_view (state w) (se_agentId s, se_workspaceId s) = None"
  shows "sessions_unique (state w')"
    "state w' = state w \<or> sessions_view (state w') =
       (sessions_view (state w))((se_agentId s, se_workspaceId s) \<mapsto> s)"
proof -
  let ?clash = "\<exists>x\<in>set (ds_sessions (state w)). session_clash x (row_of_session s)"
  consider "state w' = state w"
    | "\<not> ?clash" "state w' = (state w)\<lparr>ds_sessions := ds_sessions (state w) @ [row_of_session s]\<rparr>"
  proof (cases u)
    case (Inl e)
    with sessions.insertNew_fail assms(1) that(1) show ?thesis by metis
  next
    case (Inr rs)
    from sessions.insertNew_ok [OF assms(1) [unfolded Inr]] that show ?thesis
      by (cases ?clash) simp_all
  qed
  then have "sessions_unique (state w') \<and> (state w' = state w \<or> sessions_view (state w') =
       (sessions_view (state w))((se_agentId s, se_workspaceId s) \<mapsto> s))"
  proof cases
    case 2
    have "sessions_unique (state w')"
      using assms(2) 2 by (auto simp: sessions_unique_def unique_def sorted_wrt_append)
    moreover have "sessions_view (state w') = (sessions_view (state w))((se_agentId s, se_workspaceId s) \<mapsto> s)"
      using assms(3) 2(2) by (auto simp: sessions_view_def find_key_append fun_eq_iff split: option.split)
    ultimately show ?thesis by blast
  qed (use assms(2) in simp)
  then show "sessions_unique (state w')" "state w' = state w \<or> sessions_view (state w') =
       (sessions_view (state w))((se_agentId s, se_workspaceId s) \<mapsto> s)" by blast+
qed

text \<open>
  A heartbeat of trimmed ids. What is stored and returned is what \<open>applySessionHeartbeat\<close> makes
  of the stored record. If the call throws, the table is as before, except that the insert may
  have happened when the query after it fails.
\<close>

theorem db_heartbeat_effect:
  assumes run: "db_heartbeat failure D now i w = (r, w')" and u: "sessions_unique (state w)"
    and normal: "trim (hb_agentId i) = hb_agentId i" "trim (hb_workspaceId i) = hb_workspaceId i"
  defines "k \<equiv> (hb_agentId i, hb_workspaceId i)"
  shows "sessions_unique (state w')"
    "r = Inr s \<Longrightarrow> applySessionHeartbeat now (sessions_view (state w) k) i = Inr s \<and>
       sessions_view (state w') = (sessions_view (state w))(k \<mapsto> s)"
    "r = Inl e \<Longrightarrow> state w' = state w \<or> (\<exists>s. sessions_view (state w) k = None \<and>
       createSessionFromHeartbeat now i = Inr s \<and>
       sessions_view (state w') = (sessions_view (state w))(k \<mapsto> s))"
proof -
  have goal: "sessions_unique (state w') \<and>
    (\<forall>s. r = Inr s \<longrightarrow> applySessionHeartbeat now (sessions_view (state w) k) i = Inr s \<and>
       sessions_view (state w') = (sessions_view (state w))(k \<mapsto> s)) \<and>
    (\<forall>e. r = Inl e \<longrightarrow> state w' = state w \<or> (\<exists>s. sessions_view (state w) k = None \<and>
       createSessionFromHeartbeat now i = Inr s \<and>
       sessions_view (state w') = (sessions_view (state w))(k \<mapsto> s)))"
  proof (cases "createSessionFromHeartbeat now i")
    case (Inl e)
    with run u show ?thesis by (auto simp: db_heartbeat_def)
  next
    case (Inr n)
    have k: "k = (se_agentId n, se_workspaceId n)"
      using createSession_fields [OF Inr] normal by (simp add: k_def)
    let ?q = "\<lambda>row. sw_lastHeartbeatAt row < se_lastHeartbeatAt n"
    let ?row = "find (\<lambda>r. session_key r = k) (ds_sessions (state w))"
    have key: "session_key (heartbeat_columns n row) = session_key row" for row
      by (simp add: session_key_def heartbeat_columns_def)
    obtain up w1 where up: "db_update (dc_sessions D) (\<lambda>row. session_key row = k \<and> ?q row)
        (heartbeat_columns n) w = (up, w1)" by fastforce
    note e = session_update [OF up u key]
    have existing: "applySessionHeartbeat now (Some (session_of_row row)) i =
        Inr (session_of_row (if ?q row then heartbeat_columns n row else row))" if "?row = Some row" for row
    proof -
      have "session_key row = k" using that by (rule find_key_key)
      then have scope: "sw_agentId row = hb_agentId i" "sw_workspaceId row = hb_workspaceId i"
        by (simp_all add: session_key_def k_def)
      obtain t where t: "(case hb_heartbeatAt i of None \<Rightarrow> At now | Some d \<Rightarrow> d) = At t"
        and n: "n = session_of i t" "trim (hb_sessionId i) \<noteq> []" "trim (hb_runtime i) \<noteq> []"
        using Inr by (auto simp: createSessionFromHeartbeat_def session_of_def normal)
      show ?thesis
        unfolding applySessionHeartbeat_def using t n scope
        by (auto simp: session_of_row_def heartbeat_columns_def session_of_def)
    qed
    show ?thesis
    proof (cases up)
      case (Inl err)
      with run u e(1,2) up Inr k show ?thesis by (auto simp: db_heartbeat_def io_bind_iff by_key)
    next
      case (Inr rs)
      from e(3) [OF Inr] have rs: "rs = (case ?row of None \<Rightarrow> [] | Some r \<Rightarrow> if ?q r then [heartbeat_columns n r] else [])" .
      have find: "find (\<lambda>r. session_key r = j) (ds_sessions (state w1)) = (if j = k
          then map_option (\<lambda>r. if ?q r then heartbeat_columns n r else r) ?row
          else find (\<lambda>r. session_key r = j) (ds_sessions (state w)))" for j
        using e(4) [OF Inr, of j] by simp
      have view1: "sessions_view (state w1) = (case ?row of None \<Rightarrow> sessions_view (state w)
          | Some r \<Rightarrow> (sessions_view (state w))(k \<mapsto> session_of_row (if ?q r then heartbeat_columns n r else r)))"
        by (rule ext) (auto simp: sessions_view_def find split: option.split)
      show ?thesis
      proof (cases rs)
        case (Cons x xs)
        with rs obtain row where row: "?row = Some row" "?q row" "x = heartbeat_columns n row"
          by (auto split: option.split_asm if_split_asm)
        from run up Inr Cons \<open>createSessionFromHeartbeat now i = Inr n\<close> k row(3)
        have "r = Inr (session_of_row (heartbeat_columns n row))" "w' = w1"
          by (auto simp: db_heartbeat_def io_bind_iff by_key)
        with existing [OF row(1)] row e(1) view1 show ?thesis
          by (simp add: sessions_view_def [of "state w" k])
      next
        case Nil
        have s1: "state w1 = state w" using e(5) Inr Nil by simp
        obtain f w2 where f: "db_findSession D (se_agentId n) (se_workspaceId n) w1 = (f, w2)" by fastforce
        note f1 = session_first [OF f, unfolded s1, OF u, folded k]
        have rest: "(r, w') = (case f of Inl e \<Rightarrow> (Inl e, w2) | Inr (Some s) \<Rightarrow> (Inr s, w2)
            | Inr None \<Rightarrow> io_bind (db_insertNew (dc_sessions D) (row_of_session n)) (\<lambda>_.
                io_bind (db_findSession D (se_agentId n) (se_workspaceId n)) (\<lambda>inserted.
                case inserted of Some s \<Rightarrow> io_return s | None \<Rightarrow> io_throw (OtherExn failure))) w2)"
          unfolding run [symmetric] db_heartbeat_def \<open>createSessionFromHeartbeat now i = Inr n\<close> by_key
          by (simp add: io_bind_def [of "db_update _ _ _"] k [symmetric] up Inr Nil io_bind_def [of "db_findSession D _ _"] f
              split: sum.split option.split)
        show ?thesis
        proof (cases "f = Inr None")
          case False
          with rest have r: "w' = w2" "r = (case f of Inl e \<Rightarrow> Inl e | Inr v \<Rightarrow> Inr (the v))"
            by (auto split: sum.split_asm option.split_asm)
          show ?thesis
          proof (cases f)
            case (Inl err)
            with r f1(1) u show ?thesis by simp
          next
            case (Inr v)
            with False obtain s where v: "v = Some s" by auto
            with f1(2) [OF Inr] have view: "sessions_view (state w) k = Some s" by simp
            then obtain row where row: "?row = Some row" "s = session_of_row row"
              by (auto simp: sessions_view_def)
            with rs Nil have "\<not> ?q row" by auto
            with existing [OF row(1)] row(2) view have "applySessionHeartbeat now (sessions_view (state w) k) i = Inr s"
              by simp
            with r Inr v f1(1) u view show ?thesis by (simp add: fun_upd_idem)
          qed
        next
          case True
          from f1(2) [OF True] have none: "sessions_view (state w) k = None" by simp
          have fresh: "applySessionHeartbeat now None i = Inr n"
            using \<open>createSessionFromHeartbeat now i = Inr n\<close> by (simp add: applySessionHeartbeat_def)
          obtain ins w3 where ins: "db_insertNew (dc_sessions D) (row_of_session n) w2 = (ins, w3)" by fastforce
          note i1 = session_insert [OF ins, unfolded f1(1) k [symmetric], OF u none]
          show ?thesis
          proof (cases ins)
            case (Inl err)
            with rest True ins have "r = Inl err" "w' = w3" by (simp_all add: io_bind_def)
            with i1 none \<open>createSessionFromHeartbeat now i = Inr n\<close> show ?thesis by auto
          next
            case (Inr x)
            obtain g w4 where g: "db_findSession D (se_agentId n) (se_workspaceId n) w3 = (g, w4)" by fastforce
            note g1 = session_first [OF g i1(1), folded k]
            from rest True ins Inr g
            have r: "w' = w4" "r = (case g of Inl e \<Rightarrow> Inl e | Inr None \<Rightarrow> Inl (OtherExn failure) | Inr (Some s) \<Rightarrow> Inr s)"
              by (simp_all add: io_bind_def split: sum.splits option.splits)
            have ok: "s = n \<and> sessions_view (state w3) = (sessions_view (state w))(k \<mapsto> n)" if "r = Inr s" for s
            proof -
              from that r(2) have "g = Inr (Some s)" by (auto split: sum.split_asm option.split_asm)
              from g1(2) [OF this] i1(2) none show ?thesis by auto
            qed
            have s': "state w' = state w3" using g1(1) r(1) by simp
            have err: "state w3 = state w \<or> (\<exists>s. sessions_view (state w) k = None \<and>
                createSessionFromHeartbeat now i = Inr s \<and>
                sessions_view (state w3) = (sessions_view (state w))(k \<mapsto> s))"
              using i1(2) none \<open>createSessionFromHeartbeat now i = Inr n\<close> by blast
            show ?thesis
              unfolding s' by (intro conjI allI impI i1(1) err) (use ok fresh none in \<open>simp_all\<close>)
          qed
        qed
      qed
    qed
  qed
  show "sessions_unique (state w')"
    "r = Inr s \<Longrightarrow> applySessionHeartbeat now (sessions_view (state w) k) i = Inr s \<and>
       sessions_view (state w') = (sessions_view (state w))(k \<mapsto> s)"
    "r = Inl e \<Longrightarrow> state w' = state w \<or> (\<exists>s. sessions_view (state w) k = None \<and>
       createSessionFromHeartbeat now i = Inr s \<and>
       sessions_view (state w') = (sessions_view (state w))(k \<mapsto> s))"
    using goal by blast+
qed

end

end
