(* ===== verification/DbThreads.thy ===== *)
theory DbThreads
  imports DbSessions
begin

text \<open>
  The threads, messages, cursors and audit events on the database: \<open>DbThreadStore\<close> of
  \<open>apps/bridge-api/src/thread-store.ts\<close> and \<open>DbAuditStore\<close> of
  \<open>apps/bridge-api/src/audit-store.ts\<close>. The log of a thread is the messages of the thread in
  the order of their numbers; the unique indexes keep the numbers, the ids and the idempotency
  keys of a log apart. The participants of a thread are read without an order, so a thread that
  is read back equals the stored one up to their order.
\<close>

section \<open>The stores\<close>

text \<open>\<open>normalizeMetadata\<close>: only an object is kept.\<close>

definition object_or_undefined :: "json option \<Rightarrow> json option" where
  "object_or_undefined value = (case value of Some (JObject kvs) \<Rightarrow> Some (JObject kvs) | _ \<Rightarrow> None)"

definition message_of_row :: "message_row \<Rightarrow> message" where
  "message_of_row row =
     \<lparr>ms_messageId = mw_messageId row, ms_threadId = mw_threadId row,
      ms_schemaVersion = mw_schemaVersion row, ms_seq = mw_seq row,
      ms_senderAgentId = mw_senderAgentId row, ms_senderSessionId = mw_senderSessionId row,
      ms_kind = mw_kind row, ms_body = mw_body row,
      ms_metadata = object_or_undefined (mw_metadata row), ms_inReplyTo = mw_inReplyTo row,
      ms_idempotencyKey = mw_idempotencyKey row, ms_createdAt = mw_createdAt row\<rparr>"

definition row_of_message :: "message \<Rightarrow> message_row" where
  "row_of_message m =
     \<lparr>mw_messageId = ms_messageId m, mw_threadId = ms_threadId m,
      mw_schemaVersion = ms_schemaVersion m, mw_seq = ms_seq m,
      mw_senderAgentId = ms_senderAgentId m, mw_senderSessionId = ms_senderSessionId m,
      mw_kind = ms_kind m, mw_body = ms_body m, mw_metadata = ms_metadata m,
      mw_inReplyTo = ms_inReplyTo m, mw_idempotencyKey = ms_idempotencyKey m,
      mw_createdAt = ms_createdAt m\<rparr>"

text \<open>\<open>toThreadRecord\<close>.\<close>

definition thread_of_row :: "thread_row \<Rightarrow> string list \<Rightarrow> thread" where
  "thread_of_row row participants =
     \<lparr>th_threadId = tw_threadId row, th_workspaceId = tw_workspaceId row, th_title = tw_title row,
      th_type = tw_type row, th_status = tw_status row, th_participants = participants,
      th_createdAt = tw_createdAt row, th_updatedAt = tw_updatedAt row\<rparr>"

definition row_of_thread :: "thread \<Rightarrow> thread_row" where
  "row_of_thread t =
     \<lparr>tw_threadId = th_threadId t, tw_workspaceId = th_workspaceId t, tw_title = th_title t,
      tw_type = th_type t, tw_status = th_status t, tw_createdAt = th_createdAt t,
      tw_updatedAt = th_updatedAt t\<rparr>"

definition participant_rows :: "thread \<Rightarrow> participant_row list" where
  "participant_rows t =
     map (\<lambda>agentId. \<lparr>pw_threadId = th_threadId t, pw_agentId = agentId, pw_joinedAt = th_createdAt t\<rparr>)
       (th_participants t)"

definition db_createThread :: "'w db_client \<Rightarrow> create_thread_input \<Rightarrow> ('w, exn, thread) io" where
  "db_createThread D input =
     io_bind (io_lift (map_exn DomainExn (createThread 0 (input\<lparr>ct_status := None\<rparr>)))) (\<lambda>thread.
     io_bind (dc_transaction D (
        io_bind (db_insert (dc_threads D) [row_of_thread thread]) (\<lambda>_.
        io_bind (db_insert (dc_participants D) (participant_rows thread)) (\<lambda>_.
        io_return ())))) (\<lambda>_.
     io_return thread))"

definition db_getThreadById :: "'w db_client \<Rightarrow> string \<Rightarrow> ('w, exn, thread option) io" where
  "db_getThreadById D threadId =
     io_bind (findFirst (dc_threads D) (\<lambda>row. tw_threadId row = threadId) AnyOrder) (\<lambda>row.
     case row of
       None \<Rightarrow> io_return None
     | Some r \<Rightarrow>
         io_bind (db_findMany (dc_participants D) (\<lambda>p. pw_threadId p = threadId) AnyOrder None)
           (\<lambda>participantRows.
           io_return (Some (thread_of_row r (map pw_agentId participantRows)))))"

definition db_updateThreadStatus ::
  "'w db_client \<Rightarrow> string \<Rightarrow> thread_status \<Rightarrow> js_date \<Rightarrow> thread_status option \<Rightarrow>
     ('w, exn, thread option) io" where
  "db_updateThreadStatus D threadId nextStatus updatedAt expectedCurrentStatus =
     io_bind (db_getThreadById D threadId) (\<lambda>found.
     case found of
       None \<Rightarrow> io_return None
     | Some current \<Rightarrow>
         io_bind (io_lift (map_exn DomainExn (transitionThreadStatus current nextStatus updatedAt)))
           (\<lambda>updated.
         io_bind (db_update (dc_threads D)
            (\<lambda>row. tw_threadId row = th_threadId updated \<and>
               (case expectedCurrentStatus of None \<Rightarrow> True | Some s \<Rightarrow> tw_status row = s))
            (\<lambda>row. row\<lparr>tw_status := th_status updated, tw_updatedAt := th_updatedAt updated\<rparr>))
           (\<lambda>affected.
         io_return (if length affected = 0 then None else Some updated))))"

definition db_summarizeThread ::
  "'w db_client \<Rightarrow> string \<Rightarrow> int \<Rightarrow> ('w, exn, thread_summary option) io" where
  "db_summarizeThread D threadId maxMessages =
     io_bind (db_getThreadById D threadId) (\<lambda>found.
     case found of
       None \<Rightarrow> io_return None
     | Some current \<Rightarrow>
         io_bind (db_findMany (dc_messages D) (\<lambda>row. mw_threadId row = threadId) (Desc mw_seq)
            (Some maxMessages)) (\<lambda>recentMessages.
         io_return (Some \<lparr>sm_summary = buildThreadSummaryText (th_status current)
              (length recentMessages) maxMessages, sm_openItems = [],
            sm_lastStatus = th_status current\<rparr>)))"

definition db_createMessage :: "'w db_client \<Rightarrow> create_message_input \<Rightarrow> ('w, exn, message) io" where
  "db_createMessage D input =
     io_bind (io_lift (map_exn DomainExn (createMessage 0 input))) (\<lambda>message.
     io_bind (db_insert (dc_messages D) [row_of_message message]) (\<lambda>_.
     io_return message))"

definition db_getLatestMessageSeq :: "'w db_client \<Rightarrow> string \<Rightarrow> ('w, exn, int) io" where
  "db_getLatestMessageSeq D threadId =
     io_bind (findFirst (dc_messages D) (\<lambda>row. mw_threadId row = threadId) (Desc mw_seq)) (\<lambda>latest.
       io_return (case latest of None \<Rightarrow> 0 | Some row \<Rightarrow> mw_seq row))"

definition db_readMessages :: "'w db_client \<Rightarrow> string \<Rightarrow> int \<Rightarrow> int \<Rightarrow> ('w, exn, read_result) io" where
  "db_readMessages D threadId sinceSeq limit =
     io_bind (db_findMany (dc_messages D)
        (\<lambda>row. mw_threadId row = threadId \<and> sinceSeq < mw_seq row) (Asc mw_seq) (Some (limit + 1)))
       (\<lambda>rows.
       let hasMore = limit < int (length rows);
           pageRows = (if hasMore then js_slice0 limit rows else rows);
           records = map message_of_row pageRows
       in io_return \<lparr>rr_messages = records,
            rr_nextSeq = (case js_last records of None \<Rightarrow> sinceSeq | Some m \<Rightarrow> ms_seq m),
            rr_hasMore = hasMore\<rparr>)"

definition db_getMessageById :: "'w db_client \<Rightarrow> string \<Rightarrow> string \<Rightarrow> ('w, exn, message option) io" where
  "db_getMessageById D threadId messageId =
     io_bind (findFirst (dc_messages D)
        (\<lambda>row. mw_threadId row = threadId \<and> mw_messageId row = messageId) AnyOrder) (\<lambda>row.
       io_return (map_option message_of_row row))"

definition db_getMessageByIdempotency ::
  "'w db_client \<Rightarrow> string \<Rightarrow> string \<Rightarrow> string \<Rightarrow> ('w, exn, message option) io" where
  "db_getMessageByIdempotency D threadId senderAgentId idempotencyKey =
     io_bind (findFirst (dc_messages D)
        (\<lambda>row. mw_threadId row = threadId \<and> mw_senderAgentId row = senderAgentId \<and>
           mw_idempotencyKey row = Some idempotencyKey) AnyOrder) (\<lambda>row.
       io_return (map_option message_of_row row))"

definition cursor_of_row :: "cursor_row \<Rightarrow> cursor" where
  "cursor_of_row row =
     \<lparr>cu_threadId = cw_threadId row, cu_agentId = cw_agentId row, cu_lastReadSeq = cw_lastReadSeq row,
      cu_lastAckedMessageId = cw_lastAckedMessageId row, cu_updatedAt = cw_updatedAt row\<rparr>"

definition row_of_cursor :: "cursor \<Rightarrow> cursor_row" where
  "row_of_cursor c =
     \<lparr>cw_threadId = cu_threadId c, cw_agentId = cu_agentId c, cw_lastReadSeq = cu_lastReadSeq c,
      cw_lastAckedMessageId = cu_lastAckedMessageId c, cw_updatedAt = cu_updatedAt c\<rparr>"

definition db_getParticipantCursor :: "'w db_client \<Rightarrow> string \<Rightarrow> string \<Rightarrow> ('w, exn, cursor option) io" where
  "db_getParticipantCursor D threadId agentId =
     io_bind (findFirst (dc_cursors D)
        (\<lambda>row. cw_threadId row = threadId \<and> cw_agentId row = agentId) AnyOrder) (\<lambda>row.
       io_return (map_option cursor_of_row row))"

definition db_upsertParticipantCursor :: "'w db_client \<Rightarrow> cursor \<Rightarrow> ('w, exn, cursor) io" where
  "db_upsertParticipantCursor D cursor =
     io_bind (db_upsert (dc_cursors D) (row_of_cursor cursor)
        (\<lambda>row. row\<lparr>cw_lastReadSeq := cu_lastReadSeq cursor,
           cw_lastAckedMessageId := cu_lastAckedMessageId cursor, cw_updatedAt := cu_updatedAt cursor\<rparr>))
       (\<lambda>_. io_return cursor)"

definition DbThreadStore :: "'w db_client \<Rightarrow> 'w thread_store" where
  "DbThreadStore D =
     \<lparr>ts_createThread = db_createThread D, ts_getThreadById = db_getThreadById D,
      ts_updateThreadStatus = db_updateThreadStatus D, ts_summarizeThread = db_summarizeThread D,
      ts_createMessage = db_createMessage D, ts_getLatestMessageSeq = db_getLatestMessageSeq D,
      ts_readMessages = db_readMessages D, ts_getMessageById = db_getMessageById D,
      ts_getMessageByIdempotency = db_getMessageByIdempotency D,
      ts_getParticipantCursor = db_getParticipantCursor D,
      ts_upsertParticipantCursor = db_upsertParticipantCursor D\<rparr>"

text \<open>The row of an event without a time gets the time of the database, \<open>defaultNow\<close>.\<close>

definition db_writeEvent :: "'w db_client \<Rightarrow> audit_event \<Rightarrow> ('w, exn, unit) io" where
  "db_writeEvent D input = db_insert (dc_audit D) [input]"

definition DbAuditStore :: "'w db_client \<Rightarrow> 'w audit_store" where
  "DbAuditStore D = \<lparr>as_writeEvent = db_writeEvent D\<rparr>"

section \<open>The log of a thread\<close>

definition log_rows :: "db_state \<Rightarrow> string \<Rightarrow> message_row list" where
  "log_rows s tid = sort_key mw_seq (filter (\<lambda>r. mw_threadId r = tid) (ds_messages s))"

definition log_of :: "db_state \<Rightarrow> string \<Rightarrow> message list" where
  "log_of s tid = map message_of_row (log_rows s tid)"

definition messages_unique :: "db_state \<Rightarrow> bool" where
  "messages_unique s \<longleftrightarrow> unique message_clash (ds_messages s)"

lemma message_of_row_simps [simp]:
  "ms_messageId (message_of_row r) = mw_messageId r" "ms_threadId (message_of_row r) = mw_threadId r"
  "ms_seq (message_of_row r) = mw_seq r" "ms_senderAgentId (message_of_row r) = mw_senderAgentId r"
  "ms_idempotencyKey (message_of_row r) = mw_idempotencyKey r"
  by (simp_all add: message_of_row_def)

lemma row_of_message_simps [simp]:
  "mw_messageId (row_of_message m) = ms_messageId m" "mw_threadId (row_of_message m) = ms_threadId m"
  "mw_seq (row_of_message m) = ms_seq m"
  by (simp_all add: row_of_message_def)

lemma message_of_row_inverse: "wf_message m \<Longrightarrow> message_of_row (row_of_message m) = m"
  by (cases m) (auto simp: message_of_row_def row_of_message_def object_or_undefined_def wf_message_def
      split: option.split json.split)

lemma unique_clash: "unique clash rows \<Longrightarrow> x \<in> set rows \<Longrightarrow> y \<in> set rows \<Longrightarrow>
    clash x y \<Longrightarrow> clash y x \<Longrightarrow> x = y"
  by (induction rows) (auto simp: unique_def)

lemma messages_apart:
  assumes "messages_unique s" "x \<in> set (ds_messages s)" "y \<in> set (ds_messages s)"
  shows "mw_messageId x = mw_messageId y \<Longrightarrow> x = y"
    "mw_threadId x = mw_threadId y \<Longrightarrow> mw_seq x = mw_seq y \<Longrightarrow> x = y"
    "mw_threadId x = mw_threadId y \<Longrightarrow> mw_senderAgentId x = mw_senderAgentId y \<Longrightarrow>
      mw_idempotencyKey x = Some k \<Longrightarrow> mw_idempotencyKey y = Some k \<Longrightarrow> x = y"
  using unique_clash [OF assms(1) [unfolded messages_unique_def] assms(2,3)]
  by (simp_all add: message_clash_def)

lemma set_log_rows: "set (log_rows s tid) = {r \<in> set (ds_messages s). mw_threadId r = tid}"
  by (auto simp: log_rows_def)

lemma seq_inj: "messages_unique s \<Longrightarrow> inj_on mw_seq {r \<in> set (ds_messages s). mw_threadId r = tid}"
  by (auto intro!: inj_onI messages_apart(2))

lemma distinct_rows: "messages_unique s \<Longrightarrow> distinct (ds_messages s)"
  unfolding messages_unique_def unique_def distinct_conv_nth sorted_wrt_iff_nth_less
  by (metis linorder_neqE_nat message_clash_def)

text \<open>The numbers of a log go up strictly.\<close>

lemma log_strict:
  assumes "messages_unique s"
  shows "sorted_wrt (<) (map ms_seq (log_of s tid))"
proof -
  have "distinct (map mw_seq (log_rows s tid))"
    using seq_inj [OF assms, of tid] distinct_rows [OF assms]
    by (simp add: distinct_map set_log_rows log_rows_def)
  moreover have "sorted (map mw_seq (log_rows s tid))" by (simp add: log_rows_def)
  ultimately show ?thesis by (simp add: log_of_def strict_sorted_iff comp_def)
qed

text \<open>Two searches that can only find the same element.\<close>

lemma find_same:
  assumes "{x \<in> set xs. p x} = {y \<in> set ys. q y}"
    "\<And>x y. x \<in> set xs \<Longrightarrow> y \<in> set xs \<Longrightarrow> p x \<Longrightarrow> p y \<Longrightarrow> x = y"
  shows "find p xs = find q ys"
proof (cases "find p xs")
  case None
  then have "{y \<in> set ys. q y} = {}" using assms(1) by (auto simp: find_None_iff)
  then have "find q ys = None" by (auto simp: find_None_iff)
  with None show ?thesis by simp
next
  case (Some x)
  then have x: "x \<in> {x \<in> set xs. p x}" by (auto simp: find_Some_iff)
  then obtain y where y: "find q ys = Some y" unfolding assms(1)
    by (cases "find q ys") (auto simp: find_None_iff)
  then have "y \<in> {x \<in> set xs. p x}" unfolding assms(1) by (auto simp: find_Some_iff)
  with assms(2) x Some y show ?thesis by auto
qed

lemma find_only:
  assumes "m \<in> set xs" "p m" "\<And>x. x \<in> set xs \<Longrightarrow> p x \<Longrightarrow> x = m"
  shows "find p xs = Some m"
proof (cases "find p xs")
  case None
  with assms(1,2) show ?thesis by (auto simp: find_None_iff)
next
  case (Some x)
  then have "x \<in> set xs" "p x" by (auto simp: find_Some_iff)
  with Some assms(3) show ?thesis by simp
qed

text \<open>In a log the id and the idempotency key of a sender belong to one message.\<close>

lemma log_apart:
  assumes "messages_unique s" "x \<in> set (log_of s tid)" "y \<in> set (log_of s tid)"
  shows "ms_messageId x = ms_messageId y \<Longrightarrow> x = y"
    "ms_senderAgentId x = ms_senderAgentId y \<Longrightarrow> ms_idempotencyKey x = Some k \<Longrightarrow>
       ms_idempotencyKey y = Some k \<Longrightarrow> x = y"
proof -
  from assms(2) obtain rx where x: "x = message_of_row rx" "rx \<in> set (ds_messages s)" "mw_threadId rx = tid"
    by (auto simp: log_of_def set_log_rows)
  from assms(3) obtain ry where y: "y = message_of_row ry" "ry \<in> set (ds_messages s)" "mw_threadId ry = tid"
    by (auto simp: log_of_def set_log_rows)
  note apart = messages_apart [OF assms(1) x(2) y(2)]
  show "x = y" if "ms_messageId x = ms_messageId y"
    using apart(1) that by (simp add: x(1) y(1))
  show "x = y" if "ms_senderAgentId x = ms_senderAgentId y" "ms_idempotencyKey x = Some k" "ms_idempotencyKey y = Some k"
    using apart(3) that by (simp add: x y)
qed

lemma find_map: "find q (map f xs) = map_option f (find (\<lambda>x. q (f x)) xs)"
  by (induction xs) auto

lemma find_in_log:
  assumes "messages_unique s"
  shows "map_option message_of_row (find (\<lambda>r. mw_threadId r = tid \<and> mw_messageId r = mid) (ds_messages s)) =
      find (\<lambda>m. ms_messageId m = mid) (log_of s tid)"
    "map_option message_of_row (find (\<lambda>r. mw_threadId r = tid \<and> mw_senderAgentId r = a \<and>
        mw_idempotencyKey r = Some k) (ds_messages s)) =
      find (\<lambda>m. ms_senderAgentId m = a \<and> ms_idempotencyKey m = Some k) (log_of s tid)"
proof -
  have "find (\<lambda>r. mw_threadId r = tid \<and> mw_messageId r = mid) (ds_messages s) =
      find (\<lambda>r. mw_messageId r = mid) (log_rows s tid)"
    by (rule find_same) (use messages_apart(1) [OF assms] in \<open>auto simp: set_log_rows\<close>)
  then show "map_option message_of_row (find (\<lambda>r. mw_threadId r = tid \<and> mw_messageId r = mid) (ds_messages s)) =
      find (\<lambda>m. ms_messageId m = mid) (log_of s tid)" by (simp add: log_of_def find_map)
  have "find (\<lambda>r. mw_threadId r = tid \<and> mw_senderAgentId r = a \<and> mw_idempotencyKey r = Some k) (ds_messages s) =
      find (\<lambda>r. mw_senderAgentId r = a \<and> mw_idempotencyKey r = Some k) (log_rows s tid)"
    by (rule find_same) (use messages_apart(3) [OF assms] in \<open>auto simp: set_log_rows\<close>)
  then show "map_option message_of_row (find (\<lambda>r. mw_threadId r = tid \<and> mw_senderAgentId r = a \<and>
        mw_idempotencyKey r = Some k) (ds_messages s)) =
      find (\<lambda>m. ms_senderAgentId m = a \<and> ms_idempotencyKey m = Some k) (log_of s tid)"
    by (simp add: log_of_def find_map)
qed

lemma log_snoc:
  assumes "messages_unique s" "\<forall>m\<in>set (log_of s (mw_threadId r)). ms_seq m < mw_seq r"
  shows "log_of (s\<lparr>ds_messages := ds_messages s @ [r]\<rparr>) =
    (log_of s)(mw_threadId r := log_of s (mw_threadId r) @ [message_of_row r])"
proof -
  let ?rs = "filter (\<lambda>x. mw_threadId x = mw_threadId r) (ds_messages s)"
  have top: "\<forall>x\<in>set ?rs. mw_seq x < mw_seq r" using assms(2) by (auto simp: log_of_def set_log_rows)
  have "sort_key mw_seq (?rs @ [r]) = sort_key mw_seq ?rs @ [r]"
  proof (rule sort_key_inj_key_eq)
    have "mw_seq r \<noteq> mw_seq x" if "x \<in> set ?rs" for x using bspec [OF top that] by simp
    then have "mw_seq r \<notin> mw_seq ` (set ?rs - {r})" by blast
    with seq_inj [OF assms(1), of "mw_threadId r"] have "inj_on mw_seq (insert r (set ?rs))"
      unfolding inj_on_insert set_filter by blast
    then show "inj_on mw_seq (set (?rs @ [r]))" by simp
    show "sorted (map mw_seq (sort_key mw_seq ?rs @ [r]))"
      using top by (auto simp: sorted_append intro: less_imp_le)
  qed simp
  then show ?thesis by (auto simp: log_of_def log_rows_def fun_eq_iff)
qed

context database
begin

text \<open>
  A message that is stored is fresh: its id, its number and its idempotency key are those of no
  message of the log. With the next number it is appended.
\<close>

lemma createMessage_effect:
  assumes run: "db_createMessage D i w = (r, w')" and u: "messages_unique (state w)"
  shows "r = Inl e \<Longrightarrow> state w' = state w"
    "r = Inr m \<Longrightarrow> createMessage 0 i = Inr m \<and> messages_unique (state w') \<and>
       state w' = (state w)\<lparr>ds_messages := ds_messages (state w) @ [row_of_message m]\<rparr> \<and>
       (\<forall>x\<in>set (log_of (state w) (ms_threadId m)). ms_seq x \<noteq> ms_seq m \<and> ms_messageId x \<noteq> ms_messageId m \<and>
          (ms_senderAgentId x = ms_senderAgentId m \<longrightarrow> ms_idempotencyKey m \<noteq> None \<longrightarrow>
             ms_idempotencyKey x \<noteq> ms_idempotencyKey m))"
proof -
  show "state w' = state w" if "r = Inl e"
  proof (cases "createMessage 0 i")
    case (Inr m)
    with run that have "db_insert (dc_messages D) [row_of_message m] w = (Inl e, w')"
      by (simp add: db_createMessage_def io_bind_iff)
    then show ?thesis by (rule messages.insert_fail)
  qed (use run in \<open>simp add: db_createMessage_def\<close>)
  assume "r = Inr m"
  with run obtain x where c: "createMessage 0 i = Inr m"
    and ins: "db_insert (dc_messages D) [row_of_message m] w = (Inr x, w')"
    by (auto simp: db_createMessage_def)
  from messages.insert_ok [OF ins] u
  have s: "state w' = (state w)\<lparr>ds_messages := ds_messages (state w) @ [row_of_message m]\<rparr>"
    "messages_unique (state w')" by (simp_all add: messages_unique_def)
  have "\<forall>x\<in>set (ds_messages (state w)). \<not> message_clash x (row_of_message m)"
    using s by (simp add: messages_unique_def unique_def sorted_wrt_append)
  then have "ms_seq x \<noteq> ms_seq m \<and> ms_messageId x \<noteq> ms_messageId m \<and>
      (ms_senderAgentId x = ms_senderAgentId m \<longrightarrow> ms_idempotencyKey m \<noteq> None \<longrightarrow>
         ms_idempotencyKey x \<noteq> ms_idempotencyKey m)" if "x \<in> set (log_of (state w) (ms_threadId m))" for x
    using that by (auto simp: log_of_def set_log_rows message_clash_def row_of_message_def message_of_row_def)
  with c s show "createMessage 0 i = Inr m \<and> messages_unique (state w') \<and>
       state w' = (state w)\<lparr>ds_messages := ds_messages (state w) @ [row_of_message m]\<rparr> \<and>
       (\<forall>x\<in>set (log_of (state w) (ms_threadId m)). ms_seq x \<noteq> ms_seq m \<and> ms_messageId x \<noteq> ms_messageId m \<and>
          (ms_senderAgentId x = ms_senderAgentId m \<longrightarrow> ms_idempotencyKey m \<noteq> None \<longrightarrow>
             ms_idempotencyKey x \<noteq> ms_idempotencyKey m))" by blast
qed

lemma last_seq_log: "messages_unique s \<Longrightarrow> x \<in> set (log_of s tid) \<Longrightarrow> ms_seq x \<le> last_seq (log_of s tid)"
  using log_strict [of s tid]
  by (cases "log_of s tid" rule: rev_cases) (auto simp: sorted_wrt_append intro: less_imp_le)

theorem createMessage_appends:
  assumes "db_createMessage D i w = (Inr m, w')" "messages_unique (state w)"
    "last_seq (log_of (state w) (ms_threadId m)) < ms_seq m"
  shows "log_of (state w') = (log_of (state w))(ms_threadId m := log_of (state w) (ms_threadId m) @ [m])"
proof -
  from createMessage_effect(2) [OF assms(1,2) refl]
  have c: "createMessage 0 i = Inr m"
    and s: "state w' = (state w)\<lparr>ds_messages := ds_messages (state w) @ [row_of_message m]\<rparr>" by blast+
  have "\<forall>x\<in>set (log_of (state w) (mw_threadId (row_of_message m))). ms_seq x < mw_seq (row_of_message m)"
    using last_seq_log [OF assms(2)] assms(3) by fastforce
  from log_snoc [OF assms(2) this] show ?thesis
    by (simp add: s message_of_row_inverse [OF createMessage_wf [OF c]])
qed

theorem latestSeq_effect:
  assumes "db_getLatestMessageSeq D tid w = (r, w')" "messages_unique (state w)"
  shows "state w' = state w" "r = Inr n \<Longrightarrow> n = last_seq (log_of (state w) tid)"
proof -
  from assms(1) obtain f where f: "findFirst (dc_messages D) (\<lambda>row. mw_threadId row = tid) (Desc mw_seq) w = (f, w')"
    and r: "r = (case f of Inl e \<Rightarrow> Inl e | Inr x \<Rightarrow> Inr (case x of None \<Rightarrow> 0 | Some row \<Rightarrow> mw_seq row))"
    by (auto simp: db_getLatestMessageSeq_def io_bind_iff)
  show "state w' = state w" by (rule messages.first_ok(1) [OF f])
  assume "r = Inr n"
  with r obtain x where x: "f = Inr x" "n = (case x of None \<Rightarrow> 0 | Some row \<Rightarrow> mw_seq row)"
    by (cases f) auto
  show "n = last_seq (log_of (state w) tid)"
  proof (cases x)
    case None
    with messages.first_ok(2) [OF f] x have "set (log_rows (state w) tid) = {}" by (auto simp: set_log_rows)
    with None x show ?thesis by (simp add: log_of_def)
  next
    case (Some row)
    with messages.first_ok(3,4) [OF f, of row] x
    have row: "row \<in> set (log_rows (state w) tid)" "\<forall>y\<in>set (log_rows (state w) tid). mw_seq y \<le> mw_seq row"
      by (auto simp: set_log_rows)
    then obtain ms m where log: "log_of (state w) tid = ms @ [m]"
      by (cases "log_of (state w) tid" rule: rev_cases) (auto simp: log_of_def)
    have "message_of_row row \<in> set (log_of (state w) tid)" using row by (simp add: log_of_def)
    from last_seq_log [OF assms(2) this] log have "mw_seq row \<le> ms_seq m" by simp
    moreover have "m \<in> message_of_row ` set (log_rows (state w) tid)"
      using log by (metis last_in_set last_snoc list.set_map log_of_def snoc_eq_iff_butlast)
    then have "ms_seq m \<le> mw_seq row" using row(2) by auto
    ultimately show ?thesis using Some x log by simp
  qed
qed

text \<open>A page: the messages after a number, up to the limit, and whether there are more.\<close>

theorem readMessages_effect:
  assumes "db_readMessages D tid since l w = (r, w')" "messages_unique (state w)"
  shows "state w' = state w"
    "r = Inr p \<Longrightarrow> 0 \<le> l \<Longrightarrow> rr_messages p = take (nat l) (filter (\<lambda>m. since < ms_seq m) (log_of (state w) tid)) \<and>
       rr_nextSeq p = (case js_last (rr_messages p) of None \<Rightarrow> since | Some m \<Rightarrow> ms_seq m) \<and>
       rr_hasMore p = (l < int (length (filter (\<lambda>m. since < ms_seq m) (log_of (state w) tid))))"
proof -
  let ?p = "\<lambda>row. mw_threadId row = tid \<and> since < mw_seq row"
  obtain f where f: "db_findMany (dc_messages D) ?p (Asc mw_seq) (Some (l + 1)) w = (f, w')"
    using assms(1) by (auto simp: db_readMessages_def io_bind_iff Let_def)
  show "state w' = state w" using messages.find_ok [OF f] by blast
  assume r: "r = Inr p" and l: "0 \<le> l"
  with assms(1) f obtain rows where rows: "f = Inr rows" and p: "p =
      \<lparr>rr_messages = map message_of_row (if l < int (length rows) then js_slice0 l rows else rows),
       rr_nextSeq = (case js_last (map message_of_row (if l < int (length rows) then js_slice0 l rows else rows))
         of None \<Rightarrow> since | Some m \<Rightarrow> ms_seq m), rr_hasMore = (l < int (length rows))\<rparr>"
    by (auto simp: db_readMessages_def Let_def)
  let ?later = "filter (\<lambda>m. since < ms_seq m) (log_of (state w) tid)"
  have inj: "inj_on mw_seq (set (filter ?p (ds_messages (state w))))"
    by (rule inj_on_subset [OF seq_inj [OF assms(2), of tid]]) auto
  have "selection ?p (Asc mw_seq) (Some (l + 1)) (ds_messages (state w)) rows"
    using messages.find_ok [OF f] rows by simp
  from selection_sorted [OF this inj]
  have "rows = take (nat (l + 1)) (sort_key mw_seq (filter ?p (ds_messages (state w))))"
    by (simp add: limited_def)
  also have "sort_key mw_seq (filter ?p (ds_messages (state w))) =
      filter (\<lambda>r. since < mw_seq r) (log_rows (state w) tid)"
    by (simp add: log_rows_def filter_sort [symmetric] conj_commute)
  finally have "map message_of_row rows = take (nat (l + 1)) ?later"
    by (simp add: log_of_def filter_map comp_def take_map)
  then have m: "map message_of_row rows = take (nat l + 1) ?later" using l by (simp add: nat_add_distrib)
  then have len: "length rows = min (nat l + 1) (length ?later)" by (metis length_map length_take min.commute)
  have "map message_of_row (if l < int (length rows) then js_slice0 l rows else rows) = take (nat l) ?later"
  proof (cases "l < int (length rows)")
    case True
    then show ?thesis using l m by (simp add: js_slice0_def take_map [symmetric])
  next
    case False
    then have "length ?later \<le> nat l" using l len by linarith
    with m False show ?thesis by simp
  qed
  then show "rr_messages p = take (nat l) ?later \<and>
       rr_nextSeq p = (case js_last (rr_messages p) of None \<Rightarrow> since | Some m \<Rightarrow> ms_seq m) \<and>
       rr_hasMore p = (l < int (length ?later))"
    using p len l by auto
qed

lemma message_first:
  assumes "findFirst (dc_messages D) p AnyOrder w = (f, w')"
    "\<And>x y. x \<in> set (ds_messages (state w)) \<Longrightarrow> y \<in> set (ds_messages (state w)) \<Longrightarrow> p x \<Longrightarrow> p y \<Longrightarrow> x = y"
  shows "state w' = state w" "f = Inr found \<Longrightarrow> found = find p (ds_messages (state w))"
proof -
  show "state w' = state w" by (rule messages.first_ok(1) [OF assms(1)])
  assume "f = Inr found"
  with messages.first_key [of p AnyOrder w found w'] assms
  show "found = find p (ds_messages (state w))" by simp
qed

theorem messageById_effect:
  assumes "db_getMessageById D tid mid w = (r, w')" "messages_unique (state w)"
  shows "state w' = state w" "r = Inr m \<Longrightarrow> m = find (\<lambda>m. ms_messageId m = mid) (log_of (state w) tid)"
proof -
  obtain f where f: "findFirst (dc_messages D)
      (\<lambda>row. mw_threadId row = tid \<and> mw_messageId row = mid) AnyOrder w = (f, w')"
    and r: "r = (case f of Inl e \<Rightarrow> Inl e | Inr x \<Rightarrow> Inr (map_option message_of_row x))"
    by (rule io_map_run [OF assms(1) [unfolded db_getMessageById_def]])
  have one: "x = y" if "x \<in> set (ds_messages (state w))" "y \<in> set (ds_messages (state w))"
      "mw_threadId x = tid \<and> mw_messageId x = mid" "mw_threadId y = tid \<and> mw_messageId y = mid" for x y
    using messages_apart(1) [OF assms(2) that(1,2)] that(3,4) by simp
  show "state w' = state w" by (rule message_first(1) [OF f one])
  assume "r = Inr m"
  with r obtain x where x: "f = Inr x" "m = map_option message_of_row x" by (cases f) auto
  have "x = find (\<lambda>row. mw_threadId row = tid \<and> mw_messageId row = mid) (ds_messages (state w))"
    by (rule message_first(2) [OF f one x(1)])
  then show "m = find (\<lambda>m. ms_messageId m = mid) (log_of (state w) tid)"
    unfolding find_in_log(1) [OF assms(2), symmetric] x(2) by (rule arg_cong)
qed

theorem messageByKey_effect:
  assumes "db_getMessageByIdempotency D tid a k w = (r, w')" "messages_unique (state w)"
  shows "state w' = state w" "r = Inr m \<Longrightarrow>
    m = find (\<lambda>m. ms_senderAgentId m = a \<and> ms_idempotencyKey m = Some k) (log_of (state w) tid)"
proof -
  let ?p = "\<lambda>row. mw_threadId row = tid \<and> mw_senderAgentId row = a \<and> mw_idempotencyKey row = Some k"
  obtain f where f: "findFirst (dc_messages D) ?p AnyOrder w = (f, w')"
    and r: "r = (case f of Inl e \<Rightarrow> Inl e | Inr x \<Rightarrow> Inr (map_option message_of_row x))"
    by (rule io_map_run [OF assms(1) [unfolded db_getMessageByIdempotency_def]])
  have one: "x = y" if "x \<in> set (ds_messages (state w))" "y \<in> set (ds_messages (state w))" "?p x" "?p y" for x y
    using messages_apart(3) [OF assms(2) that(1,2), of k] that(3,4) by simp
  show "state w' = state w" by (rule message_first(1) [OF f one])
  assume "r = Inr m"
  with r obtain x where x: "f = Inr x" "m = map_option message_of_row x" by (cases f) auto
  have "x = find ?p (ds_messages (state w))" by (rule message_first(2) [OF f one x(1)])
  then show "m = find (\<lambda>m. ms_senderAgentId m = a \<and> ms_idempotencyKey m = Some k) (log_of (state w) tid)"
    unfolding find_in_log(2) [OF assms(2), symmetric] x(2) by (rule arg_cong)
qed

end

section \<open>Cursors\<close>

definition cursor_key :: "cursor_row \<Rightarrow> string \<times> string" where
  "cursor_key row = (cw_threadId row, cw_agentId row)"

definition cursors_view :: "db_state \<Rightarrow> string \<times> string \<Rightarrow> cursor option" where
  "cursors_view s k = map_option cursor_of_row (find (\<lambda>r. cursor_key r = k) (ds_cursors s))"

definition cursors_unique :: "db_state \<Rightarrow> bool" where
  "cursors_unique s \<longleftrightarrow> unique cursor_clash (ds_cursors s)"

lemma cursors_unique_iff: "cursors_unique s \<longleftrightarrow> distinct (map cursor_key (ds_cursors s))"
  unfolding cursors_unique_def by (rule unique_key) (simp add: cursor_clash_def cursor_key_def)

context database
begin

theorem getCursor_effect:
  assumes "db_getParticipantCursor D tid a w = (r, w')" "cursors_unique (state w)"
  shows "state w' = state w" "r = Inr c \<Longrightarrow> c = cursors_view (state w) (tid, a)"
proof -
  from assms(1) obtain f where f: "findFirst (dc_cursors D) (\<lambda>row. cursor_key row = (tid, a)) AnyOrder w = (f, w')"
    and r: "r = (case f of Inl e \<Rightarrow> Inl e | Inr x \<Rightarrow> Inr (map_option cursor_of_row x))"
    by (auto simp: db_getParticipantCursor_def io_bind_iff cursor_key_def)
  show "state w' = state w" by (rule cursors.first_ok(1) [OF f])
  assume "r = Inr c"
  with r obtain x where x: "f = Inr x" "c = map_option cursor_of_row x" by (cases f) auto
  have "x = find (\<lambda>row. cursor_key row = (tid, a)) (ds_cursors (state w))"
    using cursors.first_key [OF f [unfolded x(1)]] assms(2)
    by (simp add: cursors_unique_iff distinct_map inj_on_def)
  with x(2) show "c = cursors_view (state w) (tid, a)" by (simp add: cursors_view_def)
qed

theorem upsertCursor_effect:
  assumes run: "db_upsertParticipantCursor D c w = (r, w')" and u: "cursors_unique (state w)"
  shows "cursors_unique (state w')" "r = Inl e \<Longrightarrow> state w' = state w"
    "r = Inr c' \<Longrightarrow> c' = c \<and> cursors_view (state w') =
       (cursors_view (state w))((cu_threadId c, cu_agentId c) \<mapsto> c)"
proof -
  let ?k = "(cu_threadId c, cu_agentId c)"
  let ?f = "\<lambda>row. row\<lparr>cw_lastReadSeq := cu_lastReadSeq c,
           cw_lastAckedMessageId := cu_lastAckedMessageId c, cw_updatedAt := cu_updatedAt c\<rparr>"
  have clash: "cursor_clash x (row_of_cursor c) \<longleftrightarrow> cursor_key x = ?k \<and> True" for x
    by (auto simp: cursor_clash_def cursor_key_def row_of_cursor_def)
  obtain x where up: "db_upsert (dc_cursors D) (row_of_cursor c) ?f w = (x, w')"
    and r: "r = (case x of Inl e \<Rightarrow> Inl e | Inr _ \<Rightarrow> Inr c)"
    using run by (auto simp: db_upsertParticipantCursor_def io_bind_iff)
  have fail: "state w' = state w" if "x = Inl e" for e using cursors.upsert_fail up that by metis
  then show "state w' = state w" if "r = Inl e" using that r by (auto split: sum.split_asm)
  have ok: "cursors_unique (state w') \<and> cursors_view (state w') = (cursors_view (state w))(?k \<mapsto> c)"
    if "x = Inr ()"
  proof (cases "\<exists>x\<in>set (ds_cursors (state w)). cursor_key x = ?k")
    case True
    with cursors.upsert_ok [OF up [unfolded that]]
    have s: "ds_cursors (state w') = change (\<lambda>x. cursor_key x = ?k \<and> True) ?f (ds_cursors (state w))"
      by (simp add: clash)
    have "map cursor_key (ds_cursors (state w')) = map cursor_key (ds_cursors (state w))"
      unfolding s by (simp add: change_def cursor_key_def)
    moreover have "cursors_view (state w') i = ((cursors_view (state w))(?k \<mapsto> c)) i" for i
    proof (cases "find (\<lambda>r. cursor_key r = ?k) (ds_cursors (state w))")
      case None
      with True show ?thesis by (auto simp: find_None_iff)
    next
      case (Some row)
      have k: "cursor_key (?f r) = cursor_key r" for r by (simp add: cursor_key_def)
      from find_key_key [OF Some] have "cursor_of_row (?f row) = c"
        by (cases c) (simp add: cursor_of_row_def cursor_key_def)
      with Some show ?thesis
        using find_change [of cursor_key ?f i ?k "\<lambda>_. True" "ds_cursors (state w)", OF k]
        by (simp add: cursors_view_def s)
    qed
    ultimately show ?thesis using u by (simp add: cursors_unique_iff fun_eq_iff)
  next
    case False
    with cursors.upsert_ok [OF up [unfolded that]]
    have s: "ds_cursors (state w') = ds_cursors (state w) @ [row_of_cursor c]" by (auto simp: clash)
    have "cursor_key (row_of_cursor c) = ?k" "cursor_of_row (row_of_cursor c) = c"
      by (simp_all add: cursor_key_def row_of_cursor_def cursor_of_row_def)
    moreover from False have "find (\<lambda>r. cursor_key r = ?k) (ds_cursors (state w)) = None"
      by (simp add: find_None_iff)
    ultimately show ?thesis using False u s
      by (auto simp: cursors_unique_iff cursors_view_def find_key_append fun_eq_iff image_iff
          split: option.split)
  qed
  show "cursors_unique (state w')" using ok fail u by (cases x) auto
  show "c' = c \<and> cursors_view (state w') = (cursors_view (state w))(?k \<mapsto> c)" if "r = Inr c'"
    using that r ok by (auto split: sum.split_asm)
qed

end

section \<open>Threads\<close>

text \<open>
  What the tables say of the threads: one row for each, and every participant belongs to a thread,
  as the foreign key demands.
\<close>

definition threads_wf :: "db_state \<Rightarrow> bool" where
  "threads_wf s \<longleftrightarrow> unique thread_clash (ds_threads s) \<and> unique participant_clash (ds_participants s) \<and>
     (\<forall>p\<in>set (ds_participants s). pw_threadId p \<in> tw_threadId ` set (ds_threads s))"

definition thread_row_at :: "db_state \<Rightarrow> string \<Rightarrow> thread_row option" where
  "thread_row_at s tid = find (\<lambda>r. tw_threadId r = tid) (ds_threads s)"

definition members :: "db_state \<Rightarrow> string \<Rightarrow> string list" where
  "members s tid = map pw_agentId (filter (\<lambda>p. pw_threadId p = tid) (ds_participants s))"

text \<open>The thread \<open>t\<close> is stored under \<open>tid\<close>, up to the order of its participants.\<close>

definition stored_thread :: "db_state \<Rightarrow> string \<Rightarrow> thread \<Rightarrow> bool" where
  "stored_thread s tid t \<longleftrightarrow> thread_row_at s tid = Some (row_of_thread t) \<and>
     mset (th_participants t) = mset (members s tid)"

lemma threads_distinct: "threads_wf s \<Longrightarrow> distinct (map tw_threadId (ds_threads s))"
  using unique_key [of thread_clash tw_threadId "ds_threads s"]
  by (simp add: threads_wf_def thread_clash_def)

lemma threads_wf_same_ids:
  assumes "threads_wf s" "map tw_threadId (ds_threads s') = map tw_threadId (ds_threads s)"
    "ds_participants s' = ds_participants s"
  shows "threads_wf s'"
proof -
  have "distinct (map tw_threadId (ds_threads s'))" unfolding assms(2) by (rule threads_distinct [OF assms(1)])
  then show ?thesis
    using assms unique_key [of thread_clash tw_threadId]
    by (simp add: threads_wf_def thread_clash_def) (metis list.set_map)
qed

lemma thread_row_inverse [simp]: "row_of_thread (thread_of_row r ps) = r"
  "th_participants (thread_of_row r ps) = ps" "thread_of_row (row_of_thread t) (th_participants t) = t"
  by (simp_all add: row_of_thread_def thread_of_row_def)

lemma thread_row_id [simp]: "tw_threadId (row_of_thread t) = th_threadId t"
  by (simp add: row_of_thread_def)

lemma stored_thread_id: "stored_thread s tid t \<Longrightarrow> th_threadId t = tid"
  by (auto simp: stored_thread_def thread_row_at_def dest: find_key_key)

context database
begin

theorem getThread_effect:
  assumes run: "db_getThreadById D tid w = (r, w')" and wf: "threads_wf (state w)"
  shows "state w' = state w" "r = Inr None \<Longrightarrow> thread_row_at (state w) tid = None"
    "r = Inr (Some t) \<Longrightarrow> stored_thread (state w) tid t"
proof -
  obtain f w1 where f: "findFirst (dc_threads D) (\<lambda>row. tw_threadId row = tid) AnyOrder w = (f, w1)" by fastforce
  have s1: "state w1 = state w" by (rule threads.first_ok(1) [OF f])
  have row: "x = thread_row_at (state w) tid" if "f = Inr x" for x
    using threads.first_key [OF f [unfolded that]] threads_distinct [OF wf]
    by (simp add: thread_row_at_def distinct_map inj_on_def)
  obtain g w2 where g: "db_findMany (dc_participants D) (\<lambda>p. pw_threadId p = tid) AnyOrder None w1 = (g, w2)"
    by fastforce
  have s2: "state w2 = state w" using participants.find_ok [OF g] s1 by simp
  have r: "(r, w') = (case f of Inl e \<Rightarrow> (Inl e, w1) | Inr None \<Rightarrow> (Inr None, w1)
      | Inr (Some x) \<Rightarrow> (case g of Inl e \<Rightarrow> (Inl e, w2)
          | Inr ps \<Rightarrow> (Inr (Some (thread_of_row x (map pw_agentId ps))), w2)))"
    unfolding run [symmetric] db_getThreadById_def io_bind_def f prod.case
    by (cases f) (simp_all add: io_bind_def g split: option.split sum.split)
  show "state w' = state w"
    using r s1 s2 by (auto split: sum.split_asm option.split_asm)
  show "thread_row_at (state w) tid = None" if "r = Inr None"
    using r that row by (auto split: sum.split_asm option.split_asm)
  assume "r = Inr (Some t)"
  with r obtain x ps where x: "f = Inr (Some x)" "g = Inr ps" "t = thread_of_row x (map pw_agentId ps)"
    by (auto split: sum.split_asm option.split_asm)
  from participants.find_all(2) [OF g [unfolded x(2)]] s1
  have "mset (map pw_agentId ps) = mset (members (state w) tid)" by (simp add: members_def)
  with x row show "stored_thread (state w) tid t" by (simp add: stored_thread_def)
qed

lemma createThread_rows:
  assumes run: "db_createThread D i w = (Inr t, w')" and wf: "threads_wf (state w)"
  shows "createThread 0 (i\<lparr>ct_status := None\<rparr>) = Inr t"
    "state w' = (state w)\<lparr>ds_threads := ds_threads (state w) @ [row_of_thread t],
       ds_participants := ds_participants (state w) @ participant_rows t\<rparr>"
    "thread_row_at (state w) (th_threadId t) = None" "threads_wf (state w')"
proof -
  let ?m = "io_bind (db_insert (dc_threads D) [row_of_thread t]) (\<lambda>_.
        io_bind (db_insert (dc_participants D) (participant_rows t)) (\<lambda>_. io_return ()))"
  from run show "createThread 0 (i\<lparr>ct_status := None\<rparr>) = Inr t" by (auto simp: db_createThread_def)
  from run have "dc_transaction D ?m w = (Inr (), w')" by (auto simp: db_createThread_def)
  from tx.commit [OF this] obtain u u1 u2 where u: "state u = state w"
    "db_insert (dc_threads D) [row_of_thread t] u = (Inr (), u1)"
    "db_insert (dc_participants D) (participant_rows t) u1 = (Inr (), u2)" "state w' = state u2" by auto
  have t: "state u1 = (state w)\<lparr>ds_threads := ds_threads (state w) @ [row_of_thread t]\<rparr>"
    "unique thread_clash (ds_threads (state w) @ [row_of_thread t])"
    using threads.insert_ok [OF u(2)] u(1) wf by (simp_all add: threads_wf_def)
  have p: "state w' = (state u1)\<lparr>ds_participants := ds_participants (state w) @ participant_rows t\<rparr>"
    "unique participant_clash (ds_participants (state w) @ participant_rows t)"
    using participants.insert_ok [OF u(3)] u(4) t(1) wf by (simp_all add: threads_wf_def)
  show "state w' = (state w)\<lparr>ds_threads := ds_threads (state w) @ [row_of_thread t],
       ds_participants := ds_participants (state w) @ participant_rows t\<rparr>"
    by (simp add: p(1) t(1))
  show "thread_row_at (state w) (th_threadId t) = None"
    using t(2) by (auto simp: thread_row_at_def find_None_iff unique_def sorted_wrt_append thread_clash_def)
  show "threads_wf (state w')"
    using wf t(2) p(2) by (auto simp: threads_wf_def p(1) t(1) participant_rows_def)
qed

text \<open>A thread that is created was not there before, and is stored with its participants.\<close>

theorem createThread_effect:
  assumes run: "db_createThread D i w = (r, w')" and wf: "threads_wf (state w)"
  shows "r = Inl e \<Longrightarrow> state w' = state w"
    "r = Inr t \<Longrightarrow> createThread 0 (i\<lparr>ct_status := None\<rparr>) = Inr t \<and> threads_wf (state w') \<and>
       thread_row_at (state w) (th_threadId t) = None \<and> stored_thread (state w') (th_threadId t) t \<and>
       (\<forall>tid t'. tid \<noteq> th_threadId t \<longrightarrow> stored_thread (state w') tid t' = stored_thread (state w) tid t')"
proof -
  let ?m = "\<lambda>t. io_bind (db_insert (dc_threads D) [row_of_thread t]) (\<lambda>_.
        io_bind (db_insert (dc_participants D) (participant_rows t)) (\<lambda>_. io_return ()))"
  show "state w' = state w" if "r = Inl e"
  proof (cases "createThread 0 (i\<lparr>ct_status := None\<rparr>)")
    case (Inr t)
    with run that have "dc_transaction D (?m t) w = (Inl e, w')"
      by (simp add: db_createThread_def io_bind_iff)
    then show ?thesis by (rule tx.rollback)
  qed (use run in \<open>simp add: db_createThread_def\<close>)
  assume "r = Inr t"
  note rows = createThread_rows [OF run [unfolded this] wf]
  have none: "filter (\<lambda>p. pw_threadId p = th_threadId t) (ds_participants (state w)) = []"
    using wf rows(3) by (auto simp: threads_wf_def thread_row_at_def find_None_iff filter_empty_conv)
  have "stored_thread (state w') (th_threadId t) t"
    using rows(3) none
    by (simp add: stored_thread_def thread_row_at_def find_key_append rows(2) members_def
        participant_rows_def comp_def)
  moreover have "stored_thread (state w') tid t' = stored_thread (state w) tid t'" if "tid \<noteq> th_threadId t" for tid t'
    using that by (simp add: stored_thread_def thread_row_at_def find_key_append rows(2) members_def
        participant_rows_def split: option.split)
  ultimately show "createThread 0 (i\<lparr>ct_status := None\<rparr>) = Inr t \<and> threads_wf (state w') \<and>
       thread_row_at (state w) (th_threadId t) = None \<and> stored_thread (state w') (th_threadId t) t \<and>
       (\<forall>tid t'. tid \<noteq> th_threadId t \<longrightarrow> stored_thread (state w') tid t' = stored_thread (state w) tid t')"
    using rows(1,3,4) by blast
qed

text \<open>The write of a status change.\<close>

lemma thread_update:
  assumes up: "db_update (dc_threads D) (\<lambda>r. tw_threadId r = tid \<and> q r)
      (\<lambda>r. r\<lparr>tw_status := st, tw_updatedAt := t\<rparr>) w = (u, w')" and wf: "threads_wf (state w)"
    and t0: "stored_thread (state w) tid t0"
  shows "threads_wf (state w')" "u = Inl e \<or> \<not> q (row_of_thread t0) \<Longrightarrow> state w' = state w"
    "u = Inr rs \<Longrightarrow> rs = [] \<longleftrightarrow> \<not> q (row_of_thread t0)"
    "u = Inr rs \<Longrightarrow> q (row_of_thread t0) \<Longrightarrow> stored_thread (state w') tid (t0\<lparr>th_status := st, th_updatedAt := t\<rparr>)"
    "other \<noteq> tid \<Longrightarrow> stored_thread (state w') other t' = stored_thread (state w) other t'"
proof -
  have key: "tw_threadId (r\<lparr>tw_status := st, tw_updatedAt := t\<rparr>) = tw_threadId r" for r :: thread_row by simp
  note ok = threads.update_key [OF up, unfolded table_gets, OF threads_distinct [OF wf] key]
  have row: "find (\<lambda>r. tw_threadId r = tid) (ds_threads (state w)) = Some (row_of_thread t0)"
    using t0 by (simp add: stored_thread_def thread_row_at_def)
  have rest: "ds_participants (state w') = ds_participants (state w)"
    using ok(1,2) by (cases u) simp_all
  show "threads_wf (state w')" by (rule threads_wf_same_ids [OF wf ok(6) rest])
  show "state w' = state w" if "u = Inl e \<or> \<not> q (row_of_thread t0)"
  proof (cases u)
    case (Inr rs)
    with that ok(3) row have "u = Inr []" by simp
    then show ?thesis by (rule ok(5))
  qed (rule ok(1))
  show "rs = [] \<longleftrightarrow> \<not> q (row_of_thread t0)" if "u = Inr rs" using ok(3) [OF that] row by simp
  show "stored_thread (state w') tid (t0\<lparr>th_status := st, th_updatedAt := t\<rparr>)"
    if "u = Inr rs" "q (row_of_thread t0)"
    using ok(4) [OF that(1), of tid] row that(2) t0
    by (simp add: stored_thread_def thread_row_at_def members_def rest row_of_thread_def)
  show "stored_thread (state w') other t' = stored_thread (state w) other t'" if "other \<noteq> tid"
  proof (cases u)
    case (Inr rs)
    from ok(4) [OF Inr, of other] that show ?thesis
      by (simp add: stored_thread_def thread_row_at_def members_def rest)
  qed (simp add: ok(1))
qed

text \<open>
  A status change is an allowed transition of the stored thread. It is written only if the status
  is still the one that the caller expects, and else nothing is written.
\<close>

theorem updateStatus_effect:
  assumes run: "db_updateThreadStatus D tid s d expected w = (r, w')" and wf: "threads_wf (state w)"
  shows "threads_wf (state w')" "r = Inl e \<Longrightarrow> state w' = state w" "r = Inr None \<Longrightarrow> state w' = state w"
    "r = Inr (Some t) \<Longrightarrow> \<exists>t0. stored_thread (state w) tid t0 \<and> transitionThreadStatus t0 s d = Inr t \<and>
       (\<forall>x. expected = Some x \<longrightarrow> th_status t0 = x) \<and> stored_thread (state w') tid t \<and>
       (\<forall>other t'. other \<noteq> tid \<longrightarrow> stored_thread (state w') other t' = stored_thread (state w) other t')"
proof -
  obtain f w1 where f: "db_getThreadById D tid w = (f, w1)" by fastforce
  note get = getThread_effect [OF f wf]
  have "threads_wf (state w') \<and> (case r of Inr (Some t) \<Rightarrow> (\<exists>t0. stored_thread (state w) tid t0 \<and>
       transitionThreadStatus t0 s d = Inr t \<and> (\<forall>x. expected = Some x \<longrightarrow> th_status t0 = x) \<and>
       stored_thread (state w') tid t \<and>
       (\<forall>other t'. other \<noteq> tid \<longrightarrow> stored_thread (state w') other t' = stored_thread (state w) other t'))
     | _ \<Rightarrow> state w' = state w)"
  proof (cases "\<exists>t0 t. f = Inr (Some t0) \<and> transitionThreadStatus t0 s d = Inr t")
    case False
    with run f have "w' = w1 \<and> (r = Inr None \<or> (\<exists>e. r = Inl e))"
      by (cases f) (auto simp: db_updateThreadStatus_def io_bind_def split: option.splits sum.splits prod.splits)
    with get(1) wf show ?thesis by auto
  next
    case True
    then obtain t0 t where t0: "f = Inr (Some t0)" and t: "transitionThreadStatus t0 s d = Inr t" by blast
    let ?q = "\<lambda>row. case expected of None \<Rightarrow> True | Some s \<Rightarrow> tw_status row = s"
    have stored: "stored_thread (state w) tid t0" by (rule get(3) [OF t0])
    have frame: "th_threadId t = tid" "t = t0\<lparr>th_status := th_status t, th_updatedAt := th_updatedAt t\<rparr>"
      using transition_frame [OF t] stored_thread_id [OF stored] by simp_all
    obtain u w2 where u: "db_update (dc_threads D) (\<lambda>row. tw_threadId row = tid \<and> ?q row)
        (\<lambda>row. row\<lparr>tw_status := th_status t, tw_updatedAt := th_updatedAt t\<rparr>) w1 = (u, w2)" by fastforce
    note up = thread_update [OF u, unfolded get(1), OF wf stored]
    have r: "(r, w') = (case u of Inl e \<Rightarrow> (Inl e, w2) | Inr rs \<Rightarrow> (Inr (if rs = [] then None else Some t), w2))"
      unfolding run [symmetric] by (cases u) (simp_all add: db_updateThreadStatus_def io_bind_def f t0 t u frame(1))
    show ?thesis
    proof (cases "\<exists>rs. u = Inr rs \<and> rs \<noteq> []")
      case False
      with r have "w' = w2" "r = Inr None \<or> (\<exists>e. r = Inl e)" by (auto split: sum.split_asm)
      moreover have "state w2 = state w" using False up(2,3) by (cases u) auto
      ultimately show ?thesis using wf by auto
    next
      case True
      then obtain rs where rs: "u = Inr rs" "rs \<noteq> []" by blast
      with r have "w' = w2" "r = Inr (Some t)" by simp_all
      moreover have q: "?q (row_of_thread t0)" using up(3) [OF rs(1)] rs(2) by simp
      then have "\<forall>x. expected = Some x \<longrightarrow> th_status t0 = x" by (auto simp: row_of_thread_def)
      moreover have "stored_thread (state w2) tid t" using up(4) [OF rs(1) q] frame(2) by simp
      ultimately show ?thesis using up(1,5) stored t by auto
    qed
  qed
  then show "threads_wf (state w')" "r = Inl e \<Longrightarrow> state w' = state w" "r = Inr None \<Longrightarrow> state w' = state w"
    "r = Inr (Some t) \<Longrightarrow> \<exists>t0. stored_thread (state w) tid t0 \<and> transitionThreadStatus t0 s d = Inr t \<and>
       (\<forall>x. expected = Some x \<longrightarrow> th_status t0 = x) \<and> stored_thread (state w') tid t \<and>
       (\<forall>other t'. other \<noteq> tid \<longrightarrow> stored_thread (state w') other t' = stored_thread (state w) other t')"
    by simp_all
qed

end

end
