(* ===== verification/DbUnread.thy ===== *)
theory DbUnread
  imports DbThreads UnreadReconciliation
begin

text \<open>
  The snapshots of the participants that the reconciliation of unread messages works on, read
  from five tables (\<open>DbUnreadReconciliationSnapshotStore\<close> of
  \<open>apps/supervisor-worker/src/unread-reconciliation.ts\<close>). The queries are separate statements
  and their results are joined by the code; the theorem says what the join gives.
\<close>

section \<open>The store\<close>

text \<open>The latest number of each thread, one query for each.\<close>

fun db_latest_seqs :: "'w db_client \<Rightarrow> string list \<Rightarrow> ('w, exn, (string \<times> int) list) io" where
  "db_latest_seqs D [] = io_return []"
| "db_latest_seqs D (threadId # rest) =
     io_bind (findFirst (dc_messages D) (\<lambda>row. mw_threadId row = threadId) (Desc mw_seq)) (\<lambda>latest.
     io_bind (db_latest_seqs D rest) (\<lambda>entries.
       io_return ((threadId, case latest of None \<Rightarrow> 0 | Some row \<Rightarrow> mw_seq row) # entries)))"

definition snapshot_of_session :: "session_row \<Rightarrow> session_snapshot" where
  "snapshot_of_session row =
     \<lparr>sn_sessionId = sw_sessionId row, sn_managementMode = sw_managementMode row,
      sn_resumable = sw_resumable row, sn_status = sw_status row,
      sn_lastHeartbeatAt = sw_lastHeartbeatAt row\<rparr>"

text \<open>The loop over the participants; one whose thread was not read is left out.\<close>

definition join_snapshots ::
  "(string, thread_row) js_map \<Rightarrow> (string, int) js_map \<Rightarrow> (string, int) js_map \<Rightarrow>
     (string, session_row) js_map \<Rightarrow> participant_row list \<Rightarrow> unread_snapshot list" where
  "join_snapshots threadById latestSeqByThread cursorByKey sessionByAgent participants =
     List.map_filter (\<lambda>participant.
       case js_get threadById (pw_threadId participant) of
         None \<Rightarrow> None
       | Some thread \<Rightarrow> Some
           \<lparr>up_threadId = pw_threadId participant, up_workspaceId = tw_workspaceId thread,
            up_threadStatus = tw_status thread, up_participantAgentId = pw_agentId participant,
            up_latestSeq =
              (case js_get latestSeqByThread (pw_threadId participant) of None \<Rightarrow> 0 | Some n \<Rightarrow> n),
            up_lastReadSeq =
              (case js_get cursorByKey
                 (reconciliationStateKey (pw_threadId participant) (pw_agentId participant)) of
                 None \<Rightarrow> 0 | Some n \<Rightarrow> n),
            up_session = map_option snapshot_of_session
              (js_get sessionByAgent (pw_agentId participant))\<rparr>) participants"

text \<open>The queries that follow those for the threads and their participants.\<close>

definition db_join_participants ::
  "'w db_client \<Rightarrow> string \<Rightarrow> thread_row list \<Rightarrow> participant_row list \<Rightarrow> ('w, exn, unread_snapshot list) io"
where
  "db_join_participants D workspaceId threadRows participants =
     (let threadIds = map tw_threadId threadRows;
          threadById = js_map_of (map (\<lambda>row. (tw_threadId row, row)) threadRows)
      in io_bind (db_latest_seqs D threadIds) (\<lambda>latestSeqEntries.
         io_bind (db_findMany (dc_cursors D) (\<lambda>row. cw_threadId row \<in> set threadIds) AnyOrder None)
           (\<lambda>cursorRows.
         let cursorByKey = js_map_of (map (\<lambda>row.
               (reconciliationStateKey (cw_threadId row) (cw_agentId row), cw_lastReadSeq row)) cursorRows);
             participantIds = rev (remdups (rev (map pw_agentId participants)))
         in io_bind
              (if length participantIds = 0 then io_return []
               else db_findMany (dc_sessions D)
                 (\<lambda>row. sw_workspaceId row = workspaceId \<and> sw_agentId row \<in> set participantIds)
                 AnyOrder None) (\<lambda>sessions.
            let sessionByAgent = js_map_of (map (\<lambda>row. (sw_agentId row, row)) sessions)
            in io_return (join_snapshots threadById (js_map_of latestSeqEntries) cursorByKey
                 sessionByAgent participants)))))"

definition db_listParticipantSnapshots :: "'w db_client \<Rightarrow> 'w snapshot_store" where
  "db_listParticipantSnapshots D workspaceId includeClosedThreads =
     io_bind (db_findMany (dc_threads D)
        (\<lambda>row. tw_workspaceId row = workspaceId \<and> (includeClosedThreads \<or> tw_status row \<noteq> Closed))
        AnyOrder None) (\<lambda>threadRows.
     if length threadRows = 0 then io_return []
     else
       io_bind (db_findMany (dc_participants D)
          (\<lambda>row. pw_threadId row \<in> set (map tw_threadId threadRows)) AnyOrder None) (\<lambda>participants.
       if length participants = 0 then io_return []
       else db_join_participants D workspaceId threadRows participants))"

section \<open>What the join gives\<close>

text \<open>The snapshot of a participant of a thread, from the tables.\<close>

definition snapshot_at :: "db_state \<Rightarrow> string \<Rightarrow> thread_row \<Rightarrow> participant_row \<Rightarrow> unread_snapshot" where
  "snapshot_at s ws thread p =
     \<lparr>up_threadId = pw_threadId p, up_workspaceId = ws, up_threadStatus = tw_status thread,
      up_participantAgentId = pw_agentId p, up_latestSeq = last_seq (log_of s (pw_threadId p)),
      up_lastReadSeq = (case cursors_view s (pw_threadId p, pw_agentId p) of None \<Rightarrow> 0
         | Some c \<Rightarrow> cu_lastReadSeq c),
      up_session = map_option (\<lambda>x. \<lparr>sn_sessionId = se_sessionId x,
          sn_managementMode = se_managementMode x, sn_resumable = se_resumable x,
          sn_status = se_status x, sn_lastHeartbeatAt = se_lastHeartbeatAt x\<rparr>)
        (sessions_view s (pw_agentId p, ws))\<rparr>"

definition tables_wf :: "db_state \<Rightarrow> bool" where
  "tables_wf s \<longleftrightarrow> threads_wf s \<and> messages_unique s \<and> cursors_unique s \<and> sessions_unique s"

definition plain_threads :: "db_state \<Rightarrow> bool" where
  "plain_threads s \<longleftrightarrow> list_all (\<lambda>r. plain_id (tw_threadId r)) (ds_threads s) \<and>
     list_all (\<lambda>r. plain_id (cw_threadId r)) (ds_cursors s)"

text \<open>A map made of the rows of a query, looked up under the key of a row.\<close>

lemma map_of_rows:
  assumes "set rows = {r \<in> set table. p r}"
    "\<And>x y. x \<in> set table \<Longrightarrow> y \<in> set table \<Longrightarrow> p x \<Longrightarrow> p y \<Longrightarrow> key x = k \<Longrightarrow> key y = k \<Longrightarrow> x = y"
    "\<And>x. x \<in> set table \<Longrightarrow> (p x \<and> key x = k) = q x"
  shows "map_of (rev (map (\<lambda>r. (key r, val r)) rows)) k = map_option val (find q table)"
proof -
  have *: "map_of (map (\<lambda>r. (key r, val r)) xs) k = map_option val (find (\<lambda>r. key r = k) xs)" for xs
    by (induction xs) auto
  have "find (\<lambda>r. key r = k) (rev rows) = find q table"
  proof (rule find_same)
    show "{x \<in> set (rev rows). key x = k} = {y \<in> set table. q y}" using assms(1,3) by auto
    show "x = y" if "x \<in> set (rev rows)" "y \<in> set (rev rows)" "key x = k" "key y = k" for x y
      using that assms(1,2) by auto
  qed
  then show ?thesis unfolding rev_map * by simp
qed

lemma map_of_same: "t \<in> set ts \<Longrightarrow> map_of (rev (map (\<lambda>t. (t, f t)) ts)) t = Some (f t)"
  unfolding rev_map by (subst map_of_map_restrict [of f "rev ts", unfolded comp_def]) (simp add: restrict_map_def)

definition open_thread :: "string \<Rightarrow> bool \<Rightarrow> thread_row \<Rightarrow> bool" where
  "open_thread ws incl row \<longleftrightarrow> tw_workspaceId row = ws \<and> (incl \<or> tw_status row \<noteq> Closed)"

text \<open>One snapshot for each participant of each open thread of the workspace.\<close>

definition expected_snapshots :: "db_state \<Rightarrow> string \<Rightarrow> bool \<Rightarrow> unread_snapshot list" where
  "expected_snapshots s ws incl =
     map (\<lambda>p. snapshot_at s ws (the (thread_row_at s (pw_threadId p))) p)
       (filter (\<lambda>p. case thread_row_at s (pw_threadId p) of None \<Rightarrow> False
          | Some row \<Rightarrow> open_thread ws incl row) (ds_participants s))"

text \<open>The lookups of the join.\<close>

lemma join_is_snapshot:
  assumes wf: "tables_wf s" "plain_threads s"
    and threads: "set threadRows = {r \<in> set (ds_threads s). open_thread ws incl r}"
    and p: "p \<in> set (ds_participants s)" "pw_threadId p \<in> tw_threadId ` set threadRows"
    and cursors: "set cursorRows = {r \<in> set (ds_cursors s). cw_threadId r \<in> tw_threadId ` set threadRows}"
    and sessions: "set sessionRows = {r \<in> set (ds_sessions s). sw_workspaceId r = ws \<and> sw_agentId r \<in> agents}"
      "pw_agentId p \<in> agents"
  shows "map_of (rev (map (\<lambda>r. (tw_threadId r, r)) threadRows)) (pw_threadId p) =
      thread_row_at s (pw_threadId p)" (is ?threads)
    "map_of (rev (map (\<lambda>r. (reconciliationStateKey (cw_threadId r) (cw_agentId r), cw_lastReadSeq r)) cursorRows))
        (reconciliationStateKey (pw_threadId p) (pw_agentId p)) =
      map_option cu_lastReadSeq (cursors_view s (pw_threadId p, pw_agentId p))" (is ?cursors)
    "map_of (rev (map (\<lambda>r. (sw_agentId r, r)) sessionRows)) (pw_agentId p) =
      find (\<lambda>r. session_key r = (pw_agentId p, ws)) (ds_sessions s)" (is ?sessions)
    "\<exists>row. thread_row_at s (pw_threadId p) = Some row \<and> open_thread ws incl row"
proof -
  have dt: "distinct (map tw_threadId (ds_threads s))" using wf(1) threads_distinct by (simp add: tables_wf_def)
  have dc: "distinct (map cursor_key (ds_cursors s))"
    using wf(1) by (simp add: tables_wf_def cursors_unique_iff)
  have ds: "distinct (map session_key (ds_sessions s))"
    using wf(1) sessions_distinct by (simp add: tables_wf_def)
  obtain row where row: "row \<in> set (ds_threads s)" "open_thread ws incl row" "pw_threadId p = tw_threadId row"
    using p(2) threads by auto
  then have at: "thread_row_at s (pw_threadId p) = Some row"
    using find_key_mem [OF dt row(1)] by (simp add: thread_row_at_def)
  with row(2) show "\<exists>row. thread_row_at s (pw_threadId p) = Some row \<and> open_thread ws incl row" by blast
  have one: "x = y" if "x \<in> set (ds_threads s)" "y \<in> set (ds_threads s)" "tw_threadId x = tw_threadId y" for x y
    using dt that by (auto simp: distinct_map inj_on_def)
  have "map_of (rev (map (\<lambda>r. (tw_threadId r, id r)) threadRows)) (pw_threadId p) =
      map_option id (find (\<lambda>r. tw_threadId r = pw_threadId p) (ds_threads s))"
    by (rule map_of_rows [OF threads]) (use one row in auto)
  then show ?threads by (simp add: thread_row_at_def option.map_id0)
  have plain: "plain_id (pw_threadId p)" "x \<in> set (ds_cursors s) \<Longrightarrow> plain_id (cw_threadId x)" for x
    using wf(2) row by (auto simp: plain_threads_def list_all_iff)
  have key: "reconciliationStateKey (cw_threadId x) (cw_agentId x) = reconciliationStateKey (pw_threadId p) (pw_agentId p)
      \<longleftrightarrow> cursor_key x = (pw_threadId p, pw_agentId p)" if "x \<in> set (ds_cursors s)" for x
    using joined_key_inj [OF plain(2) [OF that] plain(1)]
    by (auto simp: reconciliationStateKey_def cursor_key_def)
  have "map_of (rev (map (\<lambda>r. (reconciliationStateKey (cw_threadId r) (cw_agentId r), cw_lastReadSeq r)) cursorRows))
        (reconciliationStateKey (pw_threadId p) (pw_agentId p)) =
      map_option cw_lastReadSeq (find (\<lambda>r. cursor_key r = (pw_threadId p, pw_agentId p)) (ds_cursors s))"
  proof (rule map_of_rows [OF cursors])
    show "x = y" if "x \<in> set (ds_cursors s)" "y \<in> set (ds_cursors s)"
        "reconciliationStateKey (cw_threadId x) (cw_agentId x) = reconciliationStateKey (pw_threadId p) (pw_agentId p)"
        "reconciliationStateKey (cw_threadId y) (cw_agentId y) = reconciliationStateKey (pw_threadId p) (pw_agentId p)" for x y
      using key that dc by (auto simp: distinct_map inj_on_def)
    show "(cw_threadId x \<in> tw_threadId ` set threadRows \<and>
        reconciliationStateKey (cw_threadId x) (cw_agentId x) = reconciliationStateKey (pw_threadId p) (pw_agentId p))
        = (cursor_key x = (pw_threadId p, pw_agentId p))" if "x \<in> set (ds_cursors s)" for x
      unfolding key [OF that] using p(2) by (auto simp: cursor_key_def)
  qed
  then show ?cursors by (cases "find (\<lambda>r. cursor_key r = (pw_threadId p, pw_agentId p)) (ds_cursors s)")
      (auto simp: cursors_view_def cursor_of_row_def)
  have "map_of (rev (map (\<lambda>r. (sw_agentId r, id r)) sessionRows)) (pw_agentId p) =
      map_option id (find (\<lambda>r. session_key r = (pw_agentId p, ws)) (ds_sessions s))"
  proof (rule map_of_rows [OF sessions(1)])
    show "x = y" if "x \<in> set (ds_sessions s)" "y \<in> set (ds_sessions s)"
        "sw_workspaceId x = ws \<and> sw_agentId x \<in> agents" "sw_workspaceId y = ws \<and> sw_agentId y \<in> agents"
        "sw_agentId x = pw_agentId p" "sw_agentId y = pw_agentId p" for x y
      using that ds by (auto simp: distinct_map inj_on_def session_key_def)
  qed (use sessions(2) in \<open>auto simp: session_key_def\<close>)
  then show ?sessions by (simp add: option.map_id0)
qed

lemma open_rows:
  assumes "threads_wf s" "set rows = {r \<in> set (ds_threads s). open_thread ws incl r}"
  shows "(case thread_row_at s tid of None \<Rightarrow> False | Some row \<Rightarrow> open_thread ws incl row) \<longleftrightarrow>
    tid \<in> tw_threadId ` set rows"
proof (cases "thread_row_at s tid")
  case None
  then have "\<forall>r\<in>set (ds_threads s). tw_threadId r \<noteq> tid" by (simp add: thread_row_at_def find_None_iff)
  with None assms(2) show ?thesis by auto
next
  case (Some row)
  then have row: "row \<in> set (ds_threads s)" "tw_threadId row = tid"
    by (auto simp: thread_row_at_def find_Some_iff)
  have "inj_on tw_threadId (set (ds_threads s))"
    using threads_distinct [OF assms(1)] by (simp add: distinct_map)
  then have "x = row" if "x \<in> set (ds_threads s)" "tw_threadId x = tid" for x
    using row that by (meson inj_onD)
  with row show ?thesis unfolding Some option.case assms(2) by blast
qed

context database
begin

lemma latest_seqs_effect:
  assumes "db_latest_seqs D ts w = (r, w')" "messages_unique (state w)"
  shows "state w' = state w \<and> (\<forall>es. r = Inr es \<longrightarrow> es = map (\<lambda>t. (t, last_seq (log_of (state w) t))) ts)"
  using assms
proof (induction ts arbitrary: w r w')
  case (Cons t ts)
  obtain f w1 where f: "findFirst (dc_messages D) (\<lambda>row. mw_threadId row = t) (Desc mw_seq) w = (f, w1)" by fastforce
  have s1: "state w1 = state w" by (rule messages.first_ok(1) [OF f])
  have latest: "(case l of None \<Rightarrow> 0 | Some row \<Rightarrow> mw_seq row) = last_seq (log_of (state w) t)" if "f = Inr l" for l
  proof (rule latestSeq_effect(2) [OF _ Cons.prems(2) refl])
    show "db_getLatestMessageSeq D t w = (Inr (case l of None \<Rightarrow> 0 | Some row \<Rightarrow> mw_seq row), w1)"
      by (simp add: db_getLatestMessageSeq_def io_bind_def f that)
  qed
  obtain g w2 where g: "db_latest_seqs D ts w1 = (g, w2)" by fastforce
  have IH: "state w2 = state w" "g = Inr es \<Longrightarrow> es = map (\<lambda>t. (t, last_seq (log_of (state w) t))) ts" for es
    using Cons.IH [OF g, unfolded s1, OF Cons.prems(2)] by blast+
  have run: "(r, w') = (case f of Inl e \<Rightarrow> (Inl e, w1) | Inr latest \<Rightarrow> (case g of Inl e \<Rightarrow> (Inl e, w2)
      | Inr es \<Rightarrow> (Inr ((t, case latest of None \<Rightarrow> 0 | Some row \<Rightarrow> mw_seq row) # es), w2)))"
    unfolding Cons.prems(1) [symmetric] by (cases f; cases g) (simp_all add: io_bind_def f g)
  show ?case
  proof (cases f)
    case (Inr l)
    with run s1 IH(1) show ?thesis using IH(2) latest [OF Inr] by (cases g) simp_all
  qed (use run s1 in simp)
qed auto

definition same_state :: "'w \<Rightarrow> 'w \<Rightarrow> bool" where
  "same_state w w' \<longleftrightarrow> state w' = state w"

lemma same_state_pre: "reflp same_state" "transp same_state"
  by (auto simp: same_state_def reflp_def transp_def)

lemma queries_stay:
  "stays same_state (db_findMany (dc_threads D) p1 o1 m1)"
  "stays same_state (db_findMany (dc_participants D) p2 o2 m2)"
  "stays same_state (db_findMany (dc_messages D) p3 o3 m3)"
  "stays same_state (db_findMany (dc_cursors D) p4 o4 m4)"
  "stays same_state (db_findMany (dc_sessions D) p5 o5 m5)"
  using threads.find_ok participants.find_ok messages.find_ok cursors.find_ok sessions.find_ok
  by (auto simp: stays_def same_state_def)

lemma latest_seqs_stay: "stays same_state (db_latest_seqs D ts)"
  by (induction ts) (simp_all only: db_latest_seqs.simps findFirst_def, (intro preserves queries_stay same_state_pre)+)

lemma join_stays: "stays same_state (db_join_participants D ws ts ps)"
  unfolding db_join_participants_def Let_def
  by (intro preserves queries_stay latest_seqs_stay same_state_pre)

text \<open>The rest of the queries, for the participants of the open threads.\<close>

lemma join_effect:
  assumes run: "db_join_participants D ws threadRows ps w = (Inr snaps, w')"
    and wf: "tables_wf (state w)" "plain_threads (state w)"
    and threads: "set threadRows = {r \<in> set (ds_threads (state w)). open_thread ws incl r}"
    and ps: "\<forall>p\<in>set ps. p \<in> set (ds_participants (state w)) \<and> pw_threadId p \<in> tw_threadId ` set threadRows"
    and some: "ps \<noteq> []"
  shows "snaps = map (\<lambda>p. snapshot_at (state w) ws (the (thread_row_at (state w) (pw_threadId p))) p) ps"
proof -
  let ?s = "state w" and ?agents = "set (map pw_agentId ps)"
  from run some obtain seqs cs ss w1 w2 w3 where
    seqs: "db_latest_seqs D (map tw_threadId threadRows) w = (Inr seqs, w1)"
    and cs: "db_findMany (dc_cursors D) (\<lambda>row. cw_threadId row \<in> set (map tw_threadId threadRows)) AnyOrder None w1 = (Inr cs, w2)"
    and ss: "db_findMany (dc_sessions D) (\<lambda>row. sw_workspaceId row = ws \<and> sw_agentId row \<in> ?agents) AnyOrder None w2 = (Inr ss, w3)"
    and snaps: "snaps = join_snapshots (js_map_of (map (\<lambda>row. (tw_threadId row, row)) threadRows)) (js_map_of seqs)
        (js_map_of (map (\<lambda>row. (reconciliationStateKey (cw_threadId row) (cw_agentId row), cw_lastReadSeq row)) cs))
        (js_map_of (map (\<lambda>row. (sw_agentId row, row)) ss)) ps"
    by (auto simp: db_join_participants_def Let_def)
  have s1: "state w1 = ?s" "seqs = map (\<lambda>t. (t, last_seq (log_of ?s t))) (map tw_threadId threadRows)"
    using latest_seqs_effect [OF seqs] wf(1) by (simp_all add: tables_wf_def)
  have s2: "state w2 = ?s" using cursors.find_all(1) [OF cs] s1(1) by simp
  have cset: "set cs = {r \<in> set (ds_cursors ?s). cw_threadId r \<in> tw_threadId ` set threadRows}"
    using mset_eq_setD [OF cursors.find_all(2) [OF cs]] s1(1) by simp
  have sset: "set ss = {r \<in> set (ds_sessions ?s). sw_workspaceId r = ws \<and> sw_agentId r \<in> ?agents}"
    using mset_eq_setD [OF sessions.find_all(2) [OF ss]] s2 by simp
  have one: "(case js_get (js_map_of (map (\<lambda>row. (tw_threadId row, row)) threadRows)) (pw_threadId p) of
         None \<Rightarrow> None
       | Some thread \<Rightarrow> Some
           \<lparr>up_threadId = pw_threadId p, up_workspaceId = tw_workspaceId thread,
            up_threadStatus = tw_status thread, up_participantAgentId = pw_agentId p,
            up_latestSeq = (case js_get (js_map_of seqs) (pw_threadId p) of None \<Rightarrow> 0 | Some n \<Rightarrow> n),
            up_lastReadSeq = (case js_get (js_map_of (map (\<lambda>row. (reconciliationStateKey (cw_threadId row)
                (cw_agentId row), cw_lastReadSeq row)) cs)) (reconciliationStateKey (pw_threadId p) (pw_agentId p)) of
                 None \<Rightarrow> 0 | Some n \<Rightarrow> n),
            up_session = map_option snapshot_of_session
              (js_get (js_map_of (map (\<lambda>row. (sw_agentId row, row)) ss)) (pw_agentId p))\<rparr>) =
      Some (snapshot_at ?s ws (the (thread_row_at ?s (pw_threadId p))) p)" if "p \<in> set ps" for p
  proof -
    have p: "p \<in> set (ds_participants ?s)" "pw_threadId p \<in> tw_threadId ` set threadRows" "pw_agentId p \<in> ?agents"
      using ps that by auto
    note j = join_is_snapshot [OF wf threads p(1,2) cset sset p(3)]
    have seq: "map_of (rev seqs) (pw_threadId p) = Some (last_seq (log_of ?s (pw_threadId p)))"
      unfolding s1(2) by (rule map_of_same) (use p(2) in auto)
    obtain row where row: "thread_row_at ?s (pw_threadId p) = Some row" "open_thread ws incl row" using j(4) by blast
    show ?thesis
      unfolding js_map_of_get j(1-3) seq row(1)
      using row(2) by (auto simp: snapshot_at_def open_thread_def sessions_view_def snapshot_of_session_def [abs_def]
          session_of_row_def option.map_comp comp_def split: option.split)
  qed
  show ?thesis
    unfolding snaps join_snapshots_def using one by (induction ps) (simp_all add: List.map_filter_simps)
qed

theorem snapshots_effect:
  assumes run: "db_listParticipantSnapshots D ws incl w = (r, w')"
    and wf: "tables_wf (state w)" "plain_threads (state w)"
  shows "state w' = state w" "r = Inr snaps \<Longrightarrow> mset snaps = mset (expected_snapshots (state w) ws incl)"
proof -
  have "stays same_state (db_listParticipantSnapshots D ws incl)"
    unfolding db_listParticipantSnapshots_def by (intro preserves queries_stay join_stays same_state_pre)
  from staysD [OF this run] show "state w' = state w" by (simp add: same_state_def)
  assume "r = Inr snaps"
  with run obtain threadRows w1 where t: "db_findMany (dc_threads D)
      (\<lambda>row. tw_workspaceId row = ws \<and> (incl \<or> tw_status row \<noteq> Closed)) AnyOrder None w = (Inr threadRows, w1)"
    and rest: "(if length threadRows = 0 then io_return [] else
       io_bind (db_findMany (dc_participants D)
          (\<lambda>row. pw_threadId row \<in> set (map tw_threadId threadRows)) AnyOrder None) (\<lambda>participants.
       if length participants = 0 then io_return []
       else db_join_participants D ws threadRows participants)) w1 = (Inr snaps, w')"
    unfolding db_listParticipantSnapshots_def by (simp only: io_bind_Inr_iff) blast
  let ?s = "state w" and ?p = "\<lambda>row. pw_threadId row \<in> set (map tw_threadId threadRows)"
  have s1: "state w1 = ?s" using threads.find_all(1) [OF t] .
  have threadRows: "set threadRows = {r \<in> set (ds_threads ?s). open_thread ws incl r}"
    using mset_eq_setD [OF threads.find_all(2) [OF t]] by (simp add: open_thread_def)
  have expected: "expected_snapshots ?s ws incl =
      map (\<lambda>p. snapshot_at ?s ws (the (thread_row_at ?s (pw_threadId p))) p) (filter ?p (ds_participants ?s))"
    using open_rows [OF _ threadRows] wf(1) by (simp add: expected_snapshots_def tables_wf_def)
  show "mset snaps = mset (expected_snapshots ?s ws incl)"
  proof (cases "threadRows = []")
    case True
    with rest expected show ?thesis by simp
  next
    case False
    with rest obtain ps w2 where ps: "db_findMany (dc_participants D) ?p AnyOrder None w1 = (Inr ps, w2)"
      and join: "(if length ps = 0 then io_return [] else db_join_participants D ws threadRows ps) w2 = (Inr snaps, w')"
      by auto
    have m: "mset ps = mset (filter ?p (ds_participants ?s))" "state w2 = ?s"
      using participants.find_all [OF ps] s1 by simp_all
    have "snaps = map (\<lambda>p. snapshot_at ?s ws (the (thread_row_at ?s (pw_threadId p))) p) ps"
    proof (cases "ps = []")
      case False
      with join have "db_join_participants D ws threadRows ps w2 = (Inr snaps, w')" by simp
      from join_effect [OF this, unfolded m(2), OF wf threadRows _ False] mset_eq_setD [OF m(1)]
      show ?thesis by auto
    qed (use join in simp)
    then show ?thesis unfolding expected by (simp add: m(1))
  qed
qed

end

end
