(* ===== verification/MainWorker.thy ===== *)
theory MainWorker
  imports DbUnread WorkerLoop
begin

text \<open>
  The worker as \<open>apps/supervisor-worker/src/main.ts\<close> wires it: the queue, the registry and the
  snapshots on the database, the numbers already notified in memory, \<open>tmux\<close> and \<open>codex\<close> through
  the command executor. The database client, the executor of commands and the clock are
  parameters; the memory of the objects is cells of the world. The contracts of the components
  hold for this wiring over any client that keeps its contract.
\<close>

section \<open>The wiring\<close>

text \<open>The settings that \<open>main.ts\<close> reads.\<close>

record worker_settings =
  TRIGGER_QUIET_WINDOW_MS :: int
  TRIGGER_RECHECK_MS :: int
  TRIGGER_MAX_DEFER_MS :: int
  TRIGGER_RESUME_MAX_ATTEMPTS :: int
  SESSION_STALE_AFTER_HOURS :: int
  LOOP_MAX_REPEATED_FINDINGS :: int
  TRIGGER_RATE_LIMIT_PER_MINUTE :: int
  LOOP_MAX_TURNS :: int
  WORKSPACE_ID :: string
  WORKER_MAX_PARALLEL_JOBS :: int

record 'w worker_parts =
  wp_db :: "'w db_client"
  wp_run :: "'w command_executor"
  wp_now :: int
  wp_processor :: "('w, processor_state) cell"
  wp_busy :: "('w, busy_map) cell"
  wp_failures :: "('w, failure_map) cell"
  wp_notified :: "('w, notified_map) cell"

definition main_registry :: "'w worker_parts \<Rightarrow> 'w runtime_store" where
  "main_registry W = DbRuntimeRegistryStore (wp_db W) (wp_now W)"

definition main_executor :: "'w worker_parts \<Rightarrow> worker_settings \<Rightarrow> 'w managed_executor" where
  "main_executor W config =
     \<lparr>mx_registry = main_registry W, mx_ptyAdapter = deliver (wp_run W) None,
      mx_safeguards = \<lparr>rsg_quietWindowMs = TRIGGER_QUIET_WINDOW_MS config,
        rsg_recheckMs = TRIGGER_RECHECK_MS config, rsg_maxDeferMs = TRIGGER_MAX_DEFER_MS config\<rparr>,
      mx_lastBusyAt = wp_busy W\<rparr>"

definition main_fallback :: "'w worker_parts \<Rightarrow> worker_settings \<Rightarrow> 'w codex_fallback" where
  "main_fallback W config =
     \<lparr>cx_registry = main_registry W, cx_commandExecutor = wp_run W,
      cx_config = \<lparr>cf_resumeMaxAttempts = TRIGGER_RESUME_MAX_ATTEMPTS config,
        cf_staleAfterHours = js_int (SESSION_STALE_AFTER_HOURS config),
        cf_crashLoopThreshold = LOOP_MAX_REPEATED_FINDINGS config,
        cf_crashLoopWindowMs = 15 * 60 * 1000\<rparr>,
      cx_failures = wp_failures W\<rparr>"

definition main_processor :: "'w worker_parts \<Rightarrow> worker_settings \<Rightarrow> 'w processor" where
  "main_processor W config =
     \<lparr>pd_store = DbTriggerQueueStore (wp_db W),
      pd_executor = managed_execute (main_executor W config),
      pd_fallbackExecutor = codex_execute (main_fallback W config),
      pd_safeguards = \<lparr>sg_deferRecheckMs = TRIGGER_RECHECK_MS config,
        sg_rateLimitPerMinute = TRIGGER_RATE_LIMIT_PER_MINUTE config,
        sg_loopMaxTurns = LOOP_MAX_TURNS config,
        sg_loopMaxRepeatedFindings = LOOP_MAX_REPEATED_FINDINGS config\<rparr>,
      pd_backoffBaseMs = 2000, pd_backoffMaxMs = 60000, pd_state = wp_processor W\<rparr>"

definition main_loop :: "'w worker_parts \<Rightarrow> worker_settings \<Rightarrow> 'w worker_loop" where
  "main_loop W config =
     \<lparr>wl_unread = \<lparr>uv_snapshotStore = db_listParticipantSnapshots (wp_db W),
        uv_stateStore = mem_unread_state (wp_notified W)\<rparr>,
      wl_registry = \<lparr>rg_store = main_registry W, rg_now = io_return (wp_now W)\<rparr>,
      wl_processDueJobs = processDueJobs (main_processor W config)\<rparr>"

text \<open>\<open>runPollingTick\<close> up to the log line.\<close>

definition runPollingTick :: "'w worker_parts \<Rightarrow> worker_settings \<Rightarrow> ('w, exn, worker_tick_result) io" where
  "runPollingTick W config =
     runTick (main_loop W config) (wp_now W)
       \<lparr>wi_workspaceId = WORKSPACE_ID config, wi_staleAfterHours = js_int (SESSION_STALE_AFTER_HOURS config),
        wi_maxJobsPerTick = WORKER_MAX_PARALLEL_JOBS config, wi_tickAt = None\<rparr>"

section \<open>The contracts over any client\<close>

text \<open>Every operation of a table, of a client, respects a preorder on worlds.\<close>

definition table_keeps :: "('w \<Rightarrow> 'w \<Rightarrow> bool) \<Rightarrow> ('w, 'r) db_table \<Rightarrow> bool" where
  "table_keeps R T \<longleftrightarrow> (\<forall>p ord most. stays R (db_findMany T p ord most)) \<and> (\<forall>rs. stays R (db_insert T rs)) \<and>
     (\<forall>r. stays R (db_insertNew T r)) \<and> (\<forall>r f. stays R (db_upsert T r f)) \<and> (\<forall>p f. stays R (db_update T p f))"

definition client_keeps :: "('w \<Rightarrow> 'w \<Rightarrow> bool) \<Rightarrow> 'w db_client \<Rightarrow> bool" where
  "client_keeps R D \<longleftrightarrow> table_keeps R (dc_threads D) \<and> table_keeps R (dc_participants D) \<and>
     table_keeps R (dc_messages D) \<and> table_keeps R (dc_cursors D) \<and> table_keeps R (dc_sessions D) \<and>
     table_keeps R (dc_jobs D) \<and> table_keeps R (dc_attempts D) \<and> table_keeps R (dc_audit D) \<and>
     (\<forall>m. stays R m \<longrightarrow> stays R (dc_transaction D m)) \<and>
     (\<forall>m. stays R m \<longrightarrow> stays R (dc_transactionJob D m))"

text \<open>
  What the wiring relies on besides the client: a command does not write to the database, and the
  memory of the worker is written by its owner only.
\<close>

definition own_memory :: "'w worker_parts \<Rightarrow> 'w \<Rightarrow> 'w \<Rightarrow> bool" where
  "own_memory W w w' \<longleftrightarrow> cell_get (wp_processor W) w' = cell_get (wp_processor W) w \<and>
     cell_get (wp_notified W) w' = cell_get (wp_notified W) w"

locale main_worker = database "wp_db W" state
  for W :: "'w worker_parts" and state :: "'w \<Rightarrow> db_state" +
  assumes run_keeps: "wp_run W c w = (r, w') \<Longrightarrow> state w' = state w \<and> own_memory W w w'"
    and client_apart: "client_keeps (own_memory W) (wp_db W)"
    and processor_apart: "state (cell_put (wp_processor W) p w) = state w"
      "cell_get (wp_notified W) (cell_put (wp_processor W) p w) = cell_get (wp_notified W) w"
    and notified_apart: "state (cell_put (wp_notified W) n w) = state w"
      "cell_get (wp_processor W) (cell_put (wp_notified W) n w) = cell_get (wp_processor W) w"
    and busy_apart: "state (cell_put (wp_busy W) b w) = state w \<and> own_memory W w (cell_put (wp_busy W) b w)"
    and failures_apart: "state (cell_put (wp_failures W) f w) = state w \<and>
      own_memory W w (cell_put (wp_failures W) f w)"
    and cells: "cell_laws (wp_processor W)" "cell_laws (wp_notified W)"
begin

lemma own_pre: "reflp (own_memory W)" "transp (own_memory W)"
  by (auto simp: own_memory_def reflp_def transp_def)

text \<open>The executors write neither to the database nor to the memory of the others.\<close>

definition apart :: "'w \<Rightarrow> 'w \<Rightarrow> bool" where
  "apart w w' \<longleftrightarrow> state w' = state w \<and> own_memory W w w'"

lemma apart_pre: "reflp apart" "transp apart"
  by (auto simp: apart_def own_memory_def reflp_def transp_def)

lemma apartI: "stays same_state m \<Longrightarrow> stays (own_memory W) m \<Longrightarrow> stays apart m"
  by (auto simp: stays_def same_state_def apart_def)

lemma queries_apart:
  "stays apart (db_findMany (dc_threads (wp_db W)) p1 o1 m1)"
  "stays apart (db_findMany (dc_participants (wp_db W)) p2 o2 m2)"
  "stays apart (db_findMany (dc_messages (wp_db W)) p3 o3 m3)"
  "stays apart (db_findMany (dc_cursors (wp_db W)) p4 o4 m4)"
  "stays apart (db_findMany (dc_sessions (wp_db W)) p5 o5 m5)"
  using client_apart by (auto intro!: apartI queries_stay simp: client_keeps_def table_keeps_def)

lemma keeps_run: "stays apart (wp_run W c)"
  by (auto simp: stays_def apart_def dest: run_keeps)

lemma keeps_get: "stays apart (rs_getRuntime (main_registry W) a ws)"
  unfolding main_registry_def DbRuntimeRegistryStore_def runtime_store.simps db_findSession_def findFirst_def
  by (intro preserves queries_apart apart_pre)

sublocale frame: executor_frame apart "main_executor W config" "main_fallback W config" for config
  by unfold_locales
    (simp_all add: apart_pre main_executor_def main_fallback_def keeps_get keeps_run
      stays_deliver [where R = apart, OF apart_pre keeps_run] apart_def busy_apart failures_apart)

lemmas execute_apart = staysD [OF frame.keeps_execute, unfolded apart_def own_memory_def]

lemmas codex_apart = staysD [OF frame.keeps_codex, unfolded apart_def own_memory_def]

text \<open>The processor over the database.\<close>

theorem main_queue_processor:
  "queue_processor (main_processor W config) (\<lambda>w. jobs_view (state w)) (\<lambda>w. jobs_unique (state w))"
proof (rule queue_processor.intro)
  show "trigger_queue_contract (pd_store (main_processor W config)) (\<lambda>w. jobs_view (state w))
      (\<lambda>w. jobs_unique (state w))"
    by (simp add: main_processor_def DbTriggerQueueStore_contract)
  show "queue_processor_axioms (main_processor W config) (\<lambda>w. jobs_view (state w))
      (\<lambda>w. jobs_unique (state w))"
  proof (unfold_locales, unfold main_processor_def processor.simps, goal_cases)
    case (1 w s)
    then show ?case by (simp add: processor_apart)
  next
    case (2 job n t w o' w')
    with execute_apart [OF 2(1)] show ?case by simp
  next
    case (3 job n t w out w')
    then show ?case by (rule managed_ok)
  next
    case (4 job n out t w f w')
    with codex_apart [OF 4(1)] show ?case by simp
  next
    case (5 job n out t w fo w')
    then show ?case by (rule codex_ok)
  qed
qed

lemma own_ops:
  "stays (own_memory W) (db_findMany (dc_jobs (wp_db W)) p ord m)"
  "stays (own_memory W) (db_update (dc_jobs (wp_db W)) p f)"
  "stays (own_memory W) (db_update (dc_threads (wp_db W)) p' f')"
  "stays (own_memory W) (db_update (dc_sessions (wp_db W)) p'' f'')"
  "stays (own_memory W) (db_insert (dc_attempts (wp_db W)) rs)"
  "stays (own_memory W) x \<Longrightarrow> stays (own_memory W) (dc_transactionJob (wp_db W) x)"
  using client_apart by (simp_all add: client_keeps_def table_keeps_def)

lemma claim_loop_apart: "stays (own_memory W) (db_claim_candidates (wp_db W) l t cs claimed)"
proof (induction cs arbitrary: claimed)
  case Nil
  show ?case unfolding db_claim_candidates.simps by (intro preserves own_pre)
next
  case (Cons c cs)
  then show ?case
    unfolding db_claim_candidates.simps by (intro preserves own_pre own_ops) (auto split: list.split)
qed

lemma store_apart:
  "stays (own_memory W) (tq_claimDueJobs (DbTriggerQueueStore (wp_db W)) ws l t)"
  "stays (own_memory W) (tq_recordAttemptAndTransition (DbTriggerQueueStore (wp_db W)) i)"
  "stays (own_memory W) (tq_listDeadLetterJobs (DbTriggerQueueStore (wp_db W)) ws l)"
  "stays (own_memory W) (tq_markThreadBlocked (DbTriggerQueueStore (wp_db W)) th t reason)"
  unfolding DbTriggerQueueStore_def trigger_queue_store.simps db_claimDueJobs_def
    db_recordAttemptAndTransition_def db_listDeadLetterJobs_def db_markThreadBlocked_def
  by (intro preserves own_pre own_ops claim_loop_apart)+

theorem main_guarded_processor:
  "guarded_processor (main_processor W config) (\<lambda>w. jobs_view (state w)) (\<lambda>w. jobs_unique (state w))"
proof (rule guarded_processor.intro [OF main_queue_processor], unfold_locales,
    unfold main_processor_def processor.simps, goal_cases)
  case 1
  show ?case by (rule cells(1))
next
  case (2 job n t w o' w')
  with execute_apart [OF 2] show ?case by simp
next
  case (3 job n out t w f w')
  with codex_apart [OF 3] show ?case by simp
qed (auto dest: staysD [OF store_apart(1)] staysD [OF store_apart(2)] staysD [OF store_apart(3)]
    staysD [OF store_apart(4)] simp: own_memory_def)

end

section \<open>A tick over the database\<close>

text \<open>
  What the worker may write: it sets the columns of jobs, records attempts, and blocks threads
  that are active. The messages, the cursors, the participants and the audit events stay.
\<close>

definition blocked_or_same :: "thread_row \<Rightarrow> thread_row \<Rightarrow> bool" where
  "blocked_or_same r r' \<longleftrightarrow> r' = r \<or>
     tw_status r = Active \<and> (\<exists>t. r' = r\<lparr>tw_status := Blocked, tw_updatedAt := t\<rparr>)"

definition worker_writes :: "db_state \<Rightarrow> db_state \<Rightarrow> bool" where
  "worker_writes s s' \<longleftrightarrow> ds_messages s' = ds_messages s \<and> ds_cursors s' = ds_cursors s \<and>
     ds_participants s' = ds_participants s \<and> ds_audit s' = ds_audit s \<and>
     list_all2 blocked_or_same (ds_threads s) (ds_threads s')"

lemma blocked_or_same_trans: "blocked_or_same r r' \<Longrightarrow> blocked_or_same r' r'' \<Longrightarrow> blocked_or_same r r''"
  by (auto simp: blocked_or_same_def)

lemma worker_writes_refl: "worker_writes s s"
  by (simp add: worker_writes_def blocked_or_same_def list_all2_refl)

lemma worker_writes_trans: "worker_writes s t \<Longrightarrow> worker_writes t u \<Longrightarrow> worker_writes s u"
  unfolding worker_writes_def
  by (elim conjE, intro conjI, simp_all, rule list_all2_trans [OF blocked_or_same_trans])

context main_worker
begin

text \<open>The queue leaves the sessions alone, the reconciliation of the runtimes the jobs.\<close>

definition queue_writes :: "'w \<Rightarrow> 'w \<Rightarrow> bool" where
  "queue_writes w w' \<longleftrightarrow> worker_writes (state w) (state w') \<and> ds_sessions (state w') = ds_sessions (state w) \<and>
     cell_get (wp_notified W) w' = cell_get (wp_notified W) w"

definition session_writes :: "'w \<Rightarrow> 'w \<Rightarrow> bool" where
  "session_writes w w' \<longleftrightarrow> state w' = (state w)\<lparr>ds_sessions := ds_sessions (state w')\<rparr> \<and> own_memory W w w'"

lemma writes_pre:
  "reflp queue_writes" "transp queue_writes" "reflp session_writes" "transp session_writes"
proof -
  show "reflp queue_writes" by (simp add: reflp_def queue_writes_def worker_writes_refl)
  show "transp queue_writes"
    unfolding transp_def queue_writes_def using worker_writes_trans by metis
  show "reflp session_writes" by (simp add: reflp_def session_writes_def own_memory_def)
  show "transp session_writes" unfolding transp_def session_writes_def own_memory_def
    by (metis db_state.surjective db_state.update_convs(5))
qed

lemma apart_queue: "stays apart m \<Longrightarrow> stays queue_writes m"
  unfolding stays_def apart_def own_memory_def queue_writes_def by (metis worker_writes_refl)

lemma writesI:
  assumes "stays (own_memory W) m" "\<And>w r w'. m w = (r, w') \<Longrightarrow> worker_writes (state w) (state w') \<and>
    ds_sessions (state w') = ds_sessions (state w)"
  shows "stays queue_writes m"
  using assms unfolding stays_def queue_writes_def own_memory_def by blast

lemma client_writes:
  "stays queue_writes (db_findMany (dc_jobs (wp_db W)) p ord m)"
  "stays queue_writes (db_update (dc_jobs (wp_db W)) p f)"
  "stays queue_writes (db_update (dc_threads (wp_db W)) (\<lambda>r. tw_threadId r = th \<and> tw_status r = Active)
     (\<lambda>r. r\<lparr>tw_status := Blocked, tw_updatedAt := t\<rparr>))"
  "stays queue_writes (db_insert (dc_attempts (wp_db W)) rs)"
  "stays queue_writes x \<Longrightarrow> stays (own_memory W) x \<Longrightarrow> stays queue_writes (dc_transactionJob (wp_db W) x)"
proof -
  show "stays queue_writes (db_findMany (dc_jobs (wp_db W)) p ord m)"
    by (rule writesI [OF own_ops(1)]) (use jobs.find_ok in \<open>auto simp: worker_writes_refl\<close>)
  have only: "worker_writes s (s\<lparr>ds_jobs := js\<rparr>)" "worker_writes s (s\<lparr>ds_attempts := as\<rparr>)" for s js as
    using worker_writes_refl [of s] by (simp_all add: worker_writes_def)
  show "stays queue_writes (db_update (dc_jobs (wp_db W)) p f)"
  proof (rule writesI [OF own_ops(2)])
    fix w r w' assume "db_update (dc_jobs (wp_db W)) p f w = (r, w')"
    with jobs.update_ok [of p f w _ w'] jobs.update_fail [of p f w _ w']
    show "worker_writes (state w) (state w') \<and> ds_sessions (state w') = ds_sessions (state w)"
      by (cases r) (auto simp: only worker_writes_refl)
  qed
  show "stays queue_writes (db_insert (dc_attempts (wp_db W)) rs)"
  proof (rule writesI [OF own_ops(5)])
    fix w r w' assume "db_insert (dc_attempts (wp_db W)) rs w = (r, w')"
    with attempts.insert_ok [of rs w _ w'] attempts.insert_fail [of rs w _ w']
    show "worker_writes (state w) (state w') \<and> ds_sessions (state w') = ds_sessions (state w)"
      by (cases r) (auto simp: only worker_writes_refl)
  qed
  let ?p = "\<lambda>r. tw_threadId r = th \<and> tw_status r = Active" and ?f = "\<lambda>r. r\<lparr>tw_status := Blocked, tw_updatedAt := t\<rparr>"
  have "worker_writes s (s\<lparr>ds_threads := change ?p ?f (ds_threads s)\<rparr>)" for s
    by (auto simp: worker_writes_def change_def list_all2_map2 blocked_or_same_def intro!: list_all2_refl)
  moreover show "stays queue_writes (db_update (dc_threads (wp_db W)) ?p ?f)"
  proof (rule writesI [OF own_ops(3)])
    fix w r w' assume "db_update (dc_threads (wp_db W)) ?p ?f w = (r, w')"
    with threads.update_ok [of ?p ?f w _ w'] threads.update_fail [of ?p ?f w _ w'] calculation
    show "worker_writes (state w) (state w') \<and> ds_sessions (state w') = ds_sessions (state w)"
      by (cases r) (auto simp: worker_writes_refl)
  qed
  assume x: "stays queue_writes x" "stays (own_memory W) x"
  show "stays queue_writes (dc_transactionJob (wp_db W) x)"
  proof (rule writesI [OF own_ops(6) [OF x(2)]])
    fix w r w' assume run: "dc_transactionJob (wp_db W) x w = (r, w')"
    show "worker_writes (state w) (state w') \<and> ds_sessions (state w') = ds_sessions (state w)"
    proof (cases r)
      case (Inl e)
      with run txJob.rollback show ?thesis by (metis worker_writes_refl)
    next
      case (Inr a)
      from txJob.commit [OF run [unfolded Inr]] obtain u u' where
        "state u = state w" "x u = (Inr a, u')" "state w' = state u'" by blast
      with staysD [OF x(1)] show ?thesis unfolding queue_writes_def by metis
    qed
  qed
qed

lemma claim_loop_writes: "stays queue_writes (db_claim_candidates (wp_db W) l t cs claimed)"
proof (induction cs arbitrary: claimed)
  case Nil
  show ?case unfolding db_claim_candidates.simps by (intro preserves writes_pre)
next
  case (Cons c cs)
  then show ?case
    unfolding db_claim_candidates.simps by (intro preserves writes_pre client_writes) (auto split: list.split)
qed

sublocale writes: processing_frame queue_writes "main_processor W config" for config
proof -
  have rec: "stays queue_writes (db_recordAttemptAndTransition (wp_db W) i)" for i
    unfolding db_recordAttemptAndTransition_def
    by (rule client_writes(5)) (intro preserves writes_pre own_pre own_ops client_writes(1-4))+
  show "processing_frame queue_writes (main_processor W config)"
  proof (unfold_locales, unfold main_processor_def processor.simps DbTriggerQueueStore_def trigger_queue_store.simps)
    show "stays queue_writes (db_claimDueJobs (wp_db W) ws l t)" for ws l t
      unfolding db_claimDueJobs_def by (intro preserves writes_pre client_writes claim_loop_writes)
    show "stays queue_writes (db_listDeadLetterJobs (wp_db W) ws l)" for ws l
      unfolding db_listDeadLetterJobs_def by (intro preserves writes_pre client_writes)
    show "stays queue_writes (db_markThreadBlocked (wp_db W) th t reason)" for th t reason
      unfolding db_markThreadBlocked_def by (intro preserves writes_pre client_writes)
    show "queue_writes w (cell_put (wp_processor W) p w)" for w p
      by (simp add: queue_writes_def processor_apart worker_writes_refl)
  qed (auto simp: writes_pre rec intro!: apart_queue frame.keeps_execute frame.keeps_codex)
qed

text \<open>The poll writes to the notified numbers only, the reconciliation to the sessions only.\<close>

definition poll_writes :: "'w \<Rightarrow> 'w \<Rightarrow> bool" where
  "poll_writes w w' \<longleftrightarrow> state w' = state w \<and>
     cell_get (wp_processor W) w' = cell_get (wp_processor W) w"

lemma poll_pre: "reflp poll_writes" "transp poll_writes"
  by (auto simp: reflp_def transp_def poll_writes_def)

lemma snapshots_apart: "stays apart (db_listParticipantSnapshots (wp_db W) ws incl)"
proof -
  have "stays apart (db_latest_seqs (wp_db W) ts)" for ts
    by (induction ts) (simp_all only: db_latest_seqs.simps findFirst_def, (intro preserves queries_apart apart_pre)+)
  then show ?thesis
    unfolding db_listParticipantSnapshots_def db_join_participants_def Let_def
    by (intro preserves queries_apart apart_pre)
qed

lemma poll_frame: "stays poll_writes (reconcile (wl_unread (main_loop W config)) ws h incl t)"
proof -
  have snaps: "stays poll_writes (db_listParticipantSnapshots (wp_db W) ws b)" for b
    using snapshots_apart unfolding stays_def apart_def own_memory_def poll_writes_def by blast
  have cell: "stays poll_writes (io_cell (wp_notified W) m)" for m
    by (rule stays_cell) (simp add: poll_writes_def notified_apart)
  have "stays poll_writes (reconcile_snapshots (mem_unread_state (wp_notified W)) h t ss c)" for ss c
  proof (induction ss arbitrary: c)
    case Nil
    show ?case unfolding reconcile_snapshots.simps by (intro preserves poll_pre)
  next
    case (Cons s ss)
    then show ?case
      unfolding reconcile_snapshots.simps mem_unread_state_def unread_state_store.simps
      by (intro preserves poll_pre cell)
  qed
  with snaps show ?thesis
    unfolding reconcile_def main_loop_def worker_loop.simps unread_service.simps by (intro preserves poll_pre)
qed

lemma registry_frame: "stays session_writes (reconcileWorkspaceRuntimes (wl_registry (main_loop W config)) ws h t)"
proof -
  have apart: "stays session_writes m" if "stays apart m" for m :: "('w, exn, 'x) io"
    using that by (auto simp: stays_def apart_def session_writes_def)
  have mark: "stays session_writes (db_update (dc_sessions (wp_db W)) p f)" for p f
  proof (rule staysI)
    fix w r w' assume run: "db_update (dc_sessions (wp_db W)) p f w = (r, w')"
    with sessions.update_ok [of p f w _ w'] sessions.update_fail [of p f w _ w'] staysD [OF own_ops(4) run]
    show "session_writes w w'" by (cases r) (auto simp: session_writes_def)
  qed
  have "stays session_writes (reconcile_runtimes (wl_registry (main_loop W config)) h u rs n)" for u rs n
  proof (induction rs arbitrary: n)
    case Nil
    show ?case unfolding reconcile_runtimes.simps by (intro preserves writes_pre)
  next
    case (Cons s rs)
    then show ?case
      unfolding reconcile_runtimes.simps main_loop_def worker_loop.simps registry_service.simps
        main_registry_def DbRuntimeRegistryStore_def runtime_store.simps db_markRuntimeStatus_def
      by (intro preserves writes_pre mark)
  qed
  moreover have "stays session_writes (db_listWorkspaceRuntimes (wp_db W) ws)"
    unfolding db_listWorkspaceRuntimes_def by (intro preserves writes_pre apart queries_apart)
  ultimately show ?thesis
    unfolding reconcileWorkspaceRuntimes_def
    by (intro preserves writes_pre) (auto simp: main_loop_def main_registry_def DbRuntimeRegistryStore_def
        intro!: preserves writes_pre)
qed

definition told :: "'w \<Rightarrow> string \<Rightarrow> string \<Rightarrow> int option" where
  "told w th a = map_option fst (js_get (cell_get (wp_notified W) w) (reconciliationStateKey th a))"

lemma unread_poll_effect:
  assumes run: "reconcile (wl_unread (main_loop W config)) ws (js_int h) None t w = (Inr u, w')"
    and wf: "tables_wf (state w)" "plain_threads (state w)" "0 < h"
  shows "\<forall>c\<in>set (ur_candidates u). candidate_from h t (expected_snapshots (state w) ws False) c"
    "\<forall>x\<in>set (expected_snapshots (state w) ws False). unread x \<and> dormant h t (up_session x) \<longrightarrow>
       (\<exists>n. told w' (up_threadId x) (up_participantAgentId x) = Some n \<and> up_latestSeq x \<le> n)"
proof -
  let ?c = "\<lparr>un_unread = 0, un_dormant = 0, un_deduplicated = 0, un_candidates = []\<rparr>"
  from run obtain snaps w1 c where
    snaps: "db_listParticipantSnapshots (wp_db W) ws False w = (Inr snaps, w1)"
    and go: "reconcile_snapshots (mem_unread_state (wp_notified W)) (js_int h) t snaps ?c w1 = (Inr c, w')"
    and u: "ur_candidates u = un_candidates c"
    by (auto simp: reconcile_def main_loop_def)
  from snapshots_effect(2) [OF snaps wf(1,2) refl]
  have same: "set snaps = set (expected_snapshots (state w) ws False)" by (metis mset_eq_setD)
  from unread_state_contract.reconcile_loop [OF mem_unread_contract [OF cells(2)] go wf(3)]
  have new: "\<forall>x\<in>set (un_candidates c). candidate_from h t snaps x"
    "\<forall>x\<in>set snaps. unread x \<longrightarrow> dormant h t (up_session x) \<longrightarrow>
       (\<exists>n. told w' (up_threadId x) (up_participantAgentId x) = Some n \<and> up_latestSeq x \<le> n)"
    by (auto simp: told_def)
  from new(1) show "\<forall>c\<in>set (ur_candidates u). candidate_from h t (expected_snapshots (state w) ws False) c"
    unfolding u candidate_from_def same .
  from new(2) show "\<forall>x\<in>set (expected_snapshots (state w) ws False). unread x \<and> dormant h t (up_session x) \<longrightarrow>
       (\<exists>n. told w' (up_threadId x) (up_participantAgentId x) = Some n \<and> up_latestSeq x \<le> n)"
    unfolding same by blast
qed

theorem tick_effect:
  assumes run: "runPollingTick W config w = (Inr res, w')"
    and wf: "tables_wf (state w)" "plain_threads (state w)" "jobs_unique (state w)"
      "0 < SESSION_STALE_AFTER_HOURS config"
  defines "ws \<equiv> WORKSPACE_ID config" and "h \<equiv> SESSION_STALE_AFTER_HOURS config" and "t \<equiv> wp_now W"
  shows "jobs_unique (state w') \<and> sessions_unique (state w') \<and> worker_writes (state w) (state w') \<and>
    sessions_view (state w') = (\<lambda>k. map_option (expire ws h t) (sessions_view (state w) k)) \<and>
    (\<forall>i j. jobs_view (state w) i = Some j \<longrightarrow> (\<exists>j'. jobs_view (state w') i = Some j' \<and> job_steps j j' \<and>
       (\<not> job_due ws t j \<longrightarrow> j' = j))) \<and>
    (\<forall>c\<in>set (ur_candidates (wt_unreadReconciliation res)).
       candidate_from h t (expected_snapshots (state w) ws False) c) \<and>
    (\<forall>x\<in>set (expected_snapshots (state w) ws False). unread x \<and> dormant h t (up_session x) \<longrightarrow>
       (\<exists>n. told w' (up_threadId x) (up_participantAgentId x) = Some n \<and> up_latestSeq x \<le> n))"
proof -
  from run obtain u w1 rc w2 p where
    u: "reconcile (wl_unread (main_loop W config)) ws (js_int h) None t w = (Inr u, w1)"
    and rc: "reconcileWorkspaceRuntimes (wl_registry (main_loop W config)) ws (js_int h) (Some t) w1 = (Inr rc, w2)"
    and p: "processDueJobs (main_processor W config) ws (WORKER_MAX_PARALLEL_JOBS config) t w2 = (Inr p, w')"
    and res: "wt_unreadReconciliation res = u"
    unfolding runPollingTick_def runTick_def ws_def h_def t_def by (auto simp: main_loop_def Let_def)
  have s1: "state w1 = state w" using staysD [OF poll_frame u] by (simp add: poll_writes_def)
  have s2: "state w2 = (state w)\<lparr>ds_sessions := ds_sessions (state w2)\<rparr>"
    and n2: "cell_get (wp_notified W) w2 = cell_get (wp_notified W) w1"
    using staysD [OF registry_frame rc] s1 by (simp_all add: session_writes_def own_memory_def)
  have jobs2: "ds_jobs (state w2) = ds_jobs (state w)" "worker_writes (state w) (state w2)"
    by (subst s2, simp, subst s2, use worker_writes_refl [of "state w"] in \<open>simp add: worker_writes_def\<close>)
  have s3: "worker_writes (state w2) (state w')" "ds_sessions (state w') = ds_sessions (state w2)"
    and n3: "cell_get (wp_notified W) w' = cell_get (wp_notified W) w2"
    using staysD [OF writes.keeps_processing p] by (simp_all add: queue_writes_def)
  have "rg_store (wl_registry (main_loop W config)) = DbRuntimeRegistryStore (wp_db W) (wp_now W)"
    by (simp add: main_loop_def main_registry_def)
  from runtime_registry_contract.reconcile_effect(1,2) [OF DbRuntimeRegistryStore_contract rc this] wf(1,4)
  have sess: "sessions_unique (state w2)"
    "sessions_view (state w2) = (\<lambda>k. map_option (expire ws h t) (sessions_view (state w) k))"
    by (simp_all add: h_def s1 tables_wf_def)
  have view: "jobs_view (state w2) = jobs_view (state w)" "jobs_unique (state w2)"
    using wf(3) by (simp_all add: jobs_view_def [abs_def] jobs_unique_def jobs2)
  note effect = queue_processor.processDueJobs_effect [OF main_queue_processor p view(2)]
  have step: "\<exists>j'. jobs_view (state w') i = Some j' \<and> job_steps j j' \<and> (\<not> job_due ws t j \<longrightarrow> j' = j)"
    if j: "jobs_view (state w) i = Some j" for i j
  proof -
    from queue_processor.tick_steps [OF main_queue_processor p view(2), of i j] j obtain j' where
      j': "jobs_view (state w') i = Some j'" "job_steps j j'" unfolding view(1) by blast
    moreover have "j' = j" if "\<not> job_due ws t j"
      using effect j j'(1) that unfolding view(1) by (metis option.inject)
    ultimately show ?thesis by blast
  qed
  have "told w' = told w1" by (simp add: told_def [abs_def] n2 n3)
  with unread_poll_effect [OF u wf(1,2)] wf(4) have polled:
    "\<forall>c\<in>set (ur_candidates u). candidate_from h t (expected_snapshots (state w) ws False) c"
    "\<forall>x\<in>set (expected_snapshots (state w) ws False). unread x \<and> dormant h t (up_session x) \<longrightarrow>
       (\<exists>n. told w' (up_threadId x) (up_participantAgentId x) = Some n \<and> up_latestSeq x \<le> n)"
    by (simp_all add: h_def)
  have unique: "jobs_unique (state w')" using effect by blast
  have sessions: "sessions_unique (state w')" "sessions_view (state w') = sessions_view (state w2)"
    using sess(1) by (simp_all add: sessions_unique_def sessions_view_def [abs_def] s3(2))
  show ?thesis
    unfolding res sessions(2) sess(2)
    by (intro conjI allI impI unique sessions(1) refl step polled worker_writes_trans [OF jobs2(2) s3(1)])
qed

end

end
