(* ===== verification/MainProperties.thy ===== *)
theory MainProperties
  imports MainWorker WorkerProperties
begin

text \<open>
  The properties of the stores on the database and of the worker over them. They hold for every
  client that keeps its contract; the witnesses run them on tables kept in the world.
\<close>

section \<open>A client for the witnesses\<close>

record main_world =
  dm_database :: db_state
  dm_processor :: processor_state
  dm_busy :: busy_map
  dm_failures :: failure_map
  dm_notified :: notified_map
  dm_commands :: "shell_command list"

definition database_cell :: "(main_world, db_state) cell" where
  "database_cell = \<lparr>cell_get = dm_database, cell_put = (\<lambda>x s. s\<lparr>dm_database := x\<rparr>)\<rparr>"

definition table_client :: "main_world db_client" where
  "table_client = mem_client database_cell"

definition table_parts :: "main_world worker_parts" where
  "table_parts =
     \<lparr>wp_db = table_client,
      wp_run = (\<lambda>c w. (Inr \<lparr>cr_exitCode = 0, cr_stdout = ''0|7'', cr_stderr = []\<rparr>,
        w\<lparr>dm_commands := dm_commands w @ [c]\<rparr>)),
      wp_now = 50,
      wp_processor = \<lparr>cell_get = dm_processor, cell_put = (\<lambda>x s. s\<lparr>dm_processor := x\<rparr>)\<rparr>,
      wp_busy = \<lparr>cell_get = dm_busy, cell_put = (\<lambda>x s. s\<lparr>dm_busy := x\<rparr>)\<rparr>,
      wp_failures = \<lparr>cell_get = dm_failures, cell_put = (\<lambda>x s. s\<lparr>dm_failures := x\<rparr>)\<rparr>,
      wp_notified = \<lparr>cell_get = dm_notified, cell_put = (\<lambda>x s. s\<lparr>dm_notified := x\<rparr>)\<rparr>\<rparr>"

lemma database_cell_laws [simp]: "cell_laws database_cell" "cell_get database_cell = dm_database"
  by (simp_all add: cell_laws_def database_cell_def)

interpretation table_db: database table_client dm_database
  using mem_database [OF database_cell_laws(1)] by (simp add: table_client_def)

lemma mem_table_keeps:
  assumes "\<And>w s. R w (cell_put S s w)"
  shows "table_keeps R (mem_table (cell_in S C) clash)"
proof -
  have "R w (cell_put (cell_in S C) s w)" for w s using assms by (simp add: cell_in_def)
  then show ?thesis unfolding table_keeps_def mem_table_def db_table.simps by (intro conjI allI stays_cell)
qed

lemma mem_transaction_keeps:
  assumes "\<And>w s. R w (cell_put S s w)" "transp R" "stays R m"
  shows "stays R (mem_transaction S m)"
proof (rule staysI)
  fix w r w' assume "mem_transaction S m w = (r, w')"
  then obtain q u where m: "m w = (q, u)" "w' = u \<or> w' = cell_put S (cell_get S w) u"
    by (cases "m w") (auto simp: mem_transaction_def split: sum.split_asm)
  from staysD [OF assms(3) m(1)] m(2) assms(1,2) show "R w w'" by (auto dest: transpD)
qed

lemma mem_client_keeps:
  assumes "\<And>w s. R w (cell_put S s w)" "transp R"
  shows "client_keeps R (mem_client S)"
  by (simp add: client_keeps_def mem_client_def mem_table_keeps [where R = R and S = S, OF assms(1)]
      mem_transaction_keeps [where R = R and S = S, OF assms])

lemma table_parts_sel [simp]:
  "wp_db table_parts = table_client" "wp_now table_parts = 50"
  "cell_get (wp_notified table_parts) = dm_notified" "cell_get (wp_processor table_parts) = dm_processor"
  by (simp_all add: table_parts_def)

interpretation table_main: main_worker table_parts dm_database
proof (intro main_worker.intro main_worker_axioms.intro)
  show "database (wp_db table_parts) dm_database" by (simp add: table_db.database_axioms)
  show "client_keeps (own_memory table_parts) (wp_db table_parts)"
    unfolding table_parts_sel table_client_def
    by (rule mem_client_keeps) (auto simp: own_memory_def database_cell_def transp_def)
qed (auto simp: table_parts_def own_memory_def cell_laws_def)

interpretation table_q: guarded_processor "main_processor table_parts config" "\<lambda>w. jobs_view (dm_database w)"
  "\<lambda>w. jobs_unique (dm_database w)" for config
  by (rule table_main.main_guarded_processor)

interpretation table_rts: runtime_registry_contract "main_registry table_parts" "\<lambda>w. sessions_view (dm_database w)"
  Pair "\<lambda>w. sessions_unique (dm_database w)"
  unfolding main_registry_def table_parts_sel by (rule table_db.DbRuntimeRegistryStore_contract)

definition table_settings :: worker_settings where
  "table_settings =
     \<lparr>TRIGGER_QUIET_WINDOW_MS = 20000, TRIGGER_RECHECK_MS = 5000, TRIGGER_MAX_DEFER_MS = 60000,
      TRIGGER_RESUME_MAX_ATTEMPTS = 2, SESSION_STALE_AFTER_HOURS = 12, LOOP_MAX_REPEATED_FINDINGS = 3,
      TRIGGER_RATE_LIMIT_PER_MINUTE = 10, LOOP_MAX_TURNS = 20, WORKSPACE_ID = ''w'',
      WORKER_MAX_PARALLEL_JOBS = 5\<rparr>"

definition table_rows :: db_state where
  "table_rows =
     \<lparr>ds_threads = [\<lparr>tw_threadId = ''th'', tw_workspaceId = ''w'', tw_title = ''t'', tw_type = Workflow,
        tw_status = Active, tw_createdAt = 1, tw_updatedAt = 1\<rparr>],
      ds_participants = [\<lparr>pw_threadId = ''th'', pw_agentId = ''a'', pw_joinedAt = 1\<rparr>],
      ds_messages = [\<lparr>mw_messageId = ''m'', mw_threadId = ''th'', mw_schemaVersion = 1, mw_seq = 1,
        mw_senderAgentId = ''b'', mw_senderSessionId = ''s2'', mw_kind = Chat, mw_body = ''hi'',
        mw_metadata = None, mw_inReplyTo = None, mw_idempotencyKey = None, mw_createdAt = 2\<rparr>],
      ds_cursors = [], ds_sessions = [row_of_session demo_runtime],
      ds_jobs = [row_of_job (demo_job ''j1'' 10)], ds_attempts = [], ds_audit = []\<rparr>"

definition table_world :: main_world where
  "table_world =
     \<lparr>dm_database = table_rows, dm_processor = \<lparr>ps_rateLimitEvents = [], ps_threadLoopState = []\<rparr>,
      dm_busy = [], dm_failures = [], dm_notified = [], dm_commands = []\<rparr>"

lemma table_world_wf [simp]:
  "tables_wf (dm_database table_world)" "plain_threads (dm_database table_world)"
  "jobs_unique (dm_database table_world)"
  by (simp_all add: table_world_def table_rows_def tables_wf_def threads_wf_def messages_unique_def
      cursors_unique_def sessions_unique_def jobs_unique_def unique_def plain_threads_def plain_id_def)

lemma table_tick: "isl (fst (runPollingTick table_parts table_settings table_world)) = False"
  by code_simp

end
