(* ===== verification/DbConcurrency.thy ===== *)
theory DbConcurrency
  imports DbTriggerQueue
begin

text \<open>
  Several claims at once. A tick that takes longer than the polling interval overlaps the next one,
  and several workers may serve one database, so the statements of their claims interleave
  (\<open>claimDueJobs\<close>, \<open>recordAttemptAndTransition\<close> of \<open>trigger-queue.ts\<close> and
  \<open>createOrReuseTriggerJob\<close> of \<open>trigger-store.ts\<close>). A step is one statement, or one transaction.
  The conditional update keeps two of them from taking the same job.
\<close>

section \<open>The steps\<close>

text \<open>A run: the candidates it has still to try, and the jobs it has claimed and not settled.\<close>

record claim_run =
  wk_candidates :: "job_row list"
  wk_claimedAt :: int
  wk_held :: "trigger_job list"

definition try_candidate :: "'w db_client \<Rightarrow> int \<Rightarrow> job_row \<Rightarrow> ('w, exn, job_row list) io" where
  "try_candidate D claimedAt candidate =
     db_update (dc_jobs D)
       (\<lambda>row. jw_triggerId row = jw_triggerId candidate \<and> jw_status row = jw_status candidate \<and>
          jw_updatedAt row = jw_updatedAt candidate)
       (\<lambda>row. row\<lparr>jw_status := Triggering, jw_updatedAt := claimedAt\<rparr>)"

definition claimed_with :: "trigger_job list \<Rightarrow> job_row list \<Rightarrow> trigger_job list" where
  "claimed_with held updated = (case updated of [] \<Rightarrow> held | row # _ \<Rightarrow> held @ [job_of_row row])"

text \<open>
  A run reads candidates, tries the next one, stops at its limit, settles a job it holds, or is
  ended by an error. The bridge adds jobs.
\<close>

inductive claim_step ::
  "'w db_client \<Rightarrow> 'w \<times> (nat \<Rightarrow> claim_run) \<Rightarrow> 'w \<times> (nat \<Rightarrow> claim_run) \<Rightarrow> bool" for D where
  look: "db_findMany (dc_jobs D) (due_row ws t) (Asc jw_createdAt) (Some most) w = (Inr rows, w') \<Longrightarrow>
    claim_step D (w, f) (w', f(i := (f i)\<lparr>wk_candidates := rows, wk_claimedAt := t\<rparr>))"
| take_one: "wk_candidates (f i) = c # cs \<Longrightarrow> try_candidate D (wk_claimedAt (f i)) c w = (Inr updated, w') \<Longrightarrow>
    claim_step D (w, f) (w', f(i := (f i)\<lparr>wk_candidates := cs, wk_held := claimed_with (wk_held (f i)) updated\<rparr>))"
| stop_early: "claim_step D (w, f) (w, f(i := (f i)\<lparr>wk_candidates := []\<rparr>))"
| settle_one: "job \<in> set (wk_held (f i)) \<Longrightarrow> tr_triggerId x = tj_triggerId job \<Longrightarrow> tr_nextStatus x \<noteq> Triggering \<Longrightarrow>
    db_recordAttemptAndTransition D x w = (Inr r, w') \<Longrightarrow>
    claim_step D (w, f) (w', f(i := (f i)\<lparr>wk_held := filter (\<lambda>j. tj_triggerId j \<noteq> tj_triggerId job) (wk_held (f i))\<rparr>))"
| broken: "try_candidate D t c w = (Inl e, w') \<or> db_recordAttemptAndTransition D x w = (Inl e, w') \<Longrightarrow>
    claim_step D (w, f) (w', f(i := (f i)\<lparr>wk_candidates := [], wk_held := []\<rparr>))"
| create_job: "tj_status job \<noteq> Triggering \<Longrightarrow> db_createOrReuseTriggerJob D job w = (r, w') \<Longrightarrow>
    claim_step D (w, f) (w', f)"

inductive_cases claim_stepE: "claim_step D s s'"

lemma stop_step:
  "(claim_step D)\<^sup>*\<^sup>* (w, f) (w, f(i := (f i)\<lparr>wk_candidates := [], wk_held := wk_held (f i)\<rparr>))"
proof -
  have "(f i)\<lparr>wk_candidates := [], wk_held := wk_held (f i)\<rparr> = (f i)\<lparr>wk_candidates := []\<rparr>"
    by (cases "f i") simp
  then show ?thesis using stop_early [of D w f i] by (simp add: r_into_rtranclp)
qed

text \<open>The loop of one claim is a series of these steps.\<close>

lemma claim_is_steps:
  assumes "db_claim_candidates D l (wk_claimedAt (f i)) cs (wk_held (f i)) w = (Inr js, w')"
    "wk_candidates (f i) = cs"
  shows "(claim_step D)\<^sup>*\<^sup>* (w, f) (w', f(i := (f i)\<lparr>wk_candidates := [], wk_held := js\<rparr>))"
  using assms
proof (induction cs arbitrary: f w)
  case Nil
  then have eq: "js = wk_held (f i)" "w' = w" by simp_all
  show ?case unfolding eq by (rule stop_step)
next
  case (Cons c cs)
  show ?case
  proof (cases "l \<le> int (length (wk_held (f i)))")
    case True
    with Cons.prems have eq: "js = wk_held (f i)" "w' = w" by simp_all
    show ?thesis unfolding eq by (rule stop_step)
  next
    case False
    from Cons.prems(1) obtain u w1 where u: "try_candidate D (wk_claimedAt (f i)) c w = (Inr u, w1)"
      and go: "(case u of [] \<Rightarrow> db_claim_candidates D l (wk_claimedAt (f i)) cs (wk_held (f i))
        | row # _ \<Rightarrow> db_claim_candidates D l (wk_claimedAt (f i)) cs (wk_held (f i) @ [job_of_row row])) w1 = (Inr js, w')"
      unfolding db_claim_candidates.simps if_not_P [OF False] io_bind_Inr_iff try_candidate_def by blast
    have rest: "db_claim_candidates D l (wk_claimedAt (f i)) cs (claimed_with (wk_held (f i)) u) w1 = (Inr js, w')"
      using go by (cases u) (simp_all add: claimed_with_def)
    let ?g = "f(i := (f i)\<lparr>wk_candidates := cs, wk_held := claimed_with (wk_held (f i)) u\<rparr>)"
    have "claim_step D (w, f) (w1, ?g)" using Cons.prems(2) u by (rule take_one)
    moreover have "(claim_step D)\<^sup>*\<^sup>* (w1, ?g) (w', ?g(i := (?g i)\<lparr>wk_candidates := [], wk_held := js\<rparr>))"
      by (rule Cons.IH) (use rest in simp_all)
    moreover have "?g(i := (?g i)\<lparr>wk_candidates := [], wk_held := js\<rparr>) = f(i := (f i)\<lparr>wk_candidates := [], wk_held := js\<rparr>)"
      by simp
    ultimately show ?thesis by (metis converse_rtranclp_into_rtranclp)
  qed
qed

section \<open>No job is held twice\<close>

text \<open>Each held job is marked in the table, and no two runs hold the same one.\<close>

definition claims_apart :: "db_state \<Rightarrow> (nat \<Rightarrow> claim_run) \<Rightarrow> bool" where
  "claims_apart s f \<longleftrightarrow> jobs_unique s \<and>
     (\<forall>i. distinct (map tj_triggerId (wk_held (f i))) \<and>
        (\<forall>c\<in>set (wk_candidates (f i)). jw_status c \<noteq> Triggering) \<and>
        (\<forall>job\<in>set (wk_held (f i)). \<exists>j. jobs_view s (tj_triggerId job) = Some j \<and> tj_status j = Triggering)) \<and>
     (\<forall>i k. i \<noteq> k \<longrightarrow> tj_triggerId ` set (wk_held (f i)) \<inter> tj_triggerId ` set (wk_held (f k)) = {})"

lemma claims_apart_marked:
  "claims_apart s f \<Longrightarrow> job \<in> set (wk_held (f i)) \<Longrightarrow>
     \<exists>j. jobs_view s (tj_triggerId job) = Some j \<and> tj_status j = Triggering"
  by (simp add: claims_apart_def)

text \<open>A change of one run's candidates and of the jobs that it drops.\<close>

lemma claims_apart_less:
  assumes "claims_apart s f" "jobs_unique s'"
    "\<forall>c\<in>set (wk_candidates g). jw_status c \<noteq> Triggering"
    "distinct (map tj_triggerId (wk_held g))" "set (wk_held g) \<subseteq> set (wk_held (f i))"
    "\<And>k job. job \<in> set (wk_held ((f(i := g)) k)) \<Longrightarrow> jobs_view s' (tj_triggerId job) = jobs_view s (tj_triggerId job)"
  shows "claims_apart s' (f(i := g))"
proof -
  have less: "tj_triggerId ` set (wk_held ((f(i := g)) k)) \<subseteq> tj_triggerId ` set (wk_held (f k))" for k
    using image_mono [OF assms(5)] by (cases "k = i") simp_all
  have apart: "tj_triggerId ` set (wk_held ((f(i := g)) a)) \<inter> tj_triggerId ` set (wk_held ((f(i := g)) b)) = {}"
    if "a \<noteq> b" for a b
  proof -
    have "tj_triggerId ` set (wk_held (f a)) \<inter> tj_triggerId ` set (wk_held (f b)) = {}"
      using assms(1) that by (simp add: claims_apart_def)
    with less [of a] less [of b] show ?thesis by blast
  qed
  have marked: "\<exists>j. jobs_view s' (tj_triggerId job) = Some j \<and> tj_status j = Triggering"
    if "job \<in> set (wk_held ((f(i := g)) k))" for k job
  proof -
    have "job \<in> set (wk_held (f k))" using assms(5) that by (cases "k = i") auto
    from claims_apart_marked [OF assms(1) this] show ?thesis unfolding assms(6) [OF that] .
  qed
  have rest: "distinct (map tj_triggerId (wk_held ((f(i := g)) k)))"
    "\<forall>c\<in>set (wk_candidates ((f(i := g)) k)). jw_status c \<noteq> Triggering" for k
    using assms(1,3,4) by (simp_all add: claims_apart_def)
  show ?thesis
    unfolding claims_apart_def
  proof (intro conjI allI impI assms(2) rest apart)
    show "\<forall>job\<in>set (wk_held ((f(i := g)) k)). \<exists>j. jobs_view s' (tj_triggerId job) = Some j \<and> tj_status j = Triggering" for k
      using marked by blast
  qed
qed

text \<open>One more held job, which was not marked before.\<close>

lemma claims_apart_more:
  assumes "claims_apart s f" "jobs_unique s'" "jobs_view s (tj_triggerId job) = Some j0"
    "tj_status j0 \<noteq> Triggering" "jobs_view s' = (jobs_view s)(tj_triggerId job \<mapsto> j1)"
    "tj_status j1 = Triggering" "\<forall>c\<in>set (wk_candidates g). jw_status c \<noteq> Triggering"
    "wk_held g = wk_held (f i) @ [job]"
  shows "claims_apart s' (f(i := g))"
proof -
  let ?ids = "\<lambda>k. tj_triggerId ` set (wk_held (f k))"
  have new: "tj_triggerId job \<notin> ?ids k" for k
    using assms(1,3,4) claims_apart_marked by fastforce
  have ids: "tj_triggerId ` set (wk_held ((f(i := g)) k)) = (if k = i then insert (tj_triggerId job) (?ids i) else ?ids k)" for k
    by (simp add: assms(8))
  have apart: "tj_triggerId ` set (wk_held ((f(i := g)) a)) \<inter> tj_triggerId ` set (wk_held ((f(i := g)) b)) = {}"
    if "a \<noteq> b" for a b
  proof -
    have "?ids a \<inter> ?ids b = {}" using assms(1) that by (simp add: claims_apart_def)
    with new [of a] new [of b] that show ?thesis unfolding ids by auto
  qed
  have marked: "\<exists>j. jobs_view s' (tj_triggerId x) = Some j \<and> tj_status j = Triggering"
    if "x \<in> set (wk_held ((f(i := g)) k))" for k x
  proof (cases "tj_triggerId x = tj_triggerId job")
    case False
    then have "x \<in> set (wk_held (f k))" using that assms(8) by (auto split: if_split_asm)
    from claims_apart_marked [OF assms(1) this] False show ?thesis by (simp add: assms(5))
  qed (simp add: assms(5,6))
  have rest: "distinct (map tj_triggerId (wk_held ((f(i := g)) k)))"
    "\<forall>c\<in>set (wk_candidates ((f(i := g)) k)). jw_status c \<noteq> Triggering" for k
    using assms(1,7) new [of i] by (simp_all add: claims_apart_def assms(8))
  show ?thesis
    unfolding claims_apart_def
  proof (intro conjI allI impI assms(2) rest apart)
    show "\<forall>job\<in>set (wk_held ((f(i := g)) k)). \<exists>j. jobs_view s' (tj_triggerId job) = Some j \<and> tj_status j = Triggering" for k
      using marked by blast
  qed
qed

context database
begin

text \<open>A candidate is taken if its row is still as it was read.\<close>

lemma try_effect:
  assumes "try_candidate D t c w = (Inr updated, w')" "jobs_unique (state w)"
  shows "jobs_unique (state w')"
    "updated = [] \<Longrightarrow> state w' = state w"
    "updated = row # rest \<Longrightarrow> \<exists>j. jobs_view (state w) (jw_triggerId c) = Some j \<and> tj_status j = jw_status c \<and>
       job_of_row row = claim t j \<and>
       jobs_view (state w') = (jobs_view (state w))(jw_triggerId c \<mapsto> claim t j)"
proof -
  let ?q = "\<lambda>row. jw_status row = jw_status c \<and> jw_updatedAt row = jw_updatedAt c"
  let ?f = "\<lambda>row. row\<lparr>jw_status := Triggering, jw_updatedAt := t\<rparr>"
  have key: "jw_triggerId (?f r) = jw_triggerId r" for r by simp
  have d: "distinct (map jw_triggerId (cell_get jobs_table (state w)))" using assms(2) by (simp add: jobs_unique_iff)
  note up = jobs.update_key [OF assms(1) [unfolded try_candidate_def] d key, unfolded table_gets]
  show "jobs_unique (state w')" using up(6) assms(2) by (simp add: jobs_unique_iff)
  show "state w' = state w" if "updated = []" using up(5) that by simp
  assume some: "updated = row # rest"
  with up(3) [OF refl] obtain r where r: "find (\<lambda>r. jw_triggerId r = jw_triggerId c) (ds_jobs (state w)) = Some r"
    "?q r" "row = ?f r" by (auto split: option.split_asm if_split_asm)
  have "jobs_view (state w') i = ((jobs_view (state w))(jw_triggerId c \<mapsto> claim t (job_of_row r))) i" for i
    using up(4) [OF refl, of i] r by (auto simp: jobs_view_def job_of_row_def claim_def)
  with r show "\<exists>j. jobs_view (state w) (jw_triggerId c) = Some j \<and> tj_status j = jw_status c \<and>
       job_of_row row = claim t j \<and>
       jobs_view (state w') = (jobs_view (state w))(jw_triggerId c \<mapsto> claim t j)"
    by (intro exI [of _ "job_of_row r"]) (auto simp: jobs_view_def job_of_row_def claim_def)
qed

lemma claims_apart_step:
  assumes "claim_step D (w, f) (w', f')" "claims_apart (state w) f"
  shows "claims_apart (state w') f'"
  using assms(1)
proof (cases rule: claim_step.cases)
  case (look ws t most rows i)
  have sel: "selection (due_row ws t) (Asc jw_createdAt) (Some most) (ds_jobs (state w)) rows"
    and s: "state w' = state w" using jobs.find_ok [OF look(2)] by auto
  have "\<forall>c\<in>set rows. jw_status c \<noteq> Triggering"
  proof
    fix c assume "c \<in> set rows"
    from selection_mem(2) [OF sel this] show "jw_status c \<noteq> Triggering"
      by (auto simp: due_row_def DUE_TRIGGER_STATUSES_def)
  qed
  then show ?thesis
    unfolding look(1) s using assms(2)
    by (intro claims_apart_less) (simp_all add: claims_apart_def)
next
  case (stop_early i)
  then show ?thesis using assms(2) by (auto intro!: claims_apart_less simp: claims_apart_def)
next
  case (take_one i c cs updated)
  have u: "jobs_unique (state w)" using assms(2) by (simp add: claims_apart_def)
  note eff = try_effect [OF take_one(3) u]
  have c: "jw_status c \<noteq> Triggering" and cs: "\<forall>c\<in>set cs. jw_status c \<noteq> Triggering"
    using assms(2) take_one(2) by (auto simp: claims_apart_def dest: spec [of _ i])
  show ?thesis
  proof (cases updated)
    case Nil
    with take_one(1) assms(2) u cs eff(2) show ?thesis
      by (auto intro!: claims_apart_less simp: claims_apart_def claimed_with_def)
  next
    case (Cons row rest)
    from eff(3) [OF Cons] obtain j where j: "jobs_view (state w) (jw_triggerId c) = Some j"
      "tj_status j = jw_status c" "job_of_row row = claim (wk_claimedAt (f i)) j"
      "jobs_view (state w') = (jobs_view (state w))(jw_triggerId c \<mapsto> claim (wk_claimedAt (f i)) j)" by blast
    have id: "tj_triggerId (job_of_row row) = jw_triggerId c"
      using jobs_view_filed [of "state w"] j(1,3) by (auto dest: filedD)
    show ?thesis unfolding take_one(1)
      by (rule claims_apart_more [OF assms(2) eff(1), of "job_of_row row" j "claim (wk_claimedAt (f i)) j"])
        (use j c cs id Cons in \<open>simp_all add: claimed_with_def\<close>)
  qed
next
  case (settle_one job i x r)
  have u: "jobs_unique (state w)" using assms(2) by (simp add: claims_apart_def)
  from record_effect [OF settle_one(5) u] have s: "jobs_unique (state w')"
    "\<And>k. k \<noteq> tj_triggerId job \<Longrightarrow> jobs_view (state w') k = jobs_view (state w) k"
    by (auto simp: settle_one(3) split: option.split_asm if_split_asm)
  let ?g = "(f i)\<lparr>wk_held := filter (\<lambda>j. tj_triggerId j \<noteq> tj_triggerId job) (wk_held (f i))\<rparr>"
  have other: "tj_triggerId y \<noteq> tj_triggerId job" if "y \<in> set (wk_held ((f(i := ?g)) k))" for k y
  proof (cases "k = i")
    case False
    have "tj_triggerId ` set (wk_held (f i)) \<inter> tj_triggerId ` set (wk_held (f k)) = {}"
      using assms(2) False by (simp add: claims_apart_def)
    with settle_one(2) that False show ?thesis by (auto simp: image_iff)
  qed (use that in simp)
  show ?thesis unfolding settle_one(1)
  proof (rule claims_apart_less [OF assms(2) s(1)])
    show "jobs_view (state w') (tj_triggerId y) = jobs_view (state w) (tj_triggerId y)"
      if "y \<in> set (wk_held ((f(i := ?g)) k))" for k y by (rule s(2) [OF other [OF that]])
  qed (use assms(2) in \<open>auto simp: claims_apart_def distinct_map_filter\<close>)
next
  case (broken t c e x i)
  then have "state w' = state w"
    using jobs.update_fail txJob.rollback unfolding try_candidate_def db_recordAttemptAndTransition_def by blast
  with assms(2) broken(1) show ?thesis by (auto intro!: claims_apart_less simp: claims_apart_def)
next
  case (create_job job r)
  have u: "jobs_unique (state w)" using assms(2) by (simp add: claims_apart_def)
  from DbTriggerStore_effect [OF create_job(3) u] have s: "jobs_unique (state w')"
    "\<And>k j. jobs_view (state w) k = Some j \<Longrightarrow> jobs_view (state w') k = Some j"
    by (auto split: sum.split_asm option.split_asm if_split_asm)
  with assms(2) show ?thesis unfolding create_job(1) claims_apart_def by meson
qed

theorem claims_stay_apart:
  assumes "(claim_step D)\<^sup>*\<^sup>* (w, f) (w', f')" "claims_apart (state w) f"
  shows "claims_apart (state w') f'"
  using assms(1)
proof (induction "(w', f')" arbitrary: w' f' rule: rtranclp_induct)
  case base
  show ?case by (rule assms(2))
next
  case (step s)
  then show ?case by (cases s) (blast intro: claims_apart_step)
qed

end

end
