(* ===== verification/DbIntegrity.thy ===== *)
theory DbIntegrity
  imports DbUnread
begin

text \<open>
  What the tables hold at any time. The rows of \<open>threads\<close> with their members are well-formed
  threads, those of \<open>messages\<close> well-formed messages, the ids of a session are not blank, and the
  keys are unique. Every call of the stores of the bridge and of the worker keeps this, whether it
  returns or throws, in any order.
\<close>

section \<open>Well-formed tables\<close>

definition session_row_ok :: "session_row \<Rightarrow> bool" where
  "session_row_ok r \<longleftrightarrow> normal_string (sw_agentId r) \<and> normal_string (sw_workspaceId r) \<and>
     normal_string (sw_sessionId r) \<and> normal_string (sw_runtime r)"

definition well_typed :: "db_state \<Rightarrow> bool" where
  "well_typed s \<longleftrightarrow> tables_wf s \<and> jobs_unique s \<and> unique attempt_clash (ds_attempts s) \<and>
     list_all (\<lambda>r. wf_thread (thread_of_row r (members s (tw_threadId r)))) (ds_threads s) \<and>
     list_all (\<lambda>r. wf_message (message_of_row r)) (ds_messages s) \<and>
     list_all session_row_ok (ds_sessions s)"

lemma well_typed_tables: "well_typed s \<Longrightarrow> tables_wf s" "well_typed s \<Longrightarrow> jobs_unique s"
  by (simp_all add: well_typed_def)

text \<open>A change of one table at a time.\<close>

lemma well_typed_messages:
  "well_typed s \<Longrightarrow> unique message_clash rs \<Longrightarrow> list_all (\<lambda>r. wf_message (message_of_row r)) rs \<Longrightarrow>
     well_typed (s\<lparr>ds_messages := rs\<rparr>)"
  by (simp add: well_typed_def tables_wf_def threads_wf_def messages_unique_def cursors_unique_def
      sessions_unique_def jobs_unique_def members_def)

lemma well_typed_sessions:
  "well_typed s \<Longrightarrow> unique session_clash rs \<Longrightarrow> list_all session_row_ok rs \<Longrightarrow>
     well_typed (s\<lparr>ds_sessions := rs\<rparr>)"
  by (simp add: well_typed_def tables_wf_def threads_wf_def messages_unique_def cursors_unique_def
      sessions_unique_def jobs_unique_def members_def)

lemma well_typed_rest:
  "well_typed s \<Longrightarrow> unique cursor_clash cs \<Longrightarrow> well_typed (s\<lparr>ds_cursors := cs\<rparr>)"
  "well_typed s \<Longrightarrow> unique job_clash js \<Longrightarrow> well_typed (s\<lparr>ds_jobs := js\<rparr>)"
  "well_typed s \<Longrightarrow> unique attempt_clash as \<Longrightarrow> well_typed (s\<lparr>ds_attempts := as\<rparr>)"
  "well_typed s \<Longrightarrow> well_typed (s\<lparr>ds_audit := es\<rparr>)"
  by (simp_all add: well_typed_def tables_wf_def threads_wf_def messages_unique_def cursors_unique_def
      sessions_unique_def jobs_unique_def members_def)

text \<open>A change of the status of threads.\<close>

lemma well_typed_status:
  assumes "well_typed s"
  shows "well_typed (s\<lparr>ds_threads := change p (\<lambda>r. r\<lparr>tw_status := st, tw_updatedAt := t\<rparr>) (ds_threads s)\<rparr>)"
proof -
  let ?f = "\<lambda>r. if p r then r\<lparr>tw_status := st, tw_updatedAt := t\<rparr> else r"
  have key: "tw_threadId (?f r) = tw_threadId r" for r by simp
  have ids: "tw_threadId ` ?f ` set (ds_threads s) = tw_threadId ` set (ds_threads s)"
    unfolding image_image key ..
  have wf: "wf_thread (thread_of_row (?f r) ps) = wf_thread (thread_of_row r ps)" for r ps
    by (simp add: wf_thread_def thread_of_row_def)
  have "unique thread_clash (map ?f (ds_threads s)) = unique thread_clash (ds_threads s)"
    by (simp add: unique_def sorted_wrt_map thread_clash_def key)
  then show ?thesis
    using assms ids
    by (simp add: well_typed_def tables_wf_def threads_wf_def messages_unique_def cursors_unique_def
        sessions_unique_def jobs_unique_def members_def change_def list.pred_map comp_def wf key)
qed

text \<open>A new thread and its participants.\<close>

lemma well_typed_new_thread:
  assumes "well_typed s" "wf_thread t" "thread_row_at s (th_threadId t) = None"
    "threads_wf (s\<lparr>ds_threads := ds_threads s @ [row_of_thread t],
       ds_participants := ds_participants s @ participant_rows t\<rparr>)" (is "threads_wf ?s")
  shows "well_typed ?s"
proof -
  have no_members: "members s (th_threadId t) = []"
    using assms(1,3) by (auto simp: well_typed_def tables_wf_def threads_wf_def members_def
        thread_row_at_def find_None_iff filter_empty_conv)
  have "members ?s (th_threadId t) = members s (th_threadId t) @ th_participants t"
    by (simp add: members_def participant_rows_def comp_def)
  then have new: "wf_thread (thread_of_row (row_of_thread t) (members ?s (th_threadId t)))"
    using no_members assms(2) by simp
  have "members ?s (tw_threadId r) = members s (tw_threadId r)" if "r \<in> set (ds_threads s)" for r
  proof -
    have "tw_threadId r \<noteq> th_threadId t"
      using that assms(3) by (auto simp: thread_row_at_def find_None_iff)
    then show ?thesis by (simp add: members_def participant_rows_def)
  qed
  with new assms(1,4) show ?thesis
    by (simp add: well_typed_def tables_wf_def messages_unique_def cursors_unique_def
        sessions_unique_def jobs_unique_def list_all_iff)
qed

section \<open>The calls\<close>

datatype store_call =
    CreateThread create_thread_input
  | UpdateThreadStatus string thread_status js_date "thread_status option"
  | CreateMessage create_message_input
  | UpsertParticipantCursor cursor
  | HeartbeatSession int heartbeat_input
  | UpsertFromHeartbeat int heartbeat_input
  | MarkRuntimeStatus string string session_status "bool option" int
  | CreateOrReuseTriggerJob trigger_job
  | ClaimDueJobs string int int
  | RecordAttemptAndTransition transition_input
  | MarkThreadBlocked string int string
  | WriteEvent audit_event

text \<open>A call for its effect.\<close>

definition io_done :: "('w, 'e, 'a) io \<Rightarrow> ('w, 'e, unit) io" where
  "io_done m = io_bind m (\<lambda>_. io_return ())"

fun run_call :: "'w db_client \<Rightarrow> store_call \<Rightarrow> ('w, exn, unit) io" where
  "run_call D (CreateThread i) = io_done (ts_createThread (DbThreadStore D) i)"
| "run_call D (UpdateThreadStatus tid s d x) = io_done (ts_updateThreadStatus (DbThreadStore D) tid s d x)"
| "run_call D (CreateMessage i) = io_done (ts_createMessage (DbThreadStore D) i)"
| "run_call D (UpsertParticipantCursor c) = io_done (ts_upsertParticipantCursor (DbThreadStore D) c)"
| "run_call D (HeartbeatSession now i) = io_done (ss_heartbeatSession (DbSessionStore D now) i)"
| "run_call D (UpsertFromHeartbeat now i) = io_done (rs_upsertFromHeartbeat (DbRuntimeRegistryStore D now) i)"
| "run_call D (MarkRuntimeStatus a ws st r t) = io_done (rs_markRuntimeStatus (DbRuntimeRegistryStore D t) a ws st r t)"
| "run_call D (CreateOrReuseTriggerJob j) = io_done (trs_createOrReuseTriggerJob (DbTriggerStore D) j)"
| "run_call D (ClaimDueJobs ws l t) = io_done (tq_claimDueJobs (DbTriggerQueueStore D) ws l t)"
| "run_call D (RecordAttemptAndTransition i) = io_done (tq_recordAttemptAndTransition (DbTriggerQueueStore D) i)"
| "run_call D (MarkThreadBlocked tid t reason) = io_done (tq_markThreadBlocked (DbTriggerQueueStore D) tid t reason)"
| "run_call D (WriteEvent e) = io_done (as_writeEvent (DbAuditStore D) e)"

text \<open>A series of calls. One that throws does not stop those of others.\<close>

fun run_calls :: "'w db_client \<Rightarrow> store_call list \<Rightarrow> 'w \<Rightarrow> 'w" where
  "run_calls D [] w = w"
| "run_calls D (c # cs) w = run_calls D cs (snd (run_call D c w))"

section \<open>Each call keeps the tables well-formed\<close>

lemma stays_bind_lift:
  "reflp R \<Longrightarrow> (\<And>a. x = Inr a \<Longrightarrow> stays R (f a)) \<Longrightarrow> stays R (io_bind (io_lift (map_exn g x)) f)"
  unfolding stays_def io_bind_iff by (cases x) (auto simp: reflp_def)

lemma list_all_change: "list_all q rs \<Longrightarrow> (\<And>r. q r \<Longrightarrow> q (f r)) \<Longrightarrow> list_all q (change p f rs)"
  by (auto simp: change_def list_all_iff)

lemma unique_snoc: "unique clash rs \<Longrightarrow> \<forall>x\<in>set rs. \<not> clash x r \<Longrightarrow> unique clash (rs @ [r])"
  by (simp add: unique_def sorted_wrt_append)

lemma well_typed_unique:
  assumes "well_typed s"
  shows "unique message_clash (ds_messages s)" "unique session_clash (ds_sessions s)"
    "unique job_clash (ds_jobs s)" "unique attempt_clash (ds_attempts s)"
    "list_all (\<lambda>r. wf_message (message_of_row r)) (ds_messages s)" "list_all session_row_ok (ds_sessions s)"
  using assms
  by (simp_all add: well_typed_def tables_wf_def messages_unique_def sessions_unique_def jobs_unique_def)

context database
begin

definition keeps_typed :: "'w \<Rightarrow> 'w \<Rightarrow> bool" where
  "keeps_typed w w' \<longleftrightarrow> (well_typed (state w) \<longrightarrow> well_typed (state w'))"

lemma keeps_pre: "reflp keeps_typed" "transp keeps_typed"
  by (auto simp: reflp_def transp_def keeps_typed_def)

lemma same_keeps: "(\<And>w r w'. m w = (r, w') \<Longrightarrow> state w' = state w) \<Longrightarrow> stays keeps_typed m"
  by (simp add: stays_def keeps_typed_def)

text \<open>A statement: it fails and changes nothing, or the new table is as it must be.\<close>

lemma statement_keeps:
  assumes "\<And>w e w'. m w = (Inl e, w') \<Longrightarrow> state w' = state w"
    "\<And>w a w'. m w = (Inr a, w') \<Longrightarrow> well_typed (state w) \<Longrightarrow> well_typed (state w')"
  shows "stays keeps_typed m"
proof (rule staysI)
  fix w r w' assume "m w = (r, w')"
  with assms show "keeps_typed w w'" unfolding keeps_typed_def by (cases r) auto
qed

lemma queries_keep:
  "stays keeps_typed (db_findMany (dc_jobs D) p1 o1 n)" "stays keeps_typed (findFirst (dc_jobs D) p1 o1)"
  "stays keeps_typed (findFirst (dc_sessions D) p2 o2)" "stays keeps_typed (findFirst (dc_threads D) p3 o3)"
  "stays keeps_typed (db_findMany (dc_participants D) p4 o4 n)"
proof -
  show "stays keeps_typed (db_findMany (dc_jobs D) p1 o1 n)" by (rule same_keeps) (drule jobs.find_ok, simp)
  show "stays keeps_typed (findFirst (dc_jobs D) p1 o1)" by (rule same_keeps) (rule jobs.first_ok(1))
  show "stays keeps_typed (findFirst (dc_sessions D) p2 o2)" by (rule same_keeps) (rule sessions.first_ok(1))
  show "stays keeps_typed (findFirst (dc_threads D) p3 o3)" by (rule same_keeps) (rule threads.first_ok(1))
  show "stays keeps_typed (db_findMany (dc_participants D) p4 o4 n)"
    by (rule same_keeps) (drule participants.find_ok, simp)
qed

lemma writes_keep:
  "wf_message m \<Longrightarrow> stays keeps_typed (db_insert (dc_messages D) [row_of_message m])"
  "(\<And>r. session_row_ok r \<Longrightarrow> session_row_ok (f r)) \<Longrightarrow> stays keeps_typed (db_update (dc_sessions D) p f)"
  "session_row_ok r \<Longrightarrow> stays keeps_typed (db_insertNew (dc_sessions D) r)"
  "stays keeps_typed (db_update (dc_threads D) q (\<lambda>r. r\<lparr>tw_status := st, tw_updatedAt := t\<rparr>))"
  "stays keeps_typed (db_insertNew (dc_jobs D) j)" "stays keeps_typed (db_update (dc_jobs D) pj fj)"
  "stays keeps_typed (db_insert (dc_attempts D) as)" "stays keeps_typed (db_insert (dc_audit D) es)"
proof -
  show "stays keeps_typed (db_insert (dc_messages D) [row_of_message m])" if wf: "wf_message m"
  proof (rule statement_keeps [OF messages.insert_fail], assumption)
    fix w u w' assume run: "db_insert (dc_messages D) [row_of_message m] w = (Inr u, w')" and ok: "well_typed (state w)"
    note t = well_typed_unique [OF ok] and s = messages.insert_ok [OF run, unfolded table_gets table_puts]
    show "well_typed (state w')" unfolding s [THEN conjunct1]
      by (rule well_typed_messages [OF ok]) (use s t wf in \<open>simp_all add: message_of_row_inverse\<close>)
  qed
  show "stays keeps_typed (db_update (dc_sessions D) p f)" if f: "\<And>r. session_row_ok r \<Longrightarrow> session_row_ok (f r)"
  proof (rule statement_keeps [OF sessions.update_fail], assumption)
    fix w u w' assume run: "db_update (dc_sessions D) p f w = (Inr u, w')" and ok: "well_typed (state w)"
    note t = well_typed_unique [OF ok] and s = sessions.update_ok [OF run, unfolded table_gets table_puts]
    show "well_typed (state w')" unfolding s [THEN conjunct1]
      by (rule well_typed_sessions [OF ok]) (use s t f in \<open>auto intro: list_all_change\<close>)
  qed
  show "stays keeps_typed (db_insertNew (dc_sessions D) r)" if r: "session_row_ok r"
  proof (rule statement_keeps [OF sessions.insertNew_fail], assumption)
    fix w u w' assume run: "db_insertNew (dc_sessions D) r w = (Inr u, w')" and ok: "well_typed (state w)"
    note t = well_typed_unique [OF ok] and s = sessions.insertNew_ok [OF run, unfolded table_gets table_puts]
    show "well_typed (state w')"
    proof (cases "\<exists>x\<in>set (ds_sessions (state w)). session_clash x r")
      case False
      then have e: "state w' = (state w)\<lparr>ds_sessions := ds_sessions (state w) @ [r]\<rparr>" using s by simp
      show ?thesis unfolding e
        by (rule well_typed_sessions [OF ok unique_snoc [OF t(2)]]) (use False t(6) r in auto)
    qed (use s ok in simp)
  qed
  show "stays keeps_typed (db_update (dc_threads D) q (\<lambda>r. r\<lparr>tw_status := st, tw_updatedAt := t\<rparr>))"
  proof (rule statement_keeps [OF threads.update_fail], assumption)
    fix w u w' assume run: "db_update (dc_threads D) q (\<lambda>r. r\<lparr>tw_status := st, tw_updatedAt := t\<rparr>) w = (Inr u, w')"
      and ok: "well_typed (state w)"
    show "well_typed (state w')" unfolding threads.update_ok [OF run, THEN conjunct1] table_gets table_puts
      by (rule well_typed_status [OF ok])
  qed
  show "stays keeps_typed (db_insertNew (dc_jobs D) j)"
  proof (rule statement_keeps [OF jobs.insertNew_fail], assumption)
    fix w u w' assume run: "db_insertNew (dc_jobs D) j w = (Inr u, w')" and ok: "well_typed (state w)"
    note t = well_typed_unique [OF ok] and s = jobs.insertNew_ok [OF run, unfolded table_gets table_puts]
    show "well_typed (state w')"
    proof (cases "\<exists>x\<in>set (ds_jobs (state w)). job_clash x j")
      case False
      then have e: "state w' = (state w)\<lparr>ds_jobs := ds_jobs (state w) @ [j]\<rparr>" using s by simp
      show ?thesis unfolding e
        by (rule well_typed_rest(2) [OF ok unique_snoc [OF t(3)]]) (use False in auto)
    qed (use s ok in simp)
  qed
  show "stays keeps_typed (db_update (dc_jobs D) pj fj)"
  proof (rule statement_keeps [OF jobs.update_fail], assumption)
    fix w u w' assume run: "db_update (dc_jobs D) pj fj w = (Inr u, w')" and ok: "well_typed (state w)"
    note s = jobs.update_ok [OF run, unfolded table_gets table_puts]
    show "well_typed (state w')" unfolding s [THEN conjunct1]
      by (rule well_typed_rest(2) [OF ok]) (use s well_typed_unique(3) [OF ok] in blast)
  qed
  show "stays keeps_typed (db_insert (dc_attempts D) as)"
  proof (rule statement_keeps [OF attempts.insert_fail], assumption)
    fix w u w' assume run: "db_insert (dc_attempts D) as w = (Inr u, w')" and ok: "well_typed (state w)"
    note s = attempts.insert_ok [OF run, unfolded table_gets table_puts]
    show "well_typed (state w')" unfolding s [THEN conjunct1]
      by (rule well_typed_rest(3) [OF ok]) (use s well_typed_unique(4) [OF ok] in blast)
  qed
  show "stays keeps_typed (db_insert (dc_audit D) es)"
  proof (rule statement_keeps [OF audit.insert_fail], assumption)
    fix w u w' assume run: "db_insert (dc_audit D) es w = (Inr u, w')" and ok: "well_typed (state w)"
    show "well_typed (state w')" unfolding audit.insert_ok [OF run, THEN conjunct1] table_gets table_puts
      by (rule well_typed_rest(4) [OF ok])
  qed
qed

text \<open>Parts of the calls.\<close>

lemma parts_keep:
  "stays keeps_typed (db_findSession D a ws)" "stays keeps_typed (db_getThreadById D tid)"
  "stays keeps_typed (db_claim_candidates D l t cs claimed)"
proof -
  show "stays keeps_typed (db_findSession D a ws)"
    unfolding db_findSession_def by (intro preserves keeps_pre queries_keep)
  show "stays keeps_typed (db_getThreadById D tid)"
    unfolding db_getThreadById_def by (intro preserves keeps_pre queries_keep)
  show "stays keeps_typed (db_claim_candidates D l t cs claimed)"
  proof (induction cs arbitrary: claimed)
    case Nil
    show ?case unfolding db_claim_candidates.simps by (intro preserves keeps_pre)
  next
    case (Cons c cs)
    show ?case unfolding db_claim_candidates.simps
      by (intro preserves keeps_pre writes_keep) (simp split: list.split, intro allI conjI impI Cons.IH)
  qed
qed

lemma heartbeat_keeps: "stays keeps_typed (db_heartbeat failure D now i)"
  unfolding db_heartbeat_def
proof (rule stays_bind_lift [OF keeps_pre(1)])
  fix n assume n: "createSessionFromHeartbeat now i = Inr n"
  then have ok: "session_row_ok (row_of_session n)" "session_row_ok r \<Longrightarrow> session_row_ok (heartbeat_columns n r)" for r
    by (auto simp: createSessionFromHeartbeat_def session_row_ok_def row_of_session_def heartbeat_columns_def)
  show "stays keeps_typed (io_bind (db_update (dc_sessions D)
        (\<lambda>row. sw_agentId row = se_agentId n \<and> sw_workspaceId row = se_workspaceId n \<and>
           sw_lastHeartbeatAt row < se_lastHeartbeatAt n) (heartbeat_columns n)) (\<lambda>updated.
     case updated of
       firstUpdated # _ \<Rightarrow> io_return (session_of_row firstUpdated)
     | [] \<Rightarrow>
         io_bind (db_findSession D (se_agentId n) (se_workspaceId n)) (\<lambda>existing.
         case existing of
           Some s \<Rightarrow> io_return s
         | None \<Rightarrow>
             io_bind (db_insertNew (dc_sessions D) (row_of_session n)) (\<lambda>_.
             io_bind (db_findSession D (se_agentId n) (se_workspaceId n)) (\<lambda>inserted.
             case inserted of
               Some s \<Rightarrow> io_return s
             | None \<Rightarrow> io_throw (OtherExn failure))))))"
    by (intro stays_bind keeps_pre writes_keep ok(2))
      (simp_all split: list.split, intro allI conjI impI preserves keeps_pre parts_keep writes_keep ok)
qed

lemma createThread_keeps: "stays keeps_typed (db_createThread D i)"
proof (rule staysI)
  fix w r w' assume run: "db_createThread D i w = (r, w')"
  show "keeps_typed w w'" unfolding keeps_typed_def
  proof
    assume ok: "well_typed (state w)"
    then have wf: "threads_wf (state w)" by (simp add: well_typed_def tables_wf_def)
    show "well_typed (state w')"
    proof (cases r)
      case (Inl e)
      with createThread_effect(1) [OF run wf] ok show ?thesis by metis
    next
      case (Inr t)
      note e = createThread_effect(2) [OF run wf Inr]
      show ?thesis using e createThread_rows [OF run [unfolded Inr] wf] createThread_wf
        by (metis well_typed_new_thread [OF ok])
    qed
  qed
qed

text \<open>The upsert writes to one table.\<close>

lemma upsertCursor_frame:
  assumes "db_upsertParticipantCursor D c w = (r, w')"
  shows "state w' = (state w)\<lparr>ds_cursors := ds_cursors (state w')\<rparr>"
proof -
  from assms obtain f x where up: "db_upsert (dc_cursors D) (row_of_cursor c) f w = (x, w')"
    by (auto simp: db_upsertParticipantCursor_def io_bind_iff)
  show ?thesis
  proof (cases x)
    case (Inl e)
    from cursors.upsert_fail [OF up [unfolded Inl]] show ?thesis by simp
  next
    case (Inr u)
    from cursors.upsert_ok [OF up [unfolded Inr], unfolded table_gets table_puts] show ?thesis
      by (simp split: if_split_asm)
  qed
qed

text \<open>Every call.\<close>

lemma done_keeps: "stays keeps_typed m \<Longrightarrow> stays keeps_typed (io_done m)"
  unfolding io_done_def by (intro preserves keeps_pre)

lemma transaction_keeps: "stays keeps_typed m \<Longrightarrow> stays keeps_typed (dc_transactionJob D m)"
proof (rule statement_keeps [OF txJob.rollback], assumption)
  fix w a w' assume m: "stays keeps_typed m" and run: "dc_transactionJob D m w = (Inr a, w')" and ok: "well_typed (state w)"
  from txJob.commit [OF run] obtain u u' where "state u = state w" "m u = (Inr a, u')" "state w' = state u'" by blast
  with staysD [OF m] ok show "well_typed (state w')" unfolding keeps_typed_def by metis
qed

lemma call_keeps: "stays keeps_typed (run_call D c)"
proof (cases c)
  case (CreateThread i)
  show ?thesis unfolding CreateThread run_call.simps DbThreadStore_def thread_store.simps
    by (rule done_keeps [OF createThread_keeps])
next
  case (UpdateThreadStatus tid s d x)
  show ?thesis unfolding UpdateThreadStatus run_call.simps DbThreadStore_def thread_store.simps db_updateThreadStatus_def
    by (intro done_keeps preserves keeps_pre parts_keep writes_keep)
next
  case (CreateMessage i)
  show ?thesis unfolding CreateMessage run_call.simps DbThreadStore_def thread_store.simps db_createMessage_def
    by (intro done_keeps stays_bind_lift stays_bind preserves(1) keeps_pre writes_keep) (rule createMessage_wf)
next
  case (UpsertParticipantCursor c')
  show ?thesis unfolding UpsertParticipantCursor run_call.simps DbThreadStore_def thread_store.simps
  proof (intro done_keeps staysI)
    fix w r w' assume run: "db_upsertParticipantCursor D c' w = (r, w')"
    show "keeps_typed w w'" unfolding keeps_typed_def
    proof
      assume ok: "well_typed (state w)"
      then have "unique cursor_clash (ds_cursors (state w'))"
        using upsertCursor_effect(1) [OF run] by (simp add: well_typed_def tables_wf_def cursors_unique_def)
      with well_typed_rest(1) [OF ok] upsertCursor_frame [OF run] show "well_typed (state w')" by metis
    qed
  qed
next
  case (HeartbeatSession now i)
  show ?thesis unfolding HeartbeatSession run_call.simps DbSessionStore_def session_store.simps db_heartbeatSession_def
    by (rule done_keeps [OF heartbeat_keeps])
next
  case (UpsertFromHeartbeat now i)
  show ?thesis unfolding UpsertFromHeartbeat run_call.simps DbRuntimeRegistryStore_def runtime_store.simps db_upsertFromHeartbeat_def
    by (rule done_keeps [OF heartbeat_keeps])
next
  case (MarkRuntimeStatus a ws st r t)
  show ?thesis unfolding MarkRuntimeStatus run_call.simps DbRuntimeRegistryStore_def runtime_store.simps db_markRuntimeStatus_def
    by (intro done_keeps preserves keeps_pre writes_keep) (simp add: session_row_ok_def)
next
  case (CreateOrReuseTriggerJob j)
  show ?thesis unfolding CreateOrReuseTriggerJob run_call.simps DbTriggerStore_def trigger_store.simps db_createOrReuseTriggerJob_def
    by (intro done_keeps stays_bind keeps_pre writes_keep)
      (simp split: list.split, intro allI conjI impI preserves keeps_pre queries_keep)
next
  case (ClaimDueJobs ws l t)
  show ?thesis unfolding ClaimDueJobs run_call.simps DbTriggerQueueStore_def trigger_queue_store.simps db_claimDueJobs_def
    by (intro done_keeps stays_bind keeps_pre queries_keep parts_keep)
next
  case (RecordAttemptAndTransition i)
  show ?thesis unfolding RecordAttemptAndTransition run_call.simps DbTriggerQueueStore_def trigger_queue_store.simps
      db_recordAttemptAndTransition_def
    by (intro done_keeps transaction_keeps preserves keeps_pre writes_keep)
next
  case (MarkThreadBlocked tid t reason)
  show ?thesis unfolding MarkThreadBlocked run_call.simps DbTriggerQueueStore_def trigger_queue_store.simps db_markThreadBlocked_def
    by (intro done_keeps preserves keeps_pre writes_keep)
next
  case (WriteEvent e)
  show ?thesis unfolding WriteEvent run_call.simps DbAuditStore_def audit_store.simps db_writeEvent_def
    by (intro done_keeps writes_keep)
qed

theorem calls_keep:
  assumes "well_typed (state w)"
  shows "well_typed (state (run_calls D cs w))"
  using assms
proof (induction cs arbitrary: w)
  case (Cons c cs)
  have "keeps_typed w (snd (run_call D c w))"
    by (rule staysD [OF call_keeps, of c w "fst (run_call D c w)"]) simp
  with Cons show ?case by (simp add: keeps_typed_def)
qed simp

end

end
