(* ===== verification/DbProperties.thy ===== *)
theory DbProperties
  imports MainProperties DbConcurrency DbIntegrity
begin

text \<open>
  The properties of the stores on the database. They hold for every client that keeps the contract
  \<open>database\<close>: queries answer from the tables, statements write as asked or fail and write nothing,
  and the unique indexes are kept. The witnesses run them on tables kept in the world.
\<close>

section \<open>The tables at any time\<close>

text \<open>C22: whatever calls the bridge and the worker make on their stores, in any order and whether
  they return or throw, the tables stay well-formed: every thread has a title, a workspace and
  at least one participant, no participant twice; messages have their required fields and positive
  numbers, none twice in a thread; ids of sessions are not blank; keys are unique and participants
  belong to threads.\<close>

theorem stores_keep_tables_well_typed:
  assumes "database D state" "well_typed (state w)"
  shows "well_typed (state (run_calls D calls w))"
  by (rule database.calls_keep [OF assms])

definition table_calls :: "store_call list" where
  "table_calls =
     [CreateThread \<lparr>ct_threadId = ''t2'', ct_workspaceId = ''w'', ct_title = ''two'', ct_type = Workflow,
        ct_participants = [''a'', ''b''], ct_createdAt = Some (At 3), ct_status = None\<rparr>,
      CreateThread \<lparr>ct_threadId = ''t2'', ct_workspaceId = ''w'', ct_title = ''again'', ct_type = Workflow,
        ct_participants = [''c''], ct_createdAt = Some (At 4), ct_status = None\<rparr>,
      UpdateThreadStatus ''t2'' Blocked (At 5) None]"

lemma table_world_typed: "well_typed (dm_database table_world)"
proof -
  have "normal_string ''th''" "normal_string ''w''" "normal_string ''t''" "normal_string ''a''" "normal_string ''m''"
    "normal_string ''b''" "normal_string ''s2''" "normal_string ''hi''" by code_simp+
  moreover have "session_row_ok (row_of_session demo_runtime)" by code_simp
  ultimately show ?thesis
    using table_world_wf
    by (simp add: well_typed_def table_world_def table_rows_def unique_def members_def wf_thread_def
        thread_of_row_def wf_message_def message_of_row_def object_or_undefined_def)
qed

theorem stores_keep_tables_well_typed_witness:
  "well_typed (dm_database (run_calls table_client table_calls table_world)) \<and>
   map tw_title (ds_threads (dm_database (run_calls table_client table_calls table_world))) = [''t'', ''two'']"
proof (rule conjI)
  show "well_typed (dm_database (run_calls table_client table_calls table_world))"
    by (rule stores_keep_tables_well_typed [OF table_db.database_axioms table_world_typed])
  show "map tw_title (ds_threads (dm_database (run_calls table_client table_calls table_world))) = [''t'', ''two'']"
    by code_simp
qed

section \<open>Messages and threads\<close>


definition table_message :: create_message_input where
  "table_message =
     \<lparr>cm_messageId = ''m2'', cm_threadId = ''th'', cm_schemaVersion = js_int 1, cm_seq = js_int 2,
      cm_senderAgentId = ''a'', cm_senderSessionId = ''s1'', cm_kind = Chat, cm_body = ''hello'',
      cm_metadata = Some (JObject [(''k'', JNull)]), cm_inReplyTo = Some ''m'', cm_idempotencyKey = Some ''key'',
      cm_createdAt = Some (At 5)\<rparr>"

lemma table_messages: "messages_unique (dm_database table_world)" "sessions_unique (dm_database table_world)"
  "threads_wf (dm_database table_world)" "cursors_unique (dm_database table_world)"
  using table_world_wf(1) by (simp_all add: tables_wf_def)


text \<open>The first page after the last number holds nothing; once a message with the next number is
  stored, the page after the old last number is that message, and the log is the old one and it.\<close>

theorem appended_message_is_next_page:
  assumes "database D state" "messages_unique (state w)" "db_getLatestMessageSeq D tid w = (Inr n, w1)"
    "db_createMessage D input w1 = (Inr m, w2)" "ms_threadId m = tid" "ms_seq m = n + 1"
    "db_readMessages D tid n l w2 = (Inr page, w3)" "0 < l"
  shows "log_of (state w2) = (log_of (state w))(tid := log_of (state w) tid @ [m]) \<and> rr_messages page = [m] \<and>
    rr_nextSeq page = n + 1 \<and> \<not> rr_hasMore page"
proof (intro conjI)
  have s1: "state w1 = state w" and n: "n = last_seq (log_of (state w) tid)"
    using database.latestSeq_effect [OF assms(1,3,2)] by blast+
  note u1 = assms(2) [folded s1]
  have u2: "messages_unique (state w2)" using database.createMessage_effect(2) [OF assms(1,4) u1 refl] by blast
  have "last_seq (log_of (state w1) (ms_threadId m)) < ms_seq m" using n assms(5,6) s1 by simp
  from database.createMessage_appends [OF assms(1,4) u1 this]
  show log: "log_of (state w2) = (log_of (state w))(tid := log_of (state w) tid @ [m])" by (simp add: s1 assms(5))
  have "\<forall>x\<in>set (log_of (state w) tid). ms_seq x \<le> n" using database.last_seq_log [OF assms(1,2)] n by blast
  then have later: "filter (\<lambda>x. n < ms_seq x) (log_of (state w2) tid) = [m]"
    by (auto simp: log assms(6) filter_empty_conv)
  from database.readMessages_effect(2) [OF assms(1,7) u2 refl] assms(8) later
  show p: "rr_messages page = [m]" and "\<not> rr_hasMore page" by simp_all
  show "rr_nextSeq page = n + 1"
    using database.readMessages_effect(2) [OF assms(1,7) u2 refl] assms(6,8) p by (simp add: js_last_def)
qed

theorem appended_message_is_next_page_witness:
  "\<exists>m w2. db_createMessage table_client table_message table_world = (Inr m, w2) \<and>
     length (log_of (dm_database w2) ''th'') = 2 \<and>
     map ms_messageId (rr_messages (projr (fst (db_readMessages table_client ''th'' 1 5 w2)))) = [''m2'']"
proof -
  let ?n = "db_getLatestMessageSeq table_client ''th'' table_world"
  let ?c = "db_createMessage table_client table_message (snd ?n)"
  let ?m = "projr (fst ?c)" and ?w = "snd ?c"
  let ?p = "db_readMessages table_client ''th'' 1 5 ?w"
  have n: "?n = (Inr 1, table_world)" by code_simp
  have c: "?c = (Inr ?m, ?w)" by (rule run_ok) code_simp
  have m: "ms_threadId ?m = ''th''" "ms_seq ?m = 1 + 1" "ms_messageId ?m = ''m2''" by code_simp+
  have p: "?p = (Inr (projr (fst ?p)), snd ?p)" by (rule run_ok) code_simp
  note res = appended_message_is_next_page [OF table_db.database_axioms table_messages(1) n, of table_message ?m ?w 5,
      OF _ m(1,2) p]
  have "db_createMessage table_client table_message table_world = (Inr ?m, ?w)" using c n by simp
  moreover have "length (log_of (dm_database table_world) ''th'') = 1" by code_simp
  ultimately show ?thesis using res m(3) by auto
qed

text \<open>A thread that is created is new under its id, and reads back with all that it was created
  with, the order of the participants apart; a cursor that is stored reads back as it is, and the
  cursors of others stay.\<close>

theorem threads_and_cursors_read_back:
  assumes "database D state" "threads_wf (state w)" "db_createThread D input w = (Inr t, w1)"
    "db_getThreadById D (th_threadId t) w1 = (Inr found, w2)" "cursors_unique (state w)"
    "db_upsertParticipantCursor D c w = (Inr c', v1)"
    "db_getParticipantCursor D tid agent v1 = (Inr found', v2)"
  shows "thread_row_at (state w) (th_threadId t) = None \<and>
    (\<exists>ps. found = Some (t\<lparr>th_participants := ps\<rparr>) \<and> mset ps = mset (th_participants t)) \<and>
    found' = (if (tid, agent) = (cu_threadId c, cu_agentId c) then Some c else cursors_view (state w) (tid, agent))"
proof (intro conjI)
  note n = database.createThread_effect(2) [OF assms(1,3,2) refl]
  then have wf: "threads_wf (state w1)" and st: "stored_thread (state w1) (th_threadId t) t" by blast+
  from n show "thread_row_at (state w) (th_threadId t) = None" by blast
  have "found \<noteq> None"
    using database.getThread_effect(2) [OF assms(1,4) wf] st by (auto simp: stored_thread_def)
  then obtain t' where t': "found = Some t'" by blast
  from database.getThread_effect(3) [OF assms(1,4) wf] have "stored_thread (state w1) (th_threadId t) t'"
    by (simp add: t')
  with st have "row_of_thread t' = row_of_thread t" "mset (th_participants t') = mset (th_participants t)"
    by (simp_all add: stored_thread_def)
  then show "\<exists>ps. found = Some (t\<lparr>th_participants := ps\<rparr>) \<and> mset ps = mset (th_participants t)"
    by (cases t, cases t') (auto simp: t' row_of_thread_def)
  note up = database.upsertCursor_effect [OF assms(1,6,5)]
  from database.getCursor_effect(2) [OF assms(1,7) up(1) refl] up(3) [OF refl]
  show "found' = (if (tid, agent) = (cu_threadId c, cu_agentId c) then Some c else cursors_view (state w) (tid, agent))"
    by simp
qed

definition table_thread :: create_thread_input where
  "table_thread = \<lparr>ct_threadId = '' t2'', ct_workspaceId = ''w'', ct_title = ''two'', ct_type = Workflow,
     ct_participants = [''a'', ''b''], ct_createdAt = Some (At 3), ct_status = None\<rparr>"

definition table_cursor :: cursor where
  "table_cursor = \<lparr>cu_threadId = ''th'', cu_agentId = ''a'', cu_lastReadSeq = 1,
     cu_lastAckedMessageId = Some ''m'', cu_updatedAt = 4\<rparr>"

theorem threads_and_cursors_read_back_witness:
  "\<exists>t ps. fst (db_createThread table_client table_thread table_world) = Inr t \<and>
     fst (db_getThreadById table_client ''t2'' (snd (db_createThread table_client table_thread table_world))) =
       Inr (Some (t\<lparr>th_participants := ps\<rparr>)) \<and> mset ps = {#''a'', ''b''#}"
proof -
  let ?c = "db_createThread table_client table_thread table_world"
  let ?g = "db_getThreadById table_client ''t2'' (snd ?c)"
  let ?u = "db_upsertParticipantCursor table_client table_cursor table_world"
  let ?f = "db_getParticipantCursor table_client ''th'' ''a'' (snd ?u)"
  have c: "?c = (Inr (projr (fst ?c)), snd ?c)" by (rule run_ok) code_simp
  have t: "th_threadId (projr (fst ?c)) = ''t2''" "th_participants (projr (fst ?c)) = [''a'', ''b'']" by code_simp+
  have g: "?g = (Inr (projr (fst ?g)), snd ?g)" by (rule run_ok) code_simp
  have u: "?u = (Inr (projr (fst ?u)), snd ?u)" by (rule run_ok) code_simp
  have f: "?f = (Inr (projr (fst ?f)), snd ?f)" by (rule run_ok) code_simp
  from threads_and_cursors_read_back [OF table_db.database_axioms table_messages(3) c _ table_messages(4) u f,
      unfolded t, OF g]
  obtain ps where "projr (fst ?g) = Some (projr (fst ?c)\<lparr>th_participants := ps\<rparr>)" "mset ps = {#''a'', ''b''#}" by auto
  with c g show ?thesis by (metis fst_conv)
qed

text \<open>C15: a change of status on the database is a transition that the domain allows from the status the
  thread has, is made only if that is the status the caller expects, and alters no other thread;
  if it answers that nothing was changed, or throws, the tables are as before.\<close>

theorem status_change_compares_and_sets:
  assumes "database D state" "threads_wf (state w)"
    "db_updateThreadStatus D tid new changedAt expected w = (r, w')"
  shows "case r of
      Inr (Some t) \<Rightarrow> \<exists>t0. stored_thread (state w) tid t0 \<and> transitionThreadStatus t0 new changedAt = Inr t \<and>
        (expected \<noteq> None \<longrightarrow> expected = Some (th_status t0)) \<and> stored_thread (state w') tid t \<and>
        (\<forall>other x. other \<noteq> tid \<longrightarrow> stored_thread (state w') other x = stored_thread (state w) other x)
    | _ \<Rightarrow> state w' = state w"
proof -
  note e = database.updateStatus_effect [OF assms(1,3,2)]
  show ?thesis
  proof (cases "\<exists>t. r = Inr (Some t)")
    case True
    then obtain t where t: "r = Inr (Some t)" ..
    from e(4) [OF t] show ?thesis unfolding t by (auto split: option.split_asm)
  next
    case False
    with e(2,3) show ?thesis by (auto split: sum.split option.split)
  qed
qed

theorem status_change_compares_and_sets_witness:
  "(\<exists>t t0 w'. db_updateThreadStatus table_client ''th'' Blocked (At 9) (Some Active) table_world = (Inr (Some t), w') \<and>
     stored_thread (dm_database table_world) ''th'' t0 \<and> th_status t0 = Active \<and>
     stored_thread (dm_database w') ''th'' t \<and> th_status t = Blocked) \<and>
   (\<exists>w'. db_updateThreadStatus table_client ''th'' Blocked (At 9) (Some Closed) table_world = (Inr None, w') \<and>
     dm_database w' = dm_database table_world)"
proof
  let ?u = "\<lambda>x. db_updateThreadStatus table_client ''th'' Blocked (At 9) (Some x) table_world"
  note e = status_change_compares_and_sets [OF table_db.database_axioms table_messages(3)]
  have a: "?u Active = (Inr (Some (the (projr (fst (?u Active))))), snd (?u Active))"
    using run_ok [of "?u Active"] by code_simp
  have s: "th_status (the (projr (fst (?u Active)))) = Blocked" by code_simp
  show "\<exists>t t0 w'. ?u Active = (Inr (Some t), w') \<and> stored_thread (dm_database table_world) ''th'' t0 \<and>
     th_status t0 = Active \<and> stored_thread (dm_database w') ''th'' t \<and> th_status t = Blocked"
    using e [OF a] a s by (simp only: sum.case option.case) (metis option.distinct(1) option.inject)
  have b: "?u Closed = (Inr None, snd (?u Closed))" by code_simp
  show "\<exists>w'. ?u Closed = (Inr None, w') \<and> dm_database w' = dm_database table_world"
    using e [OF b] b by auto
qed

section \<open>Sessions\<close>









section \<open>The queue\<close>

text \<open>C16: a claim on the database keeps what the processor relies on of its store: it takes different
  due jobs of the workspace, the oldest first and no more than asked for, marks exactly these as
  being triggered, and returns them as they are stored; an attempt is recorded once, for a job
  that is being triggered, and sets its new status.\<close>

theorem queue_on_database_refines_contract:
  assumes "database D state"
  shows "trigger_queue_contract (DbTriggerQueueStore D) (\<lambda>w. jobs_view (state w)) (\<lambda>w. jobs_unique (state w)) \<and>
    runtime_registry_contract (DbRuntimeRegistryStore D now) (\<lambda>w. sessions_view (state w)) Pair
      (\<lambda>w. sessions_unique (state w))"
  using database.DbTriggerQueueStore_contract [OF assms] database.DbRuntimeRegistryStore_contract [OF assms] by blast

theorem queue_on_database_refines_contract_witness:
  "trigger_queue_contract (DbTriggerQueueStore table_client) (\<lambda>w. jobs_view (dm_database w))
     (\<lambda>w. jobs_unique (dm_database w)) \<and> jobs_unique (dm_database table_world)"
  using queue_on_database_refines_contract [OF table_db.database_axioms] table_world_wf(3) by blast

text \<open>C4: claims, settlements and new jobs may interleave statement by statement, from any number of
  overlapping ticks and workers on one database: no job is ever held by two of them, and each job
  that is held is marked as being triggered.\<close>

theorem claims_never_overlap:
  assumes "database D state" "jobs_unique (state w)"
    "\<forall>i. wk_candidates (f i) = [] \<and> wk_held (f i) = []" "(claim_step D)\<^sup>*\<^sup>* (w, f) (w', f')"
  shows "(i \<noteq> k \<longrightarrow> tj_triggerId ` set (wk_held (f' i)) \<inter> tj_triggerId ` set (wk_held (f' k)) = {}) \<and>
    (\<forall>job\<in>set (wk_held (f' i)). \<exists>j. jobs_view (state w') (tj_triggerId job) = Some j \<and> tj_status j = Triggering)"
proof -
  have "claims_apart (state w) f" using assms(2,3) by (simp add: claims_apart_def)
  from database.claims_stay_apart [OF assms(1,4) this] show ?thesis by (simp add: claims_apart_def)
qed

text \<open>Two runs that read the same candidate: the first takes it, the second gets nothing.\<close>

definition idle_run :: claim_run where
  "idle_run = \<lparr>wk_candidates = [], wk_claimedAt = 0, wk_held = []\<rparr>"

definition looked_run :: claim_run where
  "looked_run = \<lparr>wk_candidates = ds_jobs table_rows, wk_claimedAt = 50, wk_held = []\<rparr>"

abbreviation race_taken :: "(exn + job_row list) \<times> main_world" where
  "race_taken \<equiv> try_candidate table_client 50 (hd (ds_jobs table_rows)) table_world"

lemma race_look:
  assumes "f i = idle_run"
  shows "claim_step table_client (table_world, f) (table_world, f(i := looked_run))"
proof -
  have "db_findMany (dc_jobs table_client) (due_row ''w'' 50) (Asc jw_createdAt) (Some 1) table_world =
      (Inr (ds_jobs table_rows), table_world)" by code_simp
  from look [of table_client "''w''" 50 1 table_world _ _ f i, OF this] show ?thesis
    by (simp add: assms idle_run_def looked_run_def)
qed

lemma race_take:
  assumes "f i = looked_run"
  shows "fst (try_candidate table_client 50 (hd (ds_jobs table_rows)) w) = Inr rows \<Longrightarrow>
    claim_step table_client (w, f) (snd (try_candidate table_client 50 (hd (ds_jobs table_rows)) w),
      f(i := \<lparr>wk_candidates = [], wk_claimedAt = 50, wk_held = claimed_with [] rows\<rparr>))"
proof -
  assume rows: "fst (try_candidate table_client 50 (hd (ds_jobs table_rows)) w) = Inr rows"
  have "wk_candidates (f i) = hd (ds_jobs table_rows) # []" by (simp add: assms looked_run_def table_rows_def)
  moreover have "wk_claimedAt (f i) = 50" "wk_held (f i) = []" by (simp_all add: assms looked_run_def)
  moreover have "try_candidate table_client 50 (hd (ds_jobs table_rows)) w =
      (Inr rows, snd (try_candidate table_client 50 (hd (ds_jobs table_rows)) w))" using rows by (simp add: prod_eq_iff)
  ultimately show ?thesis
    using take_one [where D = table_client and f = f and i = i and c = "hd (ds_jobs table_rows)" and cs = "[]"
        and updated = rows and w = w and w' = "snd (try_candidate table_client 50 (hd (ds_jobs table_rows)) w)"]
    by (simp add: assms looked_run_def)
qed

lemma race_runs:
  "fst race_taken = Inr [row_of_job ((demo_job ''j1'' 10)\<lparr>tj_status := Triggering, tj_updatedAt := 50\<rparr>)]"
  "fst (try_candidate table_client 50 (hd (ds_jobs table_rows)) (snd race_taken)) = Inr []"
  by code_simp+

theorem claims_never_overlap_witness:
  "\<exists>w' f'. (claim_step table_client)\<^sup>*\<^sup>* (table_world, \<lambda>_::nat. idle_run) (w', f') \<and>
     map tj_triggerId (wk_held (f' 0)) = [''j1''] \<and> wk_held (f' 1) = [] \<and>
     tj_triggerId ` set (wk_held (f' 0)) \<inter> tj_triggerId ` set (wk_held (f' 1)) = {}"
proof -
  let ?f = "(\<lambda>_::nat. idle_run)(0 := looked_run, 1 := looked_run)"
  let ?taken = "\<lambda>rows. \<lparr>wk_candidates = [], wk_claimedAt = 50, wk_held = claimed_with [] rows\<rparr>"
  let ?rows = "[row_of_job ((demo_job ''j1'' 10)\<lparr>tj_status := Triggering, tj_updatedAt := 50\<rparr>)]"
  let ?g = "?f(0 := ?taken ?rows)" and ?w = "snd race_taken"
  let ?h = "?g(1 := ?taken [])" and ?v = "snd (try_candidate table_client 50 (hd (ds_jobs table_rows)) ?w)"
  have "claim_step table_client (table_world, \<lambda>_::nat. idle_run) (table_world, (\<lambda>_::nat. idle_run)(0 := looked_run))"
    by (rule race_look) simp
  moreover have "claim_step table_client (table_world, (\<lambda>_. idle_run)(0 := looked_run)) (table_world, ?f)"
    by (rule race_look) simp
  moreover have "claim_step table_client (table_world, ?f) (?w, ?g)"
    by (rule race_take [OF _ race_runs(1)]) simp
  moreover have "claim_step table_client (?w, ?g) (?v, ?h)"
    by (rule race_take [OF _ race_runs(2)]) simp
  ultimately have steps: "(claim_step table_client)\<^sup>*\<^sup>* (table_world, \<lambda>_. idle_run) (?v, ?h)"
    by (meson converse_rtranclp_into_rtranclp rtranclp.rtrancl_refl)
  have "\<forall>i::nat. wk_candidates idle_run = [] \<and> wk_held idle_run = []" by (simp add: idle_run_def)
  from claims_never_overlap [OF table_db.database_axioms table_world_wf(3) this steps, of 0 1]
  have "tj_triggerId ` set (wk_held (?h 0)) \<inter> tj_triggerId ` set (wk_held (?h 1)) = {}" by simp
  moreover have "map tj_triggerId (wk_held (?h 0)) = [''j1'']" "wk_held (?h 1) = []"
    by (simp_all add: claimed_with_def demo_job_def)
  ultimately show ?thesis using steps by (intro exI [of _ ?v] exI [of _ ?h] conjI)
qed

section \<open>The worker over a database\<close>



end
