(* ===== verification/JsNumber.thy ===== *)
theory JsNumber
  imports DomainCore "HOL-Library.Log_Nat"
begin

text \<open>
  \<open>Number(text)\<close> as the command line uses it: blanks are dropped, an empty text is 0, then a
  literal with a prefix \<open>0x\<close>, \<open>0o\<close> or \<open>0b\<close>, or \<open>Infinity\<close>, or a decimal with an optional
  fraction and exponent, rounded to the nearest double; any other text is NaN. The two zeros are
  one number.
\<close>

section \<open>Doubles\<close>

definition round_half_even :: "rat \<Rightarrow> int" where
  "round_half_even q =
     (let f = \<lfloor>q\<rfloor>; d = q - of_int f
      in if d < 1/2 then f else if 1/2 < d then f + 1 else if even f then f else f + 1)"

text \<open>
  A double is \<open>m * 2^k\<close> with \<open>m\<close> up to \<open>2^53\<close> and \<open>k\<close> from -1074 to 971; what is rounded to
  \<open>2^1024\<close> or more is infinite. The exponent \<open>e\<close> with \<open>2^e \<le> a < 2^(e+1)\<close>.\<close>

definition binary_exponent :: "rat \<Rightarrow> int" where
  "binary_exponent a =
     (case quotient_of a of (n, d) \<Rightarrow>
        let e = bitlen n - bitlen d in if 2 powi e \<le> a then e else e - 1)"

definition to_double :: "rat \<Rightarrow> js_number" where
  "to_double r =
     (if r = 0 then Finite 0
      else
        let a = \<bar>r\<bar>; k = max (binary_exponent a - 52) (- 1074);
            m = round_half_even (a / 2 powi k)
        in if 971 < k \<or> k = 971 \<and> m = 2 ^ 53 then Infinite (0 < r)
           else Finite (sgn r * (of_int m * 2 powi k)))"

section \<open>Literals\<close>

definition digit_value :: "char \<Rightarrow> nat option" where
  "digit_value c =
     (let n = of_char c
      in if 48 \<le> n \<and> n \<le> 57 then Some (n - 48)
         else if 97 \<le> n \<and> n \<le> 122 then Some (n - 87)
         else if 65 \<le> n \<and> n \<le> 90 then Some (n - 55) else None)"

definition is_digit :: "nat \<Rightarrow> char \<Rightarrow> bool" where
  "is_digit base c = (case digit_value c of None \<Rightarrow> False | Some d \<Rightarrow> d < base)"

definition digits_value :: "nat \<Rightarrow> string \<Rightarrow> int" where
  "digits_value base s =
     foldl (\<lambda>n c. n * int base + (case digit_value c of None \<Rightarrow> 0 | Some d \<Rightarrow> int d)) 0 s"

definition prefixed_literal :: "nat \<Rightarrow> string \<Rightarrow> js_number" where
  "prefixed_literal base ds =
     (if ds \<noteq> [] \<and> list_all (is_digit base) ds then to_double (of_int (digits_value base ds)) else NaN)"

definition signed :: "string \<Rightarrow> bool \<times> string" where
  "signed s =
     (case s of [] \<Rightarrow> (False, [])
      | c # cs \<Rightarrow> if c = CHR ''-'' then (True, cs) else if c = CHR ''+'' then (False, cs) else (False, s))"

text \<open>A decimal without its sign: its value, or none.\<close>

definition unsigned_decimal :: "string \<Rightarrow> rat option" where
  "unsigned_decimal s =
     (let whole = takeWhile (is_digit 10) s; r = dropWhile (is_digit 10) s;
          fraction = (case r of [] \<Rightarrow> [] | c # cs \<Rightarrow> if c = CHR ''.'' then takeWhile (is_digit 10) cs else []);
          rest = (case r of [] \<Rightarrow> [] | c # cs \<Rightarrow> if c = CHR ''.'' then dropWhile (is_digit 10) cs else r);
          mantissa = of_int (digits_value 10 (whole @ fraction)) / 10 ^ length fraction
      in if whole @ fraction = [] then None
         else case rest of
             [] \<Rightarrow> Some mantissa
           | c # cs \<Rightarrow>
               if c \<noteq> CHR ''e'' \<and> c \<noteq> CHR ''E'' then None
               else case signed cs of (negative, ds) \<Rightarrow>
                 if ds = [] \<or> \<not> list_all (is_digit 10) ds then None
                 else if negative then Some (mantissa / 10 ^ nat (digits_value 10 ds))
                 else Some (mantissa * 10 ^ nat (digits_value 10 ds)))"

definition decimal_literal :: "string \<Rightarrow> js_number" where
  "decimal_literal s =
     (case signed s of (negative, t) \<Rightarrow>
        if t = ''Infinity'' then Infinite (\<not> negative)
        else case unsigned_decimal t of None \<Rightarrow> NaN
          | Some a \<Rightarrow> to_double (if negative then - a else a))"

definition Number :: "string \<Rightarrow> js_number" where
  "Number text =
     (let s = trim text; tag = take 2 s; ds = drop 2 s
      in if s = [] then Finite 0
         else if tag = ''0x'' \<or> tag = ''0X'' then prefixed_literal 16 ds
         else if tag = ''0o'' \<or> tag = ''0O'' then prefixed_literal 8 ds
         else if tag = ''0b'' \<or> tag = ''0B'' then prefixed_literal 2 ds
         else decimal_literal s)"

lemma Number_examples:
  "Number '' 20 '' = js_int 20" "Number ''0x10'' = js_int 16" "Number ''1e2'' = js_int 100"
  "Number ''-5'' = js_int (- 5)" "Number ''1.5'' = Finite (3/2)" "Number ''abc'' = NaN"
  "Number ''9007199254740993'' = js_int 9007199254740992"
  by code_simp+

section \<open>The text of an integer\<close>

lemma digits_value_snoc: "digits_value 10 (s @ [c]) = digits_value 10 s * 10 + (case digit_value c of None \<Rightarrow> 0 | Some d \<Rightarrow> int d)"
  by (simp add: digits_value_def)

lemma digit_of: "d < 10 \<Longrightarrow> digit_value (char_of (48 + d)) = Some d"
  by (simp add: digit_value_def)

lemma show_nat_digits:
  "digits_value 10 (show_nat n) = int n" "list_all (is_digit 10) (show_nat n)" "show_nat n \<noteq> []"
proof (induction n rule: show_nat.induct)
  case (1 n)
  have "digits_value 10 (show_nat n) = int n \<and> list_all (is_digit 10) (show_nat n) \<and> show_nat n \<noteq> []"
  proof (cases "n < 10")
    case True
    then have "show_nat n = [char_of (48 + n)]" by (simp add: show_nat.simps [of n])
    with True show ?thesis by (simp add: digits_value_def is_digit_def digit_of)
  next
    case False
    then have "show_nat n = show_nat (n div 10) @ [char_of (48 + n mod 10)]" by (simp add: show_nat.simps [of n])
    moreover have "int (n div 10) * 10 + int (n mod 10) = int n" by presburger
    ultimately show ?thesis
      using 1 [OF False] by (simp add: digits_value_snoc is_digit_def [of 10 "char_of _"] digit_of)
  qed
  then show "digits_value 10 (show_nat n) = int n" "list_all (is_digit 10) (show_nat n)" "show_nat n \<noteq> []" by blast+
qed

lemma round_of_int: "round_half_even (of_int k) = k"
  by (simp add: round_half_even_def)

text \<open>An integer of at most 53 bits is a double.\<close>

lemma to_double_int:
  assumes "0 < n" "n < 2 ^ 53"
  shows "to_double (of_int n) = js_int n"
proof -
  have "bitlen n \<le> 53" using assms by (simp add: bitlen_le_iff_power)
  moreover have "bitlen (1::int) = 1" by (simp add: compute_bitlen)
  ultimately have e: "binary_exponent (of_int n) \<le> 52"
    using assms by (auto simp: binary_exponent_def Let_def)
  define k where "k = max (binary_exponent (of_int n) - 52) (- 1074)"
  have k: "k \<le> 0" using e by (simp add: k_def)
  have p: "(2 :: rat) powi k = inverse (2 ^ nat (- k))"
    using k unfolding power_int_def power_inverse by auto
  have q: "(of_int n :: rat) / 2 powi k = of_int (n * 2 ^ nat (- k))"
    unfolding p by (simp add: divide_inverse)
  have r: "round_half_even (of_int n / 2 powi k) = n * 2 ^ nat (- k)"
    unfolding q by (rule round_of_int)
  have m: "of_int (n * 2 ^ nat (- k)) * (2 :: rat) powi k = of_int n"
    unfolding p by simp
  have n: "\<bar>of_int n :: rat\<bar> = of_int n" "sgn (of_int n :: rat) = 1" "(of_int n :: rat) \<noteq> 0"
    using assms(1) by simp_all
  from k have "\<not> (971 < k \<or> k = 971 \<and> n * 2 ^ nat (- k) = 2 ^ 53)" by linarith
  then show ?thesis
    unfolding to_double_def n(1,2) Let_def k_def [symmetric] r m if_not_P [OF n(3)] if_not_P by simp
qed

lemma digit_plain:
  assumes "is_digit 10 x"
  shows "\<not> is_space x" "x \<noteq> CHR ''x''" "x \<noteq> CHR ''X''" "x \<noteq> CHR ''o''" "x \<noteq> CHR ''O''"
    "x \<noteq> CHR ''b''" "x \<noteq> CHR ''B''" "x \<noteq> CHR ''-''" "x \<noteq> CHR ''+''" "x \<noteq> CHR ''I''"
  using assms by (auto simp: is_digit_def digit_value_def is_space_def)

lemma decimal_digits:
  assumes "list_all (is_digit 10) ds" "ds \<noteq> []"
  shows "Number ds = to_double (of_int (digits_value 10 ds))"
proof -
  have plain: "is_digit 10 x" if "x \<in> set ds" for x using assms(1) that by (simp add: list_all_iff)
  have trim: "trim ds = ds" using plain assms(2) by (intro trim_same) (auto simp: digit_plain(1))
  have tag: "take 2 ds \<noteq> [c, x]" if "\<not> is_digit 10 x" for c x
  proof
    assume "take 2 ds = [c, x]"
    then have "x \<in> set (take 2 ds)" by simp
    with plain that show False by (blast dest: in_set_takeD)
  qed
  obtain c cs where c: "ds = c # cs" using assms(2) by (cases ds) auto
  with plain have "is_digit 10 c" by simp
  note c' = digit_plain [OF this]
  have all: "takeWhile (is_digit 10) ds = ds" "dropWhile (is_digit 10) ds = []"
    using plain by (simp_all add: takeWhile_eq_all_conv dropWhile_eq_Nil_conv)
  then have u: "unsigned_decimal ds = Some (of_int (digits_value 10 ds))"
    using assms(2) unfolding unsigned_decimal_def all by simp
  have "decimal_literal ds = to_double (of_int (digits_value 10 ds))"
    using c' u by (simp add: decimal_literal_def signed_def c)
  moreover have "\<not> is_digit 10 x" if "x \<in> {CHR ''x'', CHR ''X'', CHR ''o'', CHR ''O'', CHR ''b'', CHR ''B''}" for x
    using that digit_plain by blast
  ultimately show ?thesis using tag assms(2) by (simp add: Number_def trim)
qed

lemma Number_show_int:
  assumes "0 < n" "n < 2 ^ 53"
  shows "Number (show_int n) = js_int n"
proof -
  have "Number (show_nat (nat n)) = to_double (of_int (int (nat n)))"
    unfolding show_nat_digits(1) [of "nat n", symmetric] by (rule decimal_digits [OF show_nat_digits(2,3)])
  with to_double_int [OF assms] assms(1) show ?thesis by (simp add: show_int_def)
qed

end
