(* ===== verification/OperatorCommands.thy ===== *)
theory OperatorCommands
  imports JsNumber Exceptions
begin

text \<open>
  The command line of the operator (\<open>apps/operator-cli/src/commands.ts\<close>): options, their checks,
  and the four commands. An option may have a value, which does not start with \<open>--\<close>; without one
  its value is \<open>true\<close>.
\<close>

section \<open>Options\<close>

definition DEFAULT_LIMIT_MESSAGES :: int where
  "DEFAULT_LIMIT_MESSAGES = 20"

definition DEFAULT_LIMIT_TRIGGERS :: int where
  "DEFAULT_LIMIT_TRIGGERS = 20"

type_synonym options = "(string, string) js_map"

text \<open>The loop over the arguments. An option takes the next argument if that is not an option.\<close>

function parse_options :: "string list \<Rightarrow> options \<Rightarrow> exn + options" where
  "parse_options [] options = Inr options"
| "parse_options (token # rest) options =
     (if \<not> starts_with token ''--'' then Inl (OtherExn (''Unexpected positional argument: '' @ token))
      else
        let key = drop 2 token
        in if length key = 0 then Inl (OtherExn ''Invalid empty option name'')
           else case rest of
               [] \<Rightarrow> parse_options [] (js_set key ''true'' options)
             | next # later \<Rightarrow>
                 if starts_with next ''--'' then parse_options rest (js_set key ''true'' options)
                 else parse_options later (js_set key next options))"
  by pat_completeness auto
termination
  by (relation "measure (\<lambda>(args, _). length args)") auto

definition parseOptions :: "string list \<Rightarrow> exn + options" where
  "parseOptions argv = parse_options argv []"

definition readRequiredString :: "options \<Rightarrow> string \<Rightarrow> exn + string" where
  "readRequiredString options key =
     (case js_get options key of
        None \<Rightarrow> Inl (OtherExn (''Missing required option --'' @ key))
      | Some value \<Rightarrow>
          if length (trim value) = 0 then Inl (OtherExn (''Missing required option --'' @ key))
          else Inr value)"

definition readOptionalPositiveInt :: "options \<Rightarrow> string \<Rightarrow> int \<Rightarrow> exn + int" where
  "readOptionalPositiveInt options key fallback =
     (case js_get options key of
        None \<Rightarrow> Inr fallback
      | Some raw \<Rightarrow>
          (case Number raw of
             Finite value \<Rightarrow>
               if \<not> isInteger (Finite value) \<or> value \<le> 0
               then Inl (OtherExn (''Option --'' @ key @ '' must be a positive integer''))
               else Inr \<lfloor>value\<rfloor>
           | _ \<Rightarrow> Inl (OtherExn (''Option --'' @ key @ '' must be a positive integer''))))"

definition readOptionalBool :: "options \<Rightarrow> string \<Rightarrow> exn + bool" where
  "readOptionalBool options key =
     (case js_get options key of
        None \<Rightarrow> Inr False
      | Some raw \<Rightarrow>
          if raw = ''true'' then Inr True
          else if raw = ''false'' then Inr False
          else Inl (OtherExn (''Option --'' @ key @ '' must be true or false'')))"

definition readActorAgentId :: "options \<Rightarrow> exn + string" where
  "readActorAgentId options =
     (case js_get options ''actor-agent-id'' of
        None \<Rightarrow> Inr ''human_operator''
      | Some value \<Rightarrow>
          if length (trim value) = 0 then Inl (OtherExn ''Option --actor-agent-id must not be empty'')
          else Inr value)"

section \<open>Commands\<close>

datatype operator_command =
    InspectThread (oc_threadId: string) (oc_limitMessages: int) (oc_limitTriggers: int) (oc_json: bool)
  | EscalateThread (oc_threadId: string) (oc_reason: string) (oc_actorAgentId: string) (oc_json: bool)
  | UnblockThread (oc_threadId: string) (oc_reason: string) (oc_actorAgentId: string) (oc_json: bool)
  | OverrideCloseThread (oc_threadId: string) (oc_reason: string) (oc_actorAgentId: string) (oc_json: bool)

text \<open>The part the three status commands share.\<close>

definition status_command ::
  "(string \<Rightarrow> string \<Rightarrow> string \<Rightarrow> bool \<Rightarrow> operator_command) \<Rightarrow> options \<Rightarrow> bool \<Rightarrow> exn + operator_command" where
  "status_command kind options json =
     ebind (readRequiredString options ''thread-id'') (\<lambda>threadId.
     ebind (readRequiredString options ''reason'') (\<lambda>reason.
     ebind (readActorAgentId options) (\<lambda>actorAgentId.
       Inr (kind threadId reason actorAgentId json))))"

definition parseOperatorCommand :: "string list \<Rightarrow> exn + operator_command" where
  "parseOperatorCommand argv =
     (case argv of
        [] \<Rightarrow> Inl (OtherExn ''Missing command. Expected inspect-thread | escalate-thread | unblock-thread | override-close-thread'')
      | commandName # rest \<Rightarrow>
          ebind (parseOptions rest) (\<lambda>options.
          ebind (readOptionalBool options ''json'') (\<lambda>json.
          if commandName = ''inspect-thread'' then
            ebind (readRequiredString options ''thread-id'') (\<lambda>threadId.
            ebind (readOptionalPositiveInt options ''limit-messages'' DEFAULT_LIMIT_MESSAGES) (\<lambda>limitMessages.
            ebind (readOptionalPositiveInt options ''limit-triggers'' DEFAULT_LIMIT_TRIGGERS) (\<lambda>limitTriggers.
              Inr (InspectThread threadId limitMessages limitTriggers json))))
          else if commandName = ''escalate-thread'' then status_command EscalateThread options json
          else if commandName = ''unblock-thread'' then status_command UnblockThread options json
          else if commandName = ''override-close-thread'' then status_command OverrideCloseThread options json
          else Inl (OtherExn (''Unknown command: '' @ commandName)))))"

section \<open>What is accepted\<close>

definition command_ok :: "operator_command \<Rightarrow> bool" where
  "command_ok c \<longleftrightarrow> trim (oc_threadId c) \<noteq> [] \<and>
     (case c of InspectThread _ m t _ \<Rightarrow> 0 < m \<and> 0 < t
      | EscalateThread _ r a _ \<Rightarrow> trim r \<noteq> [] \<and> trim a \<noteq> []
      | UnblockThread _ r a _ \<Rightarrow> trim r \<noteq> [] \<and> trim a \<noteq> []
      | OverrideCloseThread _ r a _ \<Rightarrow> trim r \<noteq> [] \<and> trim a \<noteq> [])"

lemma read_Inr:
  "readRequiredString m k = Inr v \<longleftrightarrow> js_get m k = Some v \<and> trim v \<noteq> []"
  "readActorAgentId m = Inr v \<Longrightarrow> trim v \<noteq> []"
  "readOptionalPositiveInt m k d = Inr n \<Longrightarrow> 0 < d \<Longrightarrow> 0 < n"
proof -
  show "readRequiredString m k = Inr v \<longleftrightarrow> js_get m k = Some v \<and> trim v \<noteq> []"
    by (auto simp: readRequiredString_def split: option.split)
  show "trim v \<noteq> []" if "readActorAgentId m = Inr v"
    using that by (auto simp: readActorAgentId_def split: option.split_asm if_split_asm) code_simp
  show "0 < n" if "readOptionalPositiveInt m k d = Inr n" "0 < d"
    using that by (auto simp: readOptionalPositiveInt_def split: option.split_asm js_number.split_asm if_split_asm)
qed

text \<open>The arguments that give a command. An empty list of arguments follows a flag.\<close>

definition option_args :: "(string \<times> string) list \<Rightarrow> bool \<Rightarrow> string list" where
  "option_args kvs json = concat (map (\<lambda>(k, v). [''--'' @ k, v]) kvs) @ (if json then [''--json''] else [])"

fun argv_of :: "operator_command \<Rightarrow> string list" where
  "argv_of (InspectThread i m t json) = ''inspect-thread'' #
     option_args [(''thread-id'', i), (''limit-messages'', show_int m), (''limit-triggers'', show_int t)] json"
| "argv_of (EscalateThread i r a json) = ''escalate-thread'' #
     option_args [(''thread-id'', i), (''reason'', r), (''actor-agent-id'', a)] json"
| "argv_of (UnblockThread i r a json) = ''unblock-thread'' #
     option_args [(''thread-id'', i), (''reason'', r), (''actor-agent-id'', a)] json"
| "argv_of (OverrideCloseThread i r a json) = ''override-close-thread'' #
     option_args [(''thread-id'', i), (''reason'', r), (''actor-agent-id'', a)] json"

text \<open>A value that looks like an option cannot be given, nor a number beyond 53 bits.\<close>

definition printable :: "operator_command \<Rightarrow> bool" where
  "printable c \<longleftrightarrow> \<not> starts_with (oc_threadId c) ''--'' \<and>
     (case c of InspectThread _ m t _ \<Rightarrow> m < 2 ^ 53 \<and> t < 2 ^ 53
      | EscalateThread _ r a _ \<Rightarrow> \<not> starts_with r ''--'' \<and> \<not> starts_with a ''--''
      | UnblockThread _ r a _ \<Rightarrow> \<not> starts_with r ''--'' \<and> \<not> starts_with a ''--''
      | OverrideCloseThread _ r a _ \<Rightarrow> \<not> starts_with r ''--'' \<and> \<not> starts_with a ''--'')"

lemma parse_option_args:
  assumes "\<forall>(k, v)\<in>set kvs. k \<noteq> [] \<and> \<not> starts_with v ''--''"
  shows "parse_options (option_args kvs json) options =
    Inr ((if json then js_set ''json'' ''true'' else id) (foldl (\<lambda>m (k, v). js_set k v m) options kvs))"
  using assms
proof (induction kvs arbitrary: options)
  case Nil
  then show ?case by (simp add: option_args_def starts_with_def)
next
  case (Cons kv kvs)
  obtain k v where kv: "kv = (k, v)" by (cases kv)
  from Cons.prems kv have "\<not> starts_with v ''--''" "k \<noteq> []" by auto
  moreover have "option_args (kv # kvs) json = (''--'' @ k) # v # option_args kvs json"
    by (simp add: option_args_def kv)
  moreover have "starts_with (''--'' @ k) ''--''" by (simp add: starts_with_def)
  ultimately show ?case using Cons.IH [of "js_set k v options"] Cons.prems kv by simp
qed

section \<open>The arguments of a command give that command\<close>

lemma parsed_command_ok:
  assumes "parseOperatorCommand argv = Inr c"
  shows "command_ok c"
  using assms
  by (auto simp: parseOperatorCommand_def status_command_def command_ok_def read_Inr(1)
      DEFAULT_LIMIT_MESSAGES_def DEFAULT_LIMIT_TRIGGERS_def dest: read_Inr(2) read_Inr(3) [OF _ zero_less_numeral]
      split: list.split_asm if_split_asm)

lemma show_int_plain:
  assumes "0 < n"
  shows "\<not> starts_with (show_int n) ''--''"
proof -
  have "list_all (is_digit 10) (show_nat (nat n))" by (rule show_nat_digits(2))
  moreover have "\<not> is_digit 10 CHR ''-''" by code_simp
  ultimately show ?thesis
    using assms by (cases "show_nat (nat n)") (auto simp: show_int_def starts_with_def)
qed

lemma read_limit:
  assumes "js_get options key = Some (show_int n)" "0 < n" "n < 2 ^ 53"
  shows "readOptionalPositiveInt options key d = Inr n"
  using assms(1,2) by (simp add: readOptionalPositiveInt_def Number_show_int [OF assms(2,3)])

lemma read_given:
  "js_get options key = Some v \<Longrightarrow> trim v \<noteq> [] \<Longrightarrow> readRequiredString options key = Inr v"
  "js_get options ''actor-agent-id'' = Some v \<Longrightarrow> trim v \<noteq> [] \<Longrightarrow> readActorAgentId options = Inr v"
  by (simp_all add: readRequiredString_def readActorAgentId_def)

lemma parse_argv:
  assumes "command_ok c" "printable c"
  shows "parseOperatorCommand (argv_of c) = Inr c"
proof (cases c)
  case (InspectThread i m t json)
  with assms have ok: "trim i \<noteq> []" "\<not> starts_with i ''--''" "0 < m" "m < 2 ^ 53" "0 < t" "t < 2 ^ 53"
    by (simp_all add: command_ok_def printable_def)
  then show ?thesis
    by (simp add: InspectThread parseOperatorCommand_def parseOptions_def parse_option_args show_int_plain
        read_given read_limit readOptionalBool_def js_get_set)
qed (use assms in \<open>simp_all add: command_ok_def printable_def parseOperatorCommand_def parseOptions_def
  parse_option_args status_command_def read_given readOptionalBool_def js_get_set\<close>)

end
