(* ===== verification/OperatorService.thy ===== *)
theory OperatorService
  imports OperatorCommands DbThreads IsoDate
begin

text \<open>
  The commands of the operator (\<open>apps/operator-cli/src/service.ts\<close>): the repository as an
  interface and on the database, and the service. A command on the status of a thread is checked,
  written on the condition that the status is still the one that was read, and recorded in the
  audit log by a second statement.
\<close>

section \<open>The repository\<close>

text \<open>\<open>ThreadRecord\<close> of this file has the columns of the table, so it is a \<open>thread_row\<close>.\<close>

record thread_message_record =
  tm_messageId :: string
  tm_seq :: int
  tm_senderAgentId :: string
  tm_kind :: message_kind
  tm_body :: string
  tm_createdAt :: int

record trigger_job_summary =
  js_triggerId :: string
  js_targetAgentId :: string
  js_status :: job_status
  js_attempts :: int
  js_maxRetries :: int
  js_createdAt :: int
  js_updatedAt :: int

text \<open>The event that \<open>appendAuditEvent\<close> takes; \<open>threadId\<close> is always given.\<close>

record operator_event =
  ov_workspaceId :: string
  ov_actorAgentId :: string
  ov_operation :: string
  ov_resourceType :: string
  ov_resourceId :: string
  ov_threadId :: string
  ov_result :: string
  ov_payload :: "(string \<times> json) list"
  ov_createdAt :: int

record 'w operator_repository =
  or_getThreadById :: "string \<Rightarrow> ('w, exn, thread_row option) io"
  or_listParticipants :: "string \<Rightarrow> ('w, exn, string list) io"
  or_listMessages :: "string \<Rightarrow> int \<Rightarrow> ('w, exn, thread_message_record list) io"
  or_listTriggerJobs :: "string \<Rightarrow> int \<Rightarrow> ('w, exn, trigger_job_summary list) io"
  or_updateThreadStatus ::
    "string \<Rightarrow> thread_status \<Rightarrow> thread_status \<Rightarrow> int \<Rightarrow> ('w, exn, thread_row option) io"
  or_appendAuditEvent :: "operator_event \<Rightarrow> ('w, exn, unit) io"

definition message_columns :: "message_row \<Rightarrow> thread_message_record" where
  "message_columns row =
     \<lparr>tm_messageId = mw_messageId row, tm_seq = mw_seq row, tm_senderAgentId = mw_senderAgentId row,
      tm_kind = mw_kind row, tm_body = mw_body row, tm_createdAt = mw_createdAt row\<rparr>"

definition job_columns :: "job_row \<Rightarrow> trigger_job_summary" where
  "job_columns row =
     \<lparr>js_triggerId = jw_triggerId row, js_targetAgentId = jw_targetAgentId row,
      js_status = jw_status row, js_attempts = jw_attempts row, js_maxRetries = jw_maxRetries row,
      js_createdAt = jw_createdAt row, js_updatedAt = jw_updatedAt row\<rparr>"

definition op_getThreadById :: "'w db_client \<Rightarrow> string \<Rightarrow> ('w, exn, thread_row option) io" where
  "op_getThreadById D threadId = findFirst (dc_threads D) (\<lambda>row. tw_threadId row = threadId) AnyOrder"

definition op_listParticipants :: "'w db_client \<Rightarrow> string \<Rightarrow> ('w, exn, string list) io" where
  "op_listParticipants D threadId =
     io_bind (db_findMany (dc_participants D) (\<lambda>row. pw_threadId row = threadId) (AscText pw_agentId) None)
       (\<lambda>rows. io_return (map pw_agentId rows))"

definition op_listMessages :: "'w db_client \<Rightarrow> string \<Rightarrow> int \<Rightarrow> ('w, exn, thread_message_record list) io" where
  "op_listMessages D threadId limit =
     io_bind (db_findMany (dc_messages D) (\<lambda>row. mw_threadId row = threadId) (Desc mw_seq) (Some limit))
       (\<lambda>rows. io_return (rev (map message_columns rows)))"

definition op_listTriggerJobs :: "'w db_client \<Rightarrow> string \<Rightarrow> int \<Rightarrow> ('w, exn, trigger_job_summary list) io" where
  "op_listTriggerJobs D threadId limit =
     io_bind (db_findMany (dc_jobs D) (\<lambda>row. jw_threadId row = threadId) (Desc jw_createdAt) (Some limit))
       (\<lambda>rows. io_return (map job_columns rows))"

definition op_updateThreadStatus ::
  "'w db_client \<Rightarrow> string \<Rightarrow> thread_status \<Rightarrow> thread_status \<Rightarrow> int \<Rightarrow> ('w, exn, thread_row option) io" where
  "op_updateThreadStatus D threadId expectedCurrentStatus nextStatus updatedAt =
     io_bind (db_update (dc_threads D)
        (\<lambda>row. tw_threadId row = threadId \<and> tw_status row = expectedCurrentStatus)
        (\<lambda>row. row\<lparr>tw_status := nextStatus, tw_updatedAt := updatedAt\<rparr>)) (\<lambda>updated.
       io_return (case updated of [] \<Rightarrow> None | row # _ \<Rightarrow> Some row))"

definition audit_of_event :: "operator_event \<Rightarrow> audit_event" where
  "audit_of_event input =
     \<lparr>au_workspaceId = ov_workspaceId input, au_actorAgentId = Some (ov_actorAgentId input),
      au_actorRole = Some ''operator'', au_operation = ov_operation input,
      au_resourceType = ov_resourceType input, au_resourceId = ov_resourceId input,
      au_threadId = Some (ov_threadId input), au_requestId = None, au_result = ov_result input,
      au_payload = ov_payload input, au_createdAt = Some (ov_createdAt input)\<rparr>"

definition op_appendAuditEvent :: "'w db_client \<Rightarrow> operator_event \<Rightarrow> ('w, exn, unit) io" where
  "op_appendAuditEvent D input = db_insert (dc_audit D) [audit_of_event input]"

definition DbOperatorRepository :: "'w db_client \<Rightarrow> 'w operator_repository" where
  "DbOperatorRepository D =
     \<lparr>or_getThreadById = op_getThreadById D, or_listParticipants = op_listParticipants D,
      or_listMessages = op_listMessages D, or_listTriggerJobs = op_listTriggerJobs D,
      or_updateThreadStatus = op_updateThreadStatus D, or_appendAuditEvent = op_appendAuditEvent D\<rparr>"

section \<open>The service\<close>

datatype operator_data =
    InspectData (od_thread: thread_row) (od_participants: "string list")
      (od_recent_messages: "thread_message_record list") (od_recent_trigger_jobs: "trigger_job_summary list")
  | StatusData (od_thread_id: string) (od_status: thread_status) (od_changed: bool)

text \<open>\<open>ok\<close> is always true and is left out.\<close>

record operator_result =
  rs_command :: string
  rs_happenedAt :: string
  rs_data :: operator_data

record 'w operator_service =
  os_repository :: "'w operator_repository"
  os_workspaceId :: string
  os_now :: "('w, exn, int) io"

definition cli_error :: "operator_error_code \<Rightarrow> string \<Rightarrow> exn" where
  "cli_error code message = OperatorExn (OperatorCliError code message)"

definition OPERATOR_OVERRIDE_PREFIXES :: "string list" where
  "OPERATOR_OVERRIDE_PREFIXES = [''human_override:'', ''coordinator_override:'']"

definition requiresOverrideReason :: "thread_status \<Rightarrow> thread_status \<Rightarrow> bool" where
  "requiresOverrideReason currentStatus nextStatus \<longleftrightarrow> currentStatus = Blocked \<and> nextStatus = Closed"

definition hasOverrideReason :: "string \<Rightarrow> bool" where
  "hasOverrideReason reason \<longleftrightarrow> list_ex (starts_with reason) OPERATOR_OVERRIDE_PREFIXES"

definition assertThreadInWorkspace :: "'w operator_service \<Rightarrow> thread_row \<Rightarrow> exn + unit" where
  "assertThreadInWorkspace S thread =
     (if tw_workspaceId thread \<noteq> os_workspaceId S
      then Inl (cli_error O_WORKSPACE_MISMATCH
             (''Thread workspace mismatch: expected='' @ os_workspaceId S @ '' actual='' @ tw_workspaceId thread))
      else Inr ())"

text \<open>\<open>getThreadById\<close> and the two checks that follow it.\<close>

definition existing_thread :: "'w operator_service \<Rightarrow> string \<Rightarrow> ('w, exn, thread_row) io" where
  "existing_thread S threadId =
     io_bind (or_getThreadById (os_repository S) threadId) (\<lambda>existing.
     case existing of
       None \<Rightarrow> io_throw (cli_error O_NOT_FOUND (''Thread not found: '' @ threadId))
     | Some thread \<Rightarrow> io_bind (io_lift (assertThreadInWorkspace S thread)) (\<lambda>_. io_return thread))"

definition status_event ::
  "thread_row \<Rightarrow> string \<Rightarrow> string \<Rightarrow> (string \<times> json) list \<Rightarrow> int \<Rightarrow> operator_event" where
  "status_event thread actorAgentId operation payload createdAt =
     \<lparr>ov_workspaceId = tw_workspaceId thread, ov_actorAgentId = actorAgentId, ov_operation = operation,
      ov_resourceType = ''thread'', ov_resourceId = tw_threadId thread, ov_threadId = tw_threadId thread,
      ov_result = ''success'', ov_payload = payload, ov_createdAt = createdAt\<rparr>"

definition status_payload :: "thread_status \<Rightarrow> thread_status \<Rightarrow> string \<Rightarrow> (string \<times> json) list" where
  "status_payload fromStatus toStatus reason =
     [(''from_status'', JString (status_text fromStatus)), (''to_status'', JString (status_text toStatus)),
      (''reason'', JString reason)]"

text \<open>The audit event and the answer, at the times they are made.\<close>

definition record_status ::
  "'w operator_service \<Rightarrow> thread_row \<Rightarrow> string \<Rightarrow> string \<Rightarrow> (string \<times> json) list \<Rightarrow> bool \<Rightarrow>
     ('w, exn, operator_result) io" where
  "record_status S thread actorAgentId operation payload changed =
     io_bind (os_now S) (\<lambda>createdAt.
     io_bind (or_appendAuditEvent (os_repository S)
        (status_event thread actorAgentId operation payload createdAt)) (\<lambda>_.
     io_bind (os_now S) (\<lambda>happenedAt.
     io_return \<lparr>rs_command = operation, rs_happenedAt = toISOString happenedAt,
       rs_data = StatusData (tw_threadId thread) (tw_status thread) changed\<rparr>)))"

definition operator_transitionThreadStatus ::
  "'w operator_service \<Rightarrow> string \<Rightarrow> thread_status \<Rightarrow> string \<Rightarrow> string \<Rightarrow> string \<Rightarrow>
     ('w, exn, operator_result) io" where
  "operator_transitionThreadStatus S threadId nextStatus reason actorAgentId operation =
     io_bind (existing_thread S threadId) (\<lambda>existing.
     if tw_status existing = nextStatus then
       record_status S existing actorAgentId operation
         (status_payload (tw_status existing) nextStatus reason @ [(''noop'', JBool True)]) False
     else
       io_bind (io_lift (map_exn DomainExn (canTransitionThreadStatus (tw_status existing) nextStatus)))
         (\<lambda>allowed.
       if \<not> allowed then
         io_throw (cli_error O_INVALID_TRANSITION (''Invalid thread status transition: '' @
           status_text (tw_status existing) @ '' -> '' @ status_text nextStatus))
       else if requiresOverrideReason (tw_status existing) nextStatus \<and> \<not> hasOverrideReason reason then
         io_throw (cli_error O_OVERRIDE_REQUIRED
           ''Closing a blocked thread requires reason prefix human_override: or coordinator_override:'')
       else
         io_bind (os_now S) (\<lambda>updatedAt.
         io_bind (or_updateThreadStatus (os_repository S) (tw_threadId existing) (tw_status existing)
            nextStatus updatedAt) (\<lambda>updated.
         case updated of
           None \<Rightarrow> io_throw (cli_error O_CONFLICT
             ''Thread status changed during transition; retry command with fresh state'')
         | Some thread \<Rightarrow>
             record_status S thread actorAgentId operation
               (status_payload (tw_status existing) (tw_status thread) reason) True))))"

fun operator_execute :: "'w operator_service \<Rightarrow> operator_command \<Rightarrow> ('w, exn, operator_result) io" where
  "operator_execute S (InspectThread threadId limitMessages limitTriggers json) =
     io_bind (existing_thread S threadId) (\<lambda>thread.
     io_bind (or_listParticipants (os_repository S) (tw_threadId thread)) (\<lambda>participants.
     io_bind (or_listMessages (os_repository S) (tw_threadId thread) limitMessages) (\<lambda>threadMessages.
     io_bind (or_listTriggerJobs (os_repository S) (tw_threadId thread) limitTriggers) (\<lambda>jobs.
     io_bind (os_now S) (\<lambda>happenedAt.
     io_return \<lparr>rs_command = ''inspect-thread'', rs_happenedAt = toISOString happenedAt,
       rs_data = InspectData thread participants threadMessages jobs\<rparr>)))))"
| "operator_execute S (EscalateThread threadId reason actorAgentId json) =
     operator_transitionThreadStatus S threadId Blocked reason actorAgentId ''escalate-thread''"
| "operator_execute S (UnblockThread threadId reason actorAgentId json) =
     operator_transitionThreadStatus S threadId Active reason actorAgentId ''unblock-thread''"
| "operator_execute S (OverrideCloseThread threadId reason actorAgentId json) =
     operator_transitionThreadStatus S threadId Closed reason actorAgentId ''override-close-thread''"

section \<open>What the service relies on\<close>

text \<open>
  The contract of a repository, through three views: the threads by id, the audit log, and the rest
  of what is stored. A failing operation changes nothing.
\<close>

locale operator_repository_contract =
  fixes R :: "'w operator_repository" and threads :: "'w \<Rightarrow> string \<Rightarrow> thread_row option"
    and audit :: "'w \<Rightarrow> audit_event list" and rest :: "'w \<Rightarrow> 'r" and good :: "'w \<Rightarrow> bool"
  assumes filed: "threads w tid = Some row \<Longrightarrow> tw_threadId row = tid"
    and get_ok: "or_getThreadById R tid w = (rg, w') \<Longrightarrow> good w \<Longrightarrow>
      good w' \<and> threads w' = threads w \<and> audit w' = audit w \<and> rest w' = rest w \<and>
      (\<forall>found. rg = Inr found \<longrightarrow> found = threads w tid)"
    and update_ok: "or_updateThreadStatus R tid old new t w = (ru, w') \<Longrightarrow> good w \<Longrightarrow>
      good w' \<and> audit w' = audit w \<and> rest w' = rest w \<and>
      (case ru of Inl e \<Rightarrow> threads w' = threads w
       | Inr None \<Rightarrow> threads w' = threads w \<and> (\<forall>row. threads w tid = Some row \<longrightarrow> tw_status row \<noteq> old)
       | Inr (Some row') \<Rightarrow> \<exists>row. threads w tid = Some row \<and> tw_status row = old \<and>
           row' = row\<lparr>tw_status := new, tw_updatedAt := t\<rparr> \<and> threads w' = (threads w)(tid \<mapsto> row'))"
    and append_ok: "or_appendAuditEvent R ev w = (ra, w') \<Longrightarrow> good w \<Longrightarrow>
      good w' \<and> threads w' = threads w \<and> rest w' = rest w \<and>
      audit w' = (case ra of Inl e \<Rightarrow> audit w | Inr _ \<Rightarrow> audit w @ [audit_of_event ev])"
    and participants_ok: "or_listParticipants R tid w = (rp, w') \<Longrightarrow> good w \<Longrightarrow>
      good w' \<and> threads w' = threads w \<and> audit w' = audit w \<and> rest w' = rest w"
    and messages_ok: "or_listMessages R tid n w = (rm, w') \<Longrightarrow> good w \<Longrightarrow>
      good w' \<and> threads w' = threads w \<and> audit w' = audit w \<and> rest w' = rest w"
    and jobs_ok: "or_listTriggerJobs R tid n w = (rj, w') \<Longrightarrow> good w \<Longrightarrow>
      good w' \<and> threads w' = threads w \<and> audit w' = audit w \<and> rest w' = rest w"

text \<open>A change that is allowed: a transition of the table, with a reason when it overrides a block.\<close>

definition status_allowed :: "thread_row \<Rightarrow> thread_status \<Rightarrow> string \<Rightarrow> bool" where
  "status_allowed row new reason \<longleftrightarrow> new \<in> set (transitionMap (tw_status row)) \<and>
     (requiresOverrideReason (tw_status row) new \<longrightarrow> hasOverrideReason reason)"

text \<open>Why a command on a status is refused.\<close>

definition refusal :: "string \<Rightarrow> thread_row option \<Rightarrow> thread_status \<Rightarrow> string \<Rightarrow> operator_error_code option" where
  "refusal workspaceId found new reason =
     (case found of
        None \<Rightarrow> Some O_NOT_FOUND
      | Some row \<Rightarrow>
          if tw_workspaceId row \<noteq> workspaceId then Some O_WORKSPACE_MISMATCH
          else if tw_status row = new then None
          else if new \<notin> set (transitionMap (tw_status row)) then Some O_INVALID_TRANSITION
          else if requiresOverrideReason (tw_status row) new \<and> \<not> hasOverrideReason reason then Some O_OVERRIDE_REQUIRED
          else None)"

text \<open>The service on such a repository, with a clock that reads the time only.\<close>

locale operator_cli = operator_repository_contract "os_repository S" threads audit rest good
  for S :: "'w operator_service" and threads audit rest good +
  assumes now_ok: "os_now S w = (rn, w') \<Longrightarrow> good w \<Longrightarrow>
      good w' \<and> threads w' = threads w \<and> audit w' = audit w \<and> rest w' = rest w"
begin

text \<open>A command may act on a thread of its workspace only.\<close>

lemma existing_thread_effect:
  assumes "existing_thread S tid w = (r, w')" "good w"
  shows "good w'" "threads w' = threads w" "audit w' = audit w" "rest w' = rest w"
    "r = Inr row \<Longrightarrow> threads w tid = Some row \<and> tw_workspaceId row = os_workspaceId S \<and> tw_threadId row = tid"
    "r = Inl (OperatorExn e) \<Longrightarrow> or_getThreadById (os_repository S) tid w = (Inl (OperatorExn e), w') \<or>
       oe_code e = O_NOT_FOUND \<and> threads w tid = None \<or>
       oe_code e = O_WORKSPACE_MISMATCH \<and> (\<exists>row. threads w tid = Some row \<and> tw_workspaceId row \<noteq> os_workspaceId S)"
proof -
  obtain f w1 where f: "or_getThreadById (os_repository S) tid w = (f, w1)" by fastforce
  note g = get_ok [OF f assms(2)]
  have r: "(r, w') = (case f of Inl e \<Rightarrow> (Inl e, w1)
      | Inr None \<Rightarrow> (Inl (cli_error O_NOT_FOUND (''Thread not found: '' @ tid)), w1)
      | Inr (Some row) \<Rightarrow> (case assertThreadInWorkspace S row of Inl e \<Rightarrow> (Inl e, w1) | Inr _ \<Rightarrow> (Inr row, w1)))"
    unfolding assms(1) [symmetric] existing_thread_def
    by (cases f) (simp_all add: io_bind_def f split: option.split sum.split)
  then have w': "w' = w1" by (auto split: sum.split_asm option.split_asm)
  show "good w'" "threads w' = threads w" "audit w' = audit w" "rest w' = rest w" using g w' by simp_all
  show "threads w tid = Some row \<and> tw_workspaceId row = os_workspaceId S \<and> tw_threadId row = tid" if "r = Inr row"
    using r that g filed by (auto simp: assertThreadInWorkspace_def split: sum.split_asm option.split_asm if_split_asm)
  show "or_getThreadById (os_repository S) tid w = (Inl (OperatorExn e), w') \<or>
       oe_code e = O_NOT_FOUND \<and> threads w tid = None \<or>
       oe_code e = O_WORKSPACE_MISMATCH \<and> (\<exists>row. threads w tid = Some row \<and> tw_workspaceId row \<noteq> os_workspaceId S)"
    if "r = Inl (OperatorExn e)"
    using r that g f w' by (auto simp: assertThreadInWorkspace_def cli_error_def
        split: sum.split_asm option.split_asm if_split_asm)
qed

lemma record_status_effect:
  assumes "record_status S row actor operation payload changed w = (r, w')" "good w"
  shows "good w'" "threads w' = threads w" "rest w' = rest w"
    "r = Inr res \<Longrightarrow> rs_command res = operation \<and> rs_data res = StatusData (tw_threadId row) (tw_status row) changed \<and>
       (\<exists>t. audit w' = audit w @ [audit_of_event (status_event row actor operation payload t)])"
    "r = Inl e \<Longrightarrow> audit w' = audit w \<or>
       (\<exists>t. audit w' = audit w @ [audit_of_event (status_event row actor operation payload t)])"
proof -
  let ?ev = "\<lambda>t. status_event row actor operation payload t"
  obtain n w1 where n: "os_now S w = (n, w1)" by fastforce
  note g1 = now_ok [OF n assms(2)]
  have "good w' \<and> threads w' = threads w \<and> rest w' = rest w \<and> (case r of
      Inr res \<Rightarrow> rs_command res = operation \<and> rs_data res = StatusData (tw_threadId row) (tw_status row) changed \<and>
        (\<exists>t. audit w' = audit w @ [audit_of_event (?ev t)])
    | Inl e \<Rightarrow> audit w' = audit w \<or> (\<exists>t. audit w' = audit w @ [audit_of_event (?ev t)]))"
  proof (cases n)
    case (Inl e)
    with assms(1) n g1 show ?thesis by (auto simp: record_status_def io_bind_iff)
  next
    case (Inr t)
    obtain a w2 where a: "or_appendAuditEvent (os_repository S) (?ev t) w1 = (a, w2)" by fastforce
    note g2 = append_ok [OF a g1 [THEN conjunct1]]
    show ?thesis
    proof (cases a)
      case (Inl e)
      with assms(1) n \<open>n = Inr t\<close> a g1 g2 show ?thesis by (auto simp: record_status_def io_bind_iff)
    next
      case (Inr u)
      obtain h w3 where h: "os_now S w2 = (h, w3)" by fastforce
      note g3 = now_ok [OF h g2 [THEN conjunct1]]
      have "(r, w') = (case h of Inl e \<Rightarrow> (Inl e, w3) | Inr t' \<Rightarrow>
          (Inr \<lparr>rs_command = operation, rs_happenedAt = toISOString t',
            rs_data = StatusData (tw_threadId row) (tw_status row) changed\<rparr>, w3))"
        unfolding assms(1) [symmetric] record_status_def
        by (cases h) (simp_all add: io_bind_def n \<open>n = Inr t\<close> a Inr h)
      with g1 g2 g3 Inr show ?thesis by (auto split: sum.split_asm)
    qed
  qed
  then show "good w'" "threads w' = threads w" "rest w' = rest w"
    "r = Inr res \<Longrightarrow> rs_command res = operation \<and> rs_data res = StatusData (tw_threadId row) (tw_status row) changed \<and>
       (\<exists>t. audit w' = audit w @ [audit_of_event (?ev t)])"
    "r = Inl e \<Longrightarrow> audit w' = audit w \<or> (\<exists>t. audit w' = audit w @ [audit_of_event (?ev t)])"
    by (auto split: sum.split_asm)
qed

text \<open>What the rest of the command does once the thread is read.\<close>

lemma change_effect:
  assumes run: "io_bind (os_now S) (\<lambda>updatedAt.
         io_bind (or_updateThreadStatus (os_repository S) tid (tw_status row) new updatedAt) (\<lambda>updated.
         case updated of
           None \<Rightarrow> io_throw (cli_error O_CONFLICT
             ''Thread status changed during transition; retry command with fresh state'')
         | Some thread \<Rightarrow>
             record_status S thread actor operation
               (status_payload (tw_status row) (tw_status thread) reason) True)) w = (r, w')"
    and ok: "good w" "threads w tid = Some row"
  defines "row' \<equiv> \<lambda>u. row\<lparr>tw_status := new, tw_updatedAt := u\<rparr>"
  defines "ev \<equiv> \<lambda>u t. audit_of_event (status_event (row' u) actor operation (status_payload (tw_status row) new reason) t)"
  shows "good w' \<and> rest w' = rest w \<and> (case r of
      Inr res \<Rightarrow> rs_command res = operation \<and> rs_data res = StatusData tid new True \<and>
        (\<exists>u t. threads w' = (threads w)(tid \<mapsto> row' u) \<and> audit w' = audit w @ [ev u t])
    | Inl e \<Rightarrow> threads w' = threads w \<and> audit w' = audit w \<or>
        (\<exists>u. threads w' = (threads w)(tid \<mapsto> row' u) \<and> (audit w' = audit w \<or> (\<exists>t. audit w' = audit w @ [ev u t]))))"
proof -
  have id: "tw_threadId row = tid" by (rule filed [OF ok(2)])
  obtain n w1 where n: "os_now S w = (n, w1)" by fastforce
  note g1 = now_ok [OF n ok(1)]
  show ?thesis
  proof (cases n)
    case (Inl e)
    with run n g1 show ?thesis by (auto simp: io_bind_iff)
  next
    case (Inr u)
    obtain x w2 where x: "or_updateThreadStatus (os_repository S) tid (tw_status row) new u w1 = (x, w2)" by fastforce
    note g2 = update_ok [OF x g1 [THEN conjunct1]]
    have r: "(r, w') = (case x of Inl e \<Rightarrow> (Inl e, w2)
        | Inr None \<Rightarrow> (Inl (cli_error O_CONFLICT ''Thread status changed during transition; retry command with fresh state''), w2)
        | Inr (Some thread) \<Rightarrow> record_status S thread actor operation
            (status_payload (tw_status row) (tw_status thread) reason) True w2)"
      unfolding run [symmetric] by (cases x) (simp_all add: io_bind_def n Inr x split: option.split)
    show ?thesis
    proof (cases "\<exists>thread. x = Inr (Some thread)")
      case False
      with r g1 g2 show ?thesis by (auto split: sum.split_asm option.split_asm)
    next
      case True
      then obtain thread where t: "x = Inr (Some thread)" ..
      with g1 g2 ok(2) have thread: "thread = row' u" "threads w2 = (threads w)(tid \<mapsto> row' u)"
        by (auto simp: row'_def)
      have s: "tw_status thread = new" "tw_threadId thread = tid" by (simp_all add: thread(1) row'_def id)
      from r t have run2: "record_status S thread actor operation (status_payload (tw_status row) new reason) True w2 = (r, w')"
        by (simp add: s)
      note g3 = record_status_effect [OF run2 g2 [THEN conjunct1], unfolded s]
      have log: "audit w2 = audit w" "rest w2 = rest w" using g1 g2 by simp_all
      show ?thesis
      proof (cases r)
        case (Inl e)
        from g3(1-3) g3(5) [OF Inl] log thread show ?thesis by (auto simp: Inl ev_def)
      next
        case (Inr res)
        from g3(1-3) g3(4) [OF Inr] log thread show ?thesis by (auto simp: Inr ev_def)
      qed
    qed
  qed
qed

lemma transition_refused:
  assumes run: "operator_transitionThreadStatus S tid new reason actor operation w = (r, w')" and ok: "good w"
    and get: "or_getThreadById (os_repository S) tid w = (Inr found, w1)"
    and refused: "refusal (os_workspaceId S) (threads w tid) new reason = Some code"
  shows "\<exists>message. r = Inl (cli_error code message)" "w' = w1"
proof -
  have f: "found = threads w tid" using get_ok [OF get ok] by blast
  have "(\<exists>message. r = Inl (cli_error code message)) \<and> w' = w1"
    using run refused unfolding operator_transitionThreadStatus_def existing_thread_def refusal_def
    by (auto simp: io_bind_def get f assertThreadInWorkspace_def canTransition_eq
        split: option.split_asm if_split_asm)
  then show "\<exists>message. r = Inl (cli_error code message)" "w' = w1" by blast+
qed

lemma transition_effect:
  assumes run: "operator_transitionThreadStatus S tid new reason actor operation w = (r, w')" and ok: "good w"
  shows "good w'" "rest w' = rest w"
    "r = Inr res \<Longrightarrow> \<exists>row. threads w tid = Some row \<and> tw_workspaceId row = os_workspaceId S \<and>
       rs_command res = operation \<and>
       (if tw_status row = new then rs_data res = StatusData tid new False \<and> threads w' = threads w \<and>
          (\<exists>t. audit w' = audit w @ [audit_of_event (status_event row actor operation
             (status_payload new new reason @ [(''noop'', JBool True)]) t)])
        else rs_data res = StatusData tid new True \<and> status_allowed row new reason \<and>
          (\<exists>u t. threads w' = (threads w)(tid \<mapsto> row\<lparr>tw_status := new, tw_updatedAt := u\<rparr>) \<and>
             audit w' = audit w @ [audit_of_event (status_event (row\<lparr>tw_status := new, tw_updatedAt := u\<rparr>)
               actor operation (status_payload (tw_status row) new reason) t)]))"
    "r = Inl e \<Longrightarrow> threads w' = threads w \<or> (\<exists>row u. threads w tid = Some row \<and>
       tw_workspaceId row = os_workspaceId S \<and> status_allowed row new reason \<and>
       threads w' = (threads w)(tid \<mapsto> row\<lparr>tw_status := new, tw_updatedAt := u\<rparr>))"
proof -
  obtain f w1 where f: "existing_thread S tid w = (f, w1)" by fastforce
  note g1 = existing_thread_effect [OF f ok]
  have "good w' \<and> rest w' = rest w \<and> (case r of Inr res \<Rightarrow> (\<exists>row. threads w tid = Some row \<and>
       tw_workspaceId row = os_workspaceId S \<and> rs_command res = operation \<and>
       (if tw_status row = new then rs_data res = StatusData tid new False \<and> threads w' = threads w \<and>
          (\<exists>t. audit w' = audit w @ [audit_of_event (status_event row actor operation
             (status_payload new new reason @ [(''noop'', JBool True)]) t)])
        else rs_data res = StatusData tid new True \<and> status_allowed row new reason \<and>
          (\<exists>u t. threads w' = (threads w)(tid \<mapsto> row\<lparr>tw_status := new, tw_updatedAt := u\<rparr>) \<and>
             audit w' = audit w @ [audit_of_event (status_event (row\<lparr>tw_status := new, tw_updatedAt := u\<rparr>)
               actor operation (status_payload (tw_status row) new reason) t)])))
     | Inl e \<Rightarrow> threads w' = threads w \<or> (\<exists>row u. threads w tid = Some row \<and>
       tw_workspaceId row = os_workspaceId S \<and> status_allowed row new reason \<and>
       threads w' = (threads w)(tid \<mapsto> row\<lparr>tw_status := new, tw_updatedAt := u\<rparr>)))"
  proof (cases f)
    case (Inl e)
    with run f g1(1-4) show ?thesis by (auto simp: operator_transitionThreadStatus_def io_bind_iff)
  next
    case (Inr row)
    note row = g1(5) [OF Inr]
    note cont = run [unfolded operator_transitionThreadStatus_def io_bind_def [of "existing_thread S tid"] f Inr prod.case sum.case]
    consider (same) "tw_status row = new" | (refused) "tw_status row \<noteq> new" "\<not> status_allowed row new reason"
      | (go) "tw_status row \<noteq> new" "status_allowed row new reason" by blast
    then show ?thesis
    proof cases
      case same
      with cont have "record_status S row actor operation (status_payload new new reason @ [(''noop'', JBool True)]) False w1 = (r, w')"
        by simp
      from record_status_effect [OF this g1(1)] same row g1 show ?thesis by (cases r) auto
    next
      case refused
      with cont have "w' = w1 \<and> (\<exists>e. r = Inl e)"
        by (auto simp: canTransition_eq status_allowed_def split: if_split_asm)
      with g1 show ?thesis by auto
    next
      case go
      with cont row have change: "io_bind (os_now S) (\<lambda>updatedAt.
         io_bind (or_updateThreadStatus (os_repository S) tid (tw_status row) new updatedAt) (\<lambda>updated.
         case updated of
           None \<Rightarrow> io_throw (cli_error O_CONFLICT
             ''Thread status changed during transition; retry command with fresh state'')
         | Some thread \<Rightarrow>
             record_status S thread actor operation
               (status_payload (tw_status row) (tw_status thread) reason) True)) w1 = (r, w')"
        by (auto simp: canTransition_eq status_allowed_def)
      have "threads w1 tid = Some row" using row g1(2) by simp
      from change_effect [OF change g1(1) this] row g1 go show ?thesis by (cases r) auto
    qed
  qed
  then show "good w'" "rest w' = rest w"
    "r = Inr res \<Longrightarrow> \<exists>row. threads w tid = Some row \<and> tw_workspaceId row = os_workspaceId S \<and>
       rs_command res = operation \<and>
       (if tw_status row = new then rs_data res = StatusData tid new False \<and> threads w' = threads w \<and>
          (\<exists>t. audit w' = audit w @ [audit_of_event (status_event row actor operation
             (status_payload new new reason @ [(''noop'', JBool True)]) t)])
        else rs_data res = StatusData tid new True \<and> status_allowed row new reason \<and>
          (\<exists>u t. threads w' = (threads w)(tid \<mapsto> row\<lparr>tw_status := new, tw_updatedAt := u\<rparr>) \<and>
             audit w' = audit w @ [audit_of_event (status_event (row\<lparr>tw_status := new, tw_updatedAt := u\<rparr>)
               actor operation (status_payload (tw_status row) new reason) t)]))"
    "r = Inl e \<Longrightarrow> threads w' = threads w \<or> (\<exists>row u. threads w tid = Some row \<and>
       tw_workspaceId row = os_workspaceId S \<and> status_allowed row new reason \<and>
       threads w' = (threads w)(tid \<mapsto> row\<lparr>tw_status := new, tw_updatedAt := u\<rparr>))"
    by (auto split: sum.split_asm)
qed

end

section \<open>The repository on the database\<close>

definition operator_rest :: "db_state \<Rightarrow> db_state" where
  "operator_rest s = s\<lparr>ds_threads := [], ds_audit := []\<rparr>"

context database
begin

theorem DbOperatorRepository_contract:
  "operator_repository_contract (DbOperatorRepository D) (\<lambda>w. thread_row_at (state w)) (\<lambda>w. ds_audit (state w))
     (\<lambda>w. operator_rest (state w)) (\<lambda>w. threads_wf (state w))"
proof (unfold_locales, unfold DbOperatorRepository_def operator_repository.simps, goal_cases)
  case (1 w tid row)
  then show ?case by (auto simp: thread_row_at_def dest: find_key_key)
next
  case (2 tid w rg w')
  from threads.first_ok(1) [OF 2(1) [unfolded op_getThreadById_def]] have s: "state w' = state w" .
  have "found = thread_row_at (state w) tid" if "rg = Inr found" for found
    using threads.first_key [OF 2(1) [unfolded op_getThreadById_def that]] threads_distinct [OF 2(2)]
    by (simp add: thread_row_at_def distinct_map inj_on_def)
  with s 2(2) show ?case by simp
next
  case (3 tid old new t w ru w')
  let ?f = "\<lambda>row. row\<lparr>tw_status := new, tw_updatedAt := t\<rparr>"
  obtain u where up: "db_update (dc_threads D) (\<lambda>row. tw_threadId row = tid \<and> tw_status row = old) ?f w = (u, w')"
    and ru: "ru = (case u of Inl e \<Rightarrow> Inl e | Inr rows \<Rightarrow> Inr (case rows of [] \<Rightarrow> None | row # _ \<Rightarrow> Some row))"
    using 3(1) by (auto simp: op_updateThreadStatus_def io_bind_iff)
  have key: "tw_threadId (?f row) = tw_threadId row" for row by simp
  note ok = threads.update_key [OF up, unfolded table_gets, OF threads_distinct [OF 3(2)] key]
  have rest: "ds_participants (state w') = ds_participants (state w)" "ds_audit (state w') = ds_audit (state w)"
    "operator_rest (state w') = operator_rest (state w)"
    using ok(1,2) by (cases u; simp add: operator_rest_def)+
  have wf: "threads_wf (state w')" by (rule threads_wf_same_ids [OF 3(2) ok(6) rest(1)])
  show ?case
  proof (cases u)
    case (Inl e)
    with ok(1) ru wf rest show ?thesis by simp
  next
    case (Inr rows)
    have at: "thread_row_at (state w') = (\<lambda>i. if i = tid then map_option (\<lambda>row. if tw_status row = old then ?f row else row)
        (thread_row_at (state w) i) else thread_row_at (state w) i)"
      unfolding thread_row_at_def using ok(4) [OF Inr] by (intro ext)
    show ?thesis
    proof (cases rows)
      case Nil
      with ok(3,5) Inr ru wf rest show ?thesis
        by (auto simp: thread_row_at_def split: option.split_asm if_split_asm)
    next
      case (Cons row' more)
      with ok(3) [OF Inr] obtain row where "thread_row_at (state w) tid = Some row" "tw_status row = old" "row' = ?f row"
        by (auto simp: thread_row_at_def split: option.split_asm if_split_asm)
      with Inr Cons ru wf rest at show ?thesis by (auto simp: fun_eq_iff)
    qed
  qed
next
  case (4 ev w ra w')
  from 4(1) obtain x where ins: "db_insert (dc_audit D) [audit_of_event ev] w = (x, w')" and ra: "ra = x"
    by (auto simp: op_appendAuditEvent_def)
  show ?case
  proof (cases x)
    case (Inl e)
    with audit.insert_fail [OF ins [unfolded Inl]] ra 4(2) show ?thesis by simp
  next
    case (Inr u)
    with audit.insert_ok [OF ins [unfolded Inr]] ra 4(2) show ?thesis
      by (simp add: threads_wf_def thread_row_at_def [abs_def] operator_rest_def)
  qed
next
  case (5 tid w rp w')
  from 5(1) obtain f where f: "db_findMany (dc_participants D) (\<lambda>row. pw_threadId row = tid) (AscText pw_agentId) None w = (f, w')"
    by (auto simp: op_listParticipants_def io_bind_iff)
  from participants.find_ok [OF f] 5(2) show ?case by simp
next
  case (6 tid n w rm w')
  from 6(1) obtain f where f: "db_findMany (dc_messages D) (\<lambda>row. mw_threadId row = tid) (Desc mw_seq) (Some n) w = (f, w')"
    by (auto simp: op_listMessages_def io_bind_iff)
  from messages.find_ok [OF f] 6(2) show ?case by simp
next
  case (7 tid n w rj w')
  from 7(1) obtain f where f: "db_findMany (dc_jobs D) (\<lambda>row. jw_threadId row = tid) (Desc jw_createdAt) (Some n) w = (f, w')"
    by (auto simp: op_listTriggerJobs_def io_bind_iff)
  from jobs.find_ok [OF f] 7(2) show ?case by simp
qed

end

end
