(* ===== verification/OperatorMain.thy ===== *)
theory OperatorMain
  imports OperatorService DbUnread
begin

text \<open>
  The program of the operator (\<open>apps/operator-cli/src/main.ts\<close>): arguments to a command, the
  command on the database, an exit code and what is printed. Loading the configuration is a
  parameter (its result); the text of the output is left to \<open>JSON.stringify\<close>.
\<close>

record operator_config =
  oc_WORKSPACE_ID :: string
  oc_OPERATOR_OUTPUT_FORMAT :: string

datatype operator_output =
    Usage
  | Result (or_pretty: bool) (or_payload: operator_result)
  | Failure (of_code: string) (of_message: string)

definition main_operator :: "'w db_client \<Rightarrow> string \<Rightarrow> ('w, exn, int) io \<Rightarrow> 'w operator_service" where
  "main_operator D workspaceId now =
     \<lparr>os_repository = DbOperatorRepository D, os_workspaceId = workspaceId, os_now = now\<rparr>"

fun operator_code_text :: "operator_error_code \<Rightarrow> string" where
  "operator_code_text O_INVALID_ARGUMENT = ''INVALID_ARGUMENT''"
| "operator_code_text O_NOT_FOUND = ''NOT_FOUND''"
| "operator_code_text O_WORKSPACE_MISMATCH = ''WORKSPACE_MISMATCH''"
| "operator_code_text O_INVALID_TRANSITION = ''INVALID_TRANSITION''"
| "operator_code_text O_OVERRIDE_REQUIRED = ''OVERRIDE_REQUIRED''"
| "operator_code_text O_CONFLICT = ''CONFLICT''"

text \<open>\<open>error.message\<close>.\<close>

fun exn_message :: "exn \<Rightarrow> string" where
  "exn_message (DomainExn e) = de_message e"
| "exn_message (AuthExn e) = ae_message e"
| "exn_message (BridgeExn e) = be_message e"
| "exn_message (OperatorExn e) = oe_message e"
| "exn_message (ZodExn m) = m"
| "exn_message (DbExn code m) = m"
| "exn_message (OtherExn m) = m"

text \<open>\<open>writeOutput\<close>: pretty unless \<open>--json\<close> is given or the configuration says so.\<close>

definition writeOutput :: "string \<Rightarrow> bool \<Rightarrow> operator_result \<Rightarrow> operator_output" where
  "writeOutput format forceJson payload = Result (\<not> forceJson \<and> format = ''pretty'') payload"

definition operator_failure :: "exn \<Rightarrow> int \<times> operator_output" where
  "operator_failure e =
     (1, case e of OperatorExn err \<Rightarrow> Failure (operator_code_text (oe_code err)) (oe_message err)
         | _ \<Rightarrow> Failure ''UNHANDLED_ERROR'' (exn_message e))"

text \<open>
  \<open>run\<close>. The configuration is loaded before the arguments are parsed; a \<open>ConfigValidationError\<close> is
  given by its formatted message.
\<close>

definition operator_run ::
  "string + operator_config \<Rightarrow> 'w db_client \<Rightarrow> ('w, exn, int) io \<Rightarrow> string list \<Rightarrow>
     ('w, exn, int \<times> operator_output) io" where
  "operator_run configuration D now argv =
     (if argv = [] \<or> hd argv = ''--help'' \<or> hd argv = ''help'' then io_return (0, Usage)
      else case configuration of
          Inl message \<Rightarrow> io_return (1, Failure ''CONFIG_INVALID'' message)
        | Inr config \<Rightarrow>
            io_catch
              (io_bind (io_lift (parseOperatorCommand argv)) (\<lambda>command.
               io_bind (operator_execute (main_operator D (oc_WORKSPACE_ID config) now) command) (\<lambda>result.
               io_return (0, writeOutput (oc_OPERATOR_OUTPUT_FORMAT config) (oc_json command) result))))
              (\<lambda>e. io_return (operator_failure e)))"

section \<open>The commands on the database\<close>

text \<open>The status that a command asks for, and the reason and the actor it names.\<close>

fun status_of_command :: "operator_command \<Rightarrow> thread_status option" where
  "status_of_command (InspectThread i m t j) = None"
| "status_of_command (EscalateThread i r a j) = Some Blocked"
| "status_of_command (UnblockThread i r a j) = Some Active"
| "status_of_command (OverrideCloseThread i r a j) = Some Closed"

fun command_name :: "operator_command \<Rightarrow> string" where
  "command_name (InspectThread i m t j) = ''inspect-thread''"
| "command_name (EscalateThread i r a j) = ''escalate-thread''"
| "command_name (UnblockThread i r a j) = ''unblock-thread''"
| "command_name (OverrideCloseThread i r a j) = ''override-close-thread''"

lemma execute_status:
  "status_of_command c = Some new \<Longrightarrow> operator_execute S c =
     operator_transitionThreadStatus S (oc_threadId c) new (oc_reason c) (oc_actorAgentId c) (command_name c)"
  by (cases c) auto

text \<open>The last messages of a thread, in the order of the log.\<close>

definition columns_of_message :: "message \<Rightarrow> thread_message_record" where
  "columns_of_message m =
     \<lparr>tm_messageId = ms_messageId m, tm_seq = ms_seq m, tm_senderAgentId = ms_senderAgentId m,
      tm_kind = ms_kind m, tm_body = ms_body m, tm_createdAt = ms_createdAt m\<rparr>"

context database
begin

lemma main_operator_cli:
  assumes "\<And>w r w'. now w = (r, w') \<Longrightarrow> state w' = state w"
  shows "operator_cli (main_operator D ws now) (\<lambda>w. thread_row_at (state w)) (\<lambda>w. ds_audit (state w))
     (\<lambda>w. operator_rest (state w)) (\<lambda>w. threads_wf (state w))"
proof (intro operator_cli.intro operator_cli_axioms.intro)
  show "operator_repository_contract (os_repository (main_operator D ws now)) (\<lambda>w. thread_row_at (state w))
     (\<lambda>w. ds_audit (state w)) (\<lambda>w. operator_rest (state w)) (\<lambda>w. threads_wf (state w))"
    using DbOperatorRepository_contract by (simp add: main_operator_def)
qed (use assms in \<open>auto simp: main_operator_def\<close>)

text \<open>A command that is refused changes nothing.\<close>

lemma status_refused:
  assumes "status_of_command c = Some new" "operator_execute (main_operator D ws now) c w = (r, w')"
    "\<And>w r w'. now w = (r, w') \<Longrightarrow> state w' = state w" "threads_wf (state w)"
    "op_getThreadById D (oc_threadId c) w = (Inr found, w1)"
    "refusal ws (thread_row_at (state w) (oc_threadId c)) new (oc_reason c) = Some code"
  shows "\<exists>message. r = Inl (cli_error code message)" "state w' = state w"
proof -
  have cli: "operator_cli (main_operator D ws now) (\<lambda>w. thread_row_at (state w)) (\<lambda>w. ds_audit (state w))
     (\<lambda>w. operator_rest (state w)) (\<lambda>w. threads_wf (state w))" using main_operator_cli assms(3) by blast
  have sel: "os_workspaceId (main_operator D ws now) = ws"
    "or_getThreadById (os_repository (main_operator D ws now)) = op_getThreadById D"
    by (simp_all add: main_operator_def DbOperatorRepository_def)
  note e = operator_cli.transition_refused [OF cli assms(2) [unfolded execute_status [OF assms(1)]] assms(4), unfolded sel,
      OF assms(5,6)]
  show "\<exists>message. r = Inl (cli_error code message)" by (rule e(1))
  show "state w' = state w" unfolding e(2)
    using threads.first_ok(1) [OF assms(5) [unfolded op_getThreadById_def]] .
qed

lemma listMessages_effect:
  assumes "op_listMessages D tid n w = (Inr ms, w')" "messages_unique (state w)" "0 \<le> n"
  shows "ms = map columns_of_message (drop (length (log_of (state w) tid) - nat n) (log_of (state w) tid))"
proof -
  let ?p = "\<lambda>row. mw_threadId row = tid"
  from assms(1) obtain rows where f: "db_findMany (dc_messages D) ?p (Desc mw_seq) (Some n) w = (Inr rows, w')"
    and ms: "ms = rev (map message_columns rows)" by (auto simp: op_listMessages_def)
  from messages.find_ok [OF f] obtain xs where xs: "mset xs = mset (filter ?p (ds_messages (state w)))"
    "sorted_wrt (\<lambda>x y. mw_seq y \<le> mw_seq x) xs" "rows = take (nat n) xs"
    by (auto simp: selection_def limited_def)
  have "inj_on mw_seq (set (filter ?p (ds_messages (state w))))"
    using seq_inj [OF assms(2), of tid] by simp
  then have "sort_key mw_seq (filter ?p (ds_messages (state w))) = rev xs"
    using xs(1,2) by (intro sort_key_inj_key_eq) (simp_all add: sorted_map sorted_wrt_rev)
  then have "rev rows = drop (length (log_rows (state w) tid) - nat n) (log_rows (state w) tid)"
    unfolding log_rows_def xs(3) by (simp add: rev_take)
  then show ?thesis
    by (simp add: ms rev_map log_of_def drop_map columns_of_message_def message_columns_def message_of_row_def comp_def)
qed

text \<open>An inspection changes nothing and answers with what the tables hold of the thread.\<close>

theorem inspect_effect:
  assumes run: "operator_execute (main_operator D ws now) (InspectThread tid m t json) w = (r, w')"
    and now: "\<And>w r w'. now w = (r, w') \<Longrightarrow> state w' = state w"
    and wf: "threads_wf (state w)" "messages_unique (state w)" "0 \<le> m"
  shows "state w' = state w"
    "r = Inr res \<Longrightarrow> \<exists>row ps jobs. thread_row_at (state w) tid = Some row \<and> tw_workspaceId row = ws \<and>
       mset ps = mset (members (state w) tid) \<and>
       selection (\<lambda>j. jw_threadId j = tid) (Desc jw_createdAt) (Some t) (ds_jobs (state w)) jobs \<and>
       rs_data res = InspectData row ps
         (map columns_of_message (drop (length (log_of (state w) tid) - nat m) (log_of (state w) tid)))
         (map job_columns jobs)"
proof -
  let ?S = "main_operator D ws now"
  have now_stays: "stays same_state now" using now by (auto simp: stays_def same_state_def)
  have jobs_stay: "stays same_state (db_findMany (dc_jobs D) p ord n)" for p ord n
    using jobs.find_ok by (auto simp: stays_def same_state_def)
  have thread_stays: "stays same_state (existing_thread ?S i)" for i
    unfolding existing_thread_def main_operator_def DbOperatorRepository_def operator_service.simps
      operator_repository.simps op_getThreadById_def findFirst_def
    by (intro preserves same_state_pre queries_stay)
  have lists: "stays same_state (op_listParticipants D i)" "stays same_state (op_listMessages D i n)"
    "stays same_state (op_listTriggerJobs D i n)" for i n
    unfolding op_listParticipants_def op_listMessages_def op_listTriggerJobs_def
    by (intro preserves same_state_pre queries_stay jobs_stay)+
  have sel: "os_now ?S = now" "or_listParticipants (os_repository ?S) = op_listParticipants D"
    "or_listMessages (os_repository ?S) = op_listMessages D" "or_listTriggerJobs (os_repository ?S) = op_listTriggerJobs D"
    "os_workspaceId ?S = ws"
    by (simp_all add: main_operator_def DbOperatorRepository_def)
  have "stays same_state (operator_execute ?S (InspectThread tid m t json))"
    unfolding operator_execute.simps sel by (intro preserves same_state_pre thread_stays lists now_stays)
  from staysD [OF this run] show "state w' = state w" by (simp add: same_state_def)
  assume "r = Inr res"
  with run obtain row w1 ps w2 ms w3 js w4 h where
    a: "existing_thread ?S tid w = (Inr row, w1)" and b: "op_listParticipants D (tw_threadId row) w1 = (Inr ps, w2)"
    and c: "op_listMessages D (tw_threadId row) m w2 = (Inr ms, w3)"
    and d: "op_listTriggerJobs D (tw_threadId row) t w3 = (Inr js, w4)"
    and res: "rs_data res = InspectData row ps ms js"
    by (auto simp: sel)
  have s: "state w1 = state w" "state w2 = state w" "state w3 = state w"
    using staysD [OF thread_stays a] staysD [OF lists(1) b] staysD [OF lists(2) c] by (simp_all add: same_state_def)
  from operator_cli.existing_thread_effect(5) [OF main_operator_cli [OF now] a wf(1) refl]
  have row: "thread_row_at (state w) tid = Some row" "tw_workspaceId row = ws" "tw_threadId row = tid"
    by (simp_all add: sel)
  from b obtain rows where rows: "db_findMany (dc_participants D) (\<lambda>row. pw_threadId row = tid) (AscText pw_agentId) None w1 = (Inr rows, w2)"
    "ps = map pw_agentId rows" by (auto simp: op_listParticipants_def row(3))
  have ps: "mset ps = mset (members (state w) tid)"
    using participants.find_all(2) [OF rows(1)] by (simp add: rows(2) s(1) members_def)
  from d obtain jobs where jobs: "db_findMany (dc_jobs D) (\<lambda>j. jw_threadId j = tid) (Desc jw_createdAt) (Some t) w3 = (Inr jobs, w4)"
    "js = map job_columns jobs" by (auto simp: op_listTriggerJobs_def row(3))
  have ms: "ms = map columns_of_message (drop (length (log_of (state w) tid) - nat m) (log_of (state w) tid))"
    using listMessages_effect [OF c [unfolded row(3)]] wf(2,3) by (simp add: s(2))
  from jobs.find_ok [OF jobs(1)] s(3) row ps ms res jobs(2)
  show "\<exists>row ps jobs. thread_row_at (state w) tid = Some row \<and> tw_workspaceId row = ws \<and>
       mset ps = mset (members (state w) tid) \<and>
       selection (\<lambda>j. jw_threadId j = tid) (Desc jw_createdAt) (Some t) (ds_jobs (state w)) jobs \<and>
       rs_data res = InspectData row ps
         (map columns_of_message (drop (length (log_of (state w) tid) - nat m) (log_of (state w) tid)))
         (map job_columns jobs)" by auto
qed

end

end
