(* ===== verification/OperatorProperties.thy ===== *)
theory OperatorProperties
  imports OperatorMain MainProperties
begin

text \<open>
  The properties of the operator command line: the arguments and the commands they give, what a
  command on a status may change and what it leaves in the audit log, its refusals, the inspection
  of a thread, and the exit code. They hold for every client that keeps the contract of the database.
\<close>

lemma table_threads_wf [simp]: "threads_wf (dm_database table_world)" "messages_unique (dm_database table_world)"
  using table_world_wf(1) by (simp_all add: tables_wf_def)

section \<open>The arguments\<close>

text \<open>C32: the command line accepts only commands with a thread, a reason and an actor that are not
  blank and limits that are positive, and the arguments written for such a command give it back,
  whatever its values are, if none of them looks like an option or is beyond 53 bits.\<close>

theorem operator_arguments_round_trip:
  "(parseOperatorCommand argv = Inr parsed \<longrightarrow> command_ok parsed) \<and>
   (command_ok c \<and> printable c \<longrightarrow> parseOperatorCommand (argv_of c) = Inr c)"
  by (blast intro: parsed_command_ok parse_argv)

definition table_escalate :: operator_command where
  "table_escalate = EscalateThread ''th'' ''waits for review'' ''op'' True"

theorem operator_arguments_round_trip_witness:
  "parseOperatorCommand (argv_of table_escalate) = Inr table_escalate \<and>
   parseOperatorCommand (argv_of (InspectThread ''th'' 5 20 False)) = Inr (InspectThread ''th'' 5 20 False) \<and>
   command_ok table_escalate"
proof -
  have ok: "command_ok table_escalate" "printable table_escalate"
    "command_ok (InspectThread ''th'' 5 20 False)" "printable (InspectThread ''th'' 5 20 False)" by code_simp+
  note r = operator_arguments_round_trip [THEN conjunct2, THEN mp]
  from r [OF conjI [OF ok(1,2)]] r [OF conjI [OF ok(3,4)]] ok(1) show ?thesis by blast
qed

text \<open>A run never fails: for arguments that spell a command, the exit code is 0 with the result in
  the chosen format if the command succeeds, and 1 with the code and message of the error if not.\<close>

theorem operator_run_reports:
  assumes "command_ok c" "printable c" "operator_execute (main_operator D (oc_WORKSPACE_ID config) now) c w = (r, w')"
  shows "operator_run (Inr config) D now (argv_of c) w =
    (case r of Inr result \<Rightarrow> (Inr (0, Result (\<not> oc_json c \<and> oc_OPERATOR_OUTPUT_FORMAT config = ''pretty'') result), w')
     | Inl e \<Rightarrow> (Inr (operator_failure e), w'))"
proof -
  have "argv_of c \<noteq> [] \<and> hd (argv_of c) \<noteq> ''--help'' \<and> hd (argv_of c) \<noteq> ''help''" by (cases c) simp_all
  then show ?thesis
    by (cases r) (simp_all add: operator_run_def parse_argv [OF assms(1,2)] writeOutput_def
        io_catch_def io_bind_def assms(3))
qed

theorem operator_run_reports_witness:
  "\<exists>result w'. operator_run (Inr \<lparr>oc_WORKSPACE_ID = ''w'', oc_OPERATOR_OUTPUT_FORMAT = ''pretty''\<rparr>) table_client
     (io_return 50) (argv_of table_escalate) table_world = (Inr (0, Result False result), w')"
proof -
  let ?c = "\<lparr>oc_WORKSPACE_ID = ''w'', oc_OPERATOR_OUTPUT_FORMAT = ''pretty''\<rparr>"
  let ?e = "operator_execute (main_operator table_client (oc_WORKSPACE_ID ?c) (io_return 50)) table_escalate table_world"
  have e: "?e = (Inr (projr (fst ?e)), snd ?e)" by (rule run_ok) code_simp
  have ok: "command_ok table_escalate" "printable table_escalate" by code_simp+
  from operator_run_reports [OF ok e] show ?thesis by (simp add: table_escalate_def)
qed

section \<open>A command on a status\<close>

text \<open>C7: a status command that succeeds was given for a thread of the workspace of the operator; it
  changes that thread along an allowed transition, with an override reason when it closes a
  blocked one, or leaves it if the status is already the one asked for; either way it adds one
  audit event with the actor, the two statuses and the reason, and touches no other table.\<close>

theorem operator_status_change:
  assumes "database D state" "threads_wf (state w)" "\<forall>w r w'. now w = (r, w') \<longrightarrow> state w' = state w"
    "status_of_command c = Some new" "operator_execute (main_operator D ws now) c w = (Inr res, w')"
  shows "\<exists>row. thread_row_at (state w) (oc_threadId c) = Some row \<and> tw_workspaceId row = ws \<and>
    rs_command res = command_name c \<and> operator_rest (state w') = operator_rest (state w) \<and>
    (if tw_status row = new then
       rs_data res = StatusData (oc_threadId c) new False \<and> thread_row_at (state w') = thread_row_at (state w) \<and>
       (\<exists>t. ds_audit (state w') = ds_audit (state w) @ [audit_of_event (status_event row (oc_actorAgentId c)
          (command_name c) (status_payload new new (oc_reason c) @ [(''noop'', JBool True)]) t)])
     else
       rs_data res = StatusData (oc_threadId c) new True \<and> status_allowed row new (oc_reason c) \<and>
       (\<exists>u t. let row' = row\<lparr>tw_status := new, tw_updatedAt := u\<rparr> in
          thread_row_at (state w') = (thread_row_at (state w))(oc_threadId c \<mapsto> row') \<and>
          ds_audit (state w') = ds_audit (state w) @ [audit_of_event (status_event row' (oc_actorAgentId c)
            (command_name c) (status_payload (tw_status row) new (oc_reason c)) t)]))"
proof -
  have cli: "operator_cli (main_operator D ws now) (\<lambda>w. thread_row_at (state w)) (\<lambda>w. ds_audit (state w))
     (\<lambda>w. operator_rest (state w)) (\<lambda>w. threads_wf (state w))"
    by (rule database.main_operator_cli [OF assms(1)]) (use assms(3) in blast)
  have ws: "os_workspaceId (main_operator D ws now) = ws" by (simp add: main_operator_def)
  note e = operator_cli.transition_effect [OF cli assms(5) [unfolded execute_status [OF assms(4)]] assms(2), unfolded ws]
  from e(3) [OF refl] obtain row where row: "thread_row_at (state w) (oc_threadId c) = Some row" "tw_workspaceId row = ws"
    "rs_command res = command_name c"
    and eff: "if tw_status row = new then rs_data res = StatusData (oc_threadId c) new False \<and>
        thread_row_at (state w') = thread_row_at (state w) \<and>
        (\<exists>t. ds_audit (state w') = ds_audit (state w) @ [audit_of_event (status_event row (oc_actorAgentId c)
          (command_name c) (status_payload new new (oc_reason c) @ [(''noop'', JBool True)]) t)])
      else rs_data res = StatusData (oc_threadId c) new True \<and> status_allowed row new (oc_reason c) \<and>
        (\<exists>u t. thread_row_at (state w') = (thread_row_at (state w))(oc_threadId c \<mapsto> row\<lparr>tw_status := new, tw_updatedAt := u\<rparr>) \<and>
          ds_audit (state w') = ds_audit (state w) @ [audit_of_event (status_event (row\<lparr>tw_status := new, tw_updatedAt := u\<rparr>)
            (oc_actorAgentId c) (command_name c) (status_payload (tw_status row) new (oc_reason c)) t)])" by blast
  show ?thesis unfolding Let_def by (intro exI [of _ row] conjI row e(2) eff)
qed

abbreviation table_command :: "operator_command \<Rightarrow> (exn + operator_result) \<times> main_world" where
  "table_command c \<equiv> operator_execute (main_operator table_client ''w'' (io_return 50)) c table_world"

lemma runs_ok: "\<not> isl (fst x) \<Longrightarrow> \<exists>res w'. x = (Inr res, w')"
  by (cases "fst x") (auto simp: prod_eq_iff)

lemma table_clock: "\<forall>w r w'. (io_return 50 :: (main_world, exn, int) io) w = (r, w') \<longrightarrow> dm_database w' = dm_database w"
  by simp

theorem operator_status_change_witness:
  "\<exists>res w'. table_command table_escalate = (Inr res, w') \<and>
     (\<exists>row. thread_row_at (dm_database w') ''th'' = Some row \<and> tw_status row = Blocked) \<and>
     length (ds_audit (dm_database w')) = 1 \<and> operator_rest (dm_database w') = operator_rest (dm_database table_world)"
proof -
  have "\<exists>res w'. table_command table_escalate = (Inr res, w')" by (rule runs_ok) code_simp
  then obtain res w' where e: "table_command table_escalate = (Inr res, w')" by blast
  have c: "status_of_command table_escalate = Some Blocked" "oc_threadId table_escalate = ''th''"
    by (simp_all add: table_escalate_def)
  have row: "tw_status row = Active" if "thread_row_at (dm_database table_world) ''th'' = Some row" for row
    using that by (auto simp: table_world_def table_rows_def thread_row_at_def)
  have none: "ds_audit (dm_database table_world) = []" by (simp add: table_world_def table_rows_def)
  note h = operator_status_change [OF table_db.database_axioms table_threads_wf(1) table_clock c(1) e, unfolded c(2) Let_def none]
  have "\<exists>r u ev. thread_row_at (dm_database w') ''th'' = Some (r\<lparr>tw_status := Blocked, tw_updatedAt := u\<rparr>) \<and>
      ds_audit (dm_database w') = [ev] \<and> operator_rest (dm_database w') = operator_rest (dm_database table_world)"
    using h
  proof (elim exE conjE, goal_cases)
    case (1 r)
    have "tw_status r \<noteq> Blocked" using row [OF 1(1)] by simp
    from 1(5) [unfolded if_not_P [OF this]] obtain u ev where
      "thread_row_at (dm_database w') = (thread_row_at (dm_database table_world))(''th'' \<mapsto> r\<lparr>tw_status := Blocked, tw_updatedAt := u\<rparr>)"
      "ds_audit (dm_database w') = [] @ [ev]" by blast
    with 1(4) show ?case by (intro exI [of _ r] exI [of _ u] exI [of _ ev] conjI) simp_all
  qed
  then obtain r u ev where r: "thread_row_at (dm_database w') ''th'' = Some (r\<lparr>tw_status := Blocked, tw_updatedAt := u\<rparr>)"
    and log: "ds_audit (dm_database w') = [ev]"
    and rest: "operator_rest (dm_database w') = operator_rest (dm_database table_world)" by blast
  have "\<exists>row. thread_row_at (dm_database w') ''th'' = Some row \<and> tw_status row = Blocked" by (simp add: r)
  moreover have "length (ds_audit (dm_database w')) = 1" by (simp add: log)
  ultimately show ?thesis using e rest by blast
qed



section \<open>An inspection\<close>

text \<open>C35: an inspection changes nothing and answers with the thread of the workspace, its participants,
  its last messages in the order of the log and its newest trigger jobs, as the tables hold them
  and no more of each than asked for.\<close>

theorem operator_inspection:
  assumes "database D state" "threads_wf (state w)" "messages_unique (state w)"
    "\<forall>w r w'. now w = (r, w') \<longrightarrow> state w' = state w" "0 \<le> m"
    "operator_execute (main_operator D ws now) (InspectThread tid m t json) w = (Inr res, w')"
  shows "state w' = state w \<and> (\<exists>row ps jobs. thread_row_at (state w) tid = Some row \<and> tw_workspaceId row = ws \<and>
    mset ps = mset (members (state w) tid) \<and>
    selection (\<lambda>j. jw_threadId j = tid) (Desc jw_createdAt) (Some t) (ds_jobs (state w)) jobs \<and>
    rs_data res = InspectData row ps
      (map columns_of_message (drop (length (log_of (state w) tid) - nat m) (log_of (state w) tid)))
      (map job_columns jobs))"
  using database.inspect_effect [OF assms(1,6) _ assms(2,3,5)] assms(4) by blast

theorem operator_inspection_witness:
  "\<exists>res w' row ps jobs. table_command (InspectThread ''th'' 5 5 True) = (Inr res, w') \<and>
     dm_database w' = dm_database table_world \<and>
     rs_data res = InspectData row ps (map columns_of_message (log_of (dm_database table_world) ''th'')) (map job_columns jobs) \<and>
     mset ps = {#''a''#}"
proof -
  have "\<exists>res w'. table_command (InspectThread ''th'' 5 5 True) = (Inr res, w')" by (rule runs_ok) code_simp
  then obtain res w' where e: "table_command (InspectThread ''th'' 5 5 True) = (Inr res, w')" by blast
  have n: "length (log_of (dm_database table_world) ''th'') - nat 5 = 0" "members (dm_database table_world) ''th'' = [''a'']"
    by (simp_all add: table_world_def table_rows_def log_of_def log_rows_def members_def)
  have "0 \<le> (5::int)" by simp
  from operator_inspection [OF table_db.database_axioms table_threads_wf table_clock this e, unfolded n drop_0]
  obtain row ps jobs where s: "dm_database w' = dm_database table_world" and ps: "mset ps = mset [''a'']"
    and d: "rs_data res = InspectData row ps (map columns_of_message (log_of (dm_database table_world) ''th'')) (map job_columns jobs)"
    by blast
  have "mset ps = {#''a''#}" by (simp add: ps)
  then show ?thesis using e s d by (intro exI conjI)
qed

end
