(* ===== verification/Zod.thy ===== *)
theory Zod
  imports IsoDate JsNumber
begin

text \<open>
  The schemas of zod as data, one constructor for each combinator that the sources chain, and what
  the sources rely on of the library as the locale \<open>zod_library\<close>: for each combinator, when a value
  is accepted and what it becomes. A property that is not there, or an environment variable that
  is not set, is \<open>None\<close>. The texts of the issues are the library's own. \<open>zod_parse\<close> is a parser
  that keeps these laws.
\<close>

section \<open>Schemas\<close>

datatype zod =
    ZString | ZTrim zod | ZMinLength nat zod | ZDatetime zod | ZUrl zod
  | ZNumber | ZInt zod | ZNonNegative zod | ZPositive zod | ZMax int zod
  | ZBoolean | ZLiteral json | ZEnum "string list" | ZUnknown
  | ZArray zod | ZMinItems nat zod | ZRecord zod | ZObject "(string \<times> zod) list"
  | ZOptional zod | ZNullable zod | ZDefault json zod
  | ZTransform "json option \<Rightarrow> json option" zod | ZPipe zod zod

text \<open>\<open>pick\<close> keeps the named fields of an object, \<open>extend\<close> adds fields; both return a new object schema.\<close>

fun zod_pick :: "string list \<Rightarrow> zod \<Rightarrow> zod" where
  "zod_pick keys (ZObject shape) = ZObject (filter (\<lambda>(k, _). k \<in> set keys) shape)"
| "zod_pick keys z = z"

fun zod_extend :: "zod \<Rightarrow> (string \<times> zod) list \<Rightarrow> zod" where
  "zod_extend (ZObject shape) added = ZObject (filter (\<lambda>(k, _). k \<notin> fst ` set added) shape @ added)"
| "zod_extend z added = z"

section \<open>Values\<close>

fun text_that :: "(string \<Rightarrow> bool) \<Rightarrow> json option \<Rightarrow> bool" where
  "text_that P (Some (JString s)) = P s"
| "text_that P _ = False"

fun number_that :: "(js_number \<Rightarrow> bool) \<Rightarrow> json option \<Rightarrow> bool" where
  "number_that P (Some (JNumber n)) = P n"
| "number_that P _ = False"

fun items_that :: "(json list \<Rightarrow> bool) \<Rightarrow> json option \<Rightarrow> bool" where
  "items_that P (Some (JArray js)) = P js"
| "items_that P _ = False"

lemma that_iff:
  "text_that P x \<longleftrightarrow> (\<exists>s. x = Some (JString s) \<and> P s)"
  "number_that Q x \<longleftrightarrow> (\<exists>n. x = Some (JNumber n) \<and> Q n)"
  "items_that R x \<longleftrightarrow> (\<exists>js. x = Some (JArray js) \<and> R js)"
proof -
  show "text_that P x \<longleftrightarrow> (\<exists>s. x = Some (JString s) \<and> P s)" by (cases "(P, x)" rule: text_that.cases) auto
  show "number_that Q x \<longleftrightarrow> (\<exists>n. x = Some (JNumber n) \<and> Q n)" by (cases "(Q, x)" rule: number_that.cases) auto
  show "items_that R x \<longleftrightarrow> (\<exists>js. x = Some (JArray js) \<and> R js)" by (cases "(R, x)" rule: items_that.cases) auto
qed

fun js_at_least :: "int \<Rightarrow> js_number \<Rightarrow> bool" where
  "js_at_least c NaN = False"
| "js_at_least c (Infinite positive) = positive"
| "js_at_least c (Finite r) = (of_int c \<le> r)"

fun js_above :: "int \<Rightarrow> js_number \<Rightarrow> bool" where
  "js_above c NaN = False"
| "js_above c (Infinite positive) = positive"
| "js_above c (Finite r) = (of_int c < r)"

fun js_at_most :: "int \<Rightarrow> js_number \<Rightarrow> bool" where
  "js_at_most c NaN = False"
| "js_at_most c (Infinite positive) = (\<not> positive)"
| "js_at_most c (Finite r) = (r \<le> of_int c)"

text \<open>The fields of an object that have a value, in the order of the schema.\<close>

definition present :: "(string \<times> json option) list \<Rightarrow> (string \<times> json) list" where
  "present fs = concat (map (\<lambda>(k, v). case v of None \<Rightarrow> [] | Some x \<Rightarrow> [(k, x)]) fs)"

lemma map_of_present:
  "distinct (map fst fs) \<Longrightarrow> map_of (present fs) k = (case map_of fs k of None \<Rightarrow> None | Some v \<Rightarrow> v)"
proof (induction fs)
  case (Cons f fs)
  have "k \<notin> fst ` set fs \<Longrightarrow> map_of fs k = None" by (simp add: map_of_eq_None_iff)
  with Cons show ?case by (cases f) (auto simp: present_def split: option.split)
qed (simp add: present_def)

section \<open>Reading a parsed value\<close>

fun member :: "json \<Rightarrow> string \<Rightarrow> json option" where
  "member (JObject kvs) k = map_of kvs k"
| "member _ k = None"

fun text_of :: "json option \<Rightarrow> string" where
  "text_of (Some (JString s)) = s"
| "text_of _ = []"

fun text_option :: "json option \<Rightarrow> string option" where
  "text_option (Some (JString s)) = Some s"
| "text_option _ = None"

fun int_of :: "json option \<Rightarrow> int" where
  "int_of (Some (JNumber (Finite r))) = \<lfloor>r\<rfloor>"
| "int_of _ = 0"

fun bool_of :: "json option \<Rightarrow> bool" where
  "bool_of (Some (JBool b)) = b"
| "bool_of _ = False"

fun texts_of :: "json option \<Rightarrow> string list" where
  "texts_of (Some (JArray js)) = map (\<lambda>j. text_of (Some j)) js"
| "texts_of _ = []"

section \<open>What the sources rely on\<close>

locale zod_library =
  fixes parse :: "zod \<Rightarrow> json option \<Rightarrow> string + json option"
    and is_datetime :: "string \<Rightarrow> bool" and is_url :: "string \<Rightarrow> bool"
  assumes string: "parse ZString x = Inr y \<longleftrightarrow> y = x \<and> text_that (\<lambda>_. True) x"
    and trim: "parse (ZTrim z) x = Inr y \<longleftrightarrow> (\<exists>s. parse z x = Inr (Some (JString s)) \<and> y = Some (JString (trim s)))"
    and min_length: "parse (ZMinLength n z) x = Inr y \<longleftrightarrow> parse z x = Inr y \<and> text_that (\<lambda>s. n \<le> length s) y"
    and datetime: "parse (ZDatetime z) x = Inr y \<longleftrightarrow> parse z x = Inr y \<and> text_that is_datetime y"
    and url: "parse (ZUrl z) x = Inr y \<longleftrightarrow> parse z x = Inr y \<and> text_that is_url y"
    and number: "parse ZNumber x = Inr y \<longleftrightarrow> y = x \<and> number_that (\<lambda>n. n \<noteq> NaN) x"
    and int: "parse (ZInt z) x = Inr y \<longleftrightarrow> parse z x = Inr y \<and> number_that isInteger y"
    and nonnegative: "parse (ZNonNegative z) x = Inr y \<longleftrightarrow> parse z x = Inr y \<and> number_that (js_at_least 0) y"
    and positive: "parse (ZPositive z) x = Inr y \<longleftrightarrow> parse z x = Inr y \<and> number_that (js_above 0) y"
    and max: "parse (ZMax c z) x = Inr y \<longleftrightarrow> parse z x = Inr y \<and> number_that (js_at_most c) y"
    and boolean: "parse ZBoolean x = Inr y \<longleftrightarrow> y = x \<and> (\<exists>b. x = Some (JBool b))"
    and literal: "parse (ZLiteral v) x = Inr y \<longleftrightarrow> y = x \<and> x = Some v"
    and enum: "parse (ZEnum vs) x = Inr y \<longleftrightarrow> y = x \<and> text_that (\<lambda>s. s \<in> set vs) x"
    and unknown: "parse ZUnknown x = Inr y \<longleftrightarrow> y = x"
    and array: "parse (ZArray z) x = Inr y \<longleftrightarrow> (\<exists>js ys. x = Some (JArray js) \<and>
        list_all2 (\<lambda>j v. parse z (Some j) = Inr (Some v)) js ys \<and> y = Some (JArray ys))"
    and min_items: "parse (ZMinItems n z) x = Inr y \<longleftrightarrow> parse z x = Inr y \<and> items_that (\<lambda>js. n \<le> length js) y"
    and records: "parse (ZRecord z) x = Inr y \<longleftrightarrow> (\<exists>kvs ys. x = Some (JObject kvs) \<and>
        list_all2 (\<lambda>kv kv'. fst kv' = fst kv \<and> parse z (Some (snd kv)) = Inr (Some (snd kv'))) kvs ys \<and>
        y = Some (JObject ys))"
    and object: "parse (ZObject shape) x = Inr y \<longleftrightarrow> (\<exists>kvs vs. x = Some (JObject kvs) \<and>
        list_all2 (\<lambda>f v. parse (snd f) (map_of kvs (fst f)) = Inr v) shape vs \<and>
        y = Some (JObject (present (zip (map fst shape) vs))))"
    and optional: "parse (ZOptional z) x = (case x of None \<Rightarrow> Inr None | Some _ \<Rightarrow> parse z x)"
    and nullable: "parse (ZNullable z) x = (if x = Some JNull then Inr x else parse z x)"
    and default: "parse (ZDefault v z) x = (case x of None \<Rightarrow> parse z (Some v) | Some _ \<Rightarrow> parse z x)"
    and transform: "parse (ZTransform f z) x = (case parse z x of Inl e \<Rightarrow> Inl e | Inr y \<Rightarrow> Inr (f y))"
    and pipe: "parse (ZPipe a b) x = (case parse a x of Inl e \<Rightarrow> Inl e | Inr y \<Rightarrow> parse b y)"
    and iso_datetime: "0 \<le> t \<Longrightarrow> t < 253402300800000 \<Longrightarrow> is_datetime (toISOString t)"
begin

lemmas laws = string trim min_length datetime url number int nonnegative positive max boolean literal enum
  unknown array min_items records object optional nullable default transform pipe

text \<open>An object whose fields are all accepted as they are.\<close>

lemma object_same:
  assumes "list_all2 (\<lambda>f kv. fst f = fst kv \<and> parse (snd f) (snd kv) = Inr (snd kv)) shape kvs"
    "distinct (map fst kvs)"
  shows "parse (ZObject shape) (Some (JObject (present kvs))) = Inr (Some (JObject (present kvs)))"
proof -
  have keys: "map fst shape = map fst kvs" using assms(1) by (auto simp: list_all2_conv_all_nth intro: nth_equalityI)
  have "map_of (present kvs) (fst kv) = snd kv" if "kv \<in> set kvs" for kv
    using map_of_is_SomeI [OF assms(2), of "fst kv" "snd kv"] that by (simp add: map_of_present [OF assms(2)])
  then have "list_all2 (\<lambda>f v. parse (snd f) (map_of (present kvs) (fst f)) = Inr v) shape (map snd kvs)"
    using assms(1) by (auto simp: list_all2_conv_all_nth)
  moreover have "zip (map fst shape) (map snd kvs) = kvs" by (simp add: keys zip_map_fst_snd)
  ultimately show ?thesis by (auto simp: object)
qed

text \<open>The value of a field is what its schema made of the field that was given.\<close>

lemma object_value:
  assumes "parse (ZObject shape) (Some p) = Inr v" "distinct (map fst shape)" "map_of shape k = Some z"
  shows "parse z (member p k) = Inr (member (case v of None \<Rightarrow> JNull | Some j \<Rightarrow> j) k)"
proof -
  from assms(1) obtain kvs vs where vs: "list_all2 (\<lambda>f v. parse (snd f) (map_of kvs (fst f)) = Inr v) shape vs"
    "v = Some (JObject (present (zip (map fst shape) vs)))" and p: "p = JObject kvs" by (auto simp: object)
  have len: "length vs = length shape" using vs(1) by (simp add: list_all2_lengthD)
  from assms(3) obtain i where i: "i < length shape" "shape ! i = (k, z)"
    by (metis in_set_conv_nth map_of_SomeD)
  let ?fs = "zip (map fst shape) vs"
  have d: "distinct (map fst ?fs)" using assms(2) len by simp
  have "(k, vs ! i) \<in> set ?fs" using i len by (force simp: in_set_zip)
  then have "map_of ?fs k = Some (vs ! i)" by (rule map_of_is_SomeI [OF d])
  then have "member (JObject (present ?fs)) k = vs ! i" by (simp add: map_of_present [OF d])
  moreover have "parse z (map_of kvs k) = Inr (vs ! i)" using list_all2_nthD [OF vs(1) i(1)] i(2) by simp
  ultimately show ?thesis using vs(2) p by simp
qed

lemma object_field:
  "parse (ZObject shape) (Some p) = Inr v \<Longrightarrow> distinct (map fst shape) \<Longrightarrow> map_of shape k = Some z \<Longrightarrow>
     \<exists>x. parse z x = Inr (member (case v of None \<Rightarrow> JNull | Some j \<Rightarrow> j) k)"
  using object_value by blast

lemma object_accepts_iff:
  "(\<exists>y. parse (ZObject shape) (Some (JObject kvs)) = Inr y) \<longleftrightarrow>
     (\<forall>f\<in>set shape. \<exists>v. parse (snd f) (map_of kvs (fst f)) = Inr v)"
proof -
  have "(\<exists>vs. list_all2 (\<lambda>f v. parse (snd f) (map_of kvs (fst f)) = Inr v) shape vs) \<longleftrightarrow>
      (\<forall>f\<in>set shape. \<exists>v. parse (snd f) (map_of kvs (fst f)) = Inr v)"
    by (induction shape) (auto simp: list_all2_Cons1)
  then show ?thesis by (auto simp: object)
qed

lemma pipe_Inr: "parse (ZPipe a b) x = Inr y \<longleftrightarrow> (\<exists>v. parse a x = Inr v \<and> parse b v = Inr y)"
  by (auto simp: pipe split: sum.split)

lemma transform_Inr: "parse (ZTransform f z) x = Inr y \<longleftrightarrow> (\<exists>v. parse z x = Inr v \<and> y = f v)"
  by (auto simp: transform split: sum.split)

lemma optional_Inr: "parse (ZOptional z) x = Inr y \<longleftrightarrow> x = None \<and> y = None \<or> x \<noteq> None \<and> parse z x = Inr y"
  by (auto simp: optional split: option.split)

lemma default_Inr:
  "parse (ZDefault v z) x = Inr y \<longleftrightarrow> x = None \<and> parse z (Some v) = Inr y \<or> x \<noteq> None \<and> parse z x = Inr y"
  by (auto simp: default split: option.split)

end

section \<open>A parser\<close>

definition invalid :: "string + json option" where
  "invalid = Inl ''Invalid input''"

definition check :: "(json option \<Rightarrow> bool) \<Rightarrow> string + json option \<Rightarrow> string + json option" where
  "check P r = (case r of Inl e \<Rightarrow> Inl e | Inr y \<Rightarrow> if P y then r else invalid)"

fun gather :: "(string + json option) list \<Rightarrow> json list option" where
  "gather [] = Some []"
| "gather (Inr (Some v) # rs) = map_option ((#) v) (gather rs)"
| "gather _ = None"

fun gather_fields :: "(string + json option) list \<Rightarrow> json option list option" where
  "gather_fields [] = Some []"
| "gather_fields (Inr v # rs) = map_option ((#) v) (gather_fields rs)"
| "gather_fields _ = None"

fun zod_parse :: "(string \<Rightarrow> bool) \<Rightarrow> (string \<Rightarrow> bool) \<Rightarrow> zod \<Rightarrow> json option \<Rightarrow> string + json option" where
  "zod_parse dt u ZString x = check (text_that (\<lambda>_. True)) (Inr x)"
| "zod_parse dt u (ZTrim z) x =
     (case zod_parse dt u z x of Inr (Some (JString s)) \<Rightarrow> Inr (Some (JString (trim s))) | _ \<Rightarrow> invalid)"
| "zod_parse dt u (ZMinLength n z) x = check (text_that (\<lambda>s. n \<le> length s)) (zod_parse dt u z x)"
| "zod_parse dt u (ZDatetime z) x = check (text_that dt) (zod_parse dt u z x)"
| "zod_parse dt u (ZUrl z) x = check (text_that u) (zod_parse dt u z x)"
| "zod_parse dt u ZNumber x = check (number_that (\<lambda>n. n \<noteq> NaN)) (Inr x)"
| "zod_parse dt u (ZInt z) x = check (number_that isInteger) (zod_parse dt u z x)"
| "zod_parse dt u (ZNonNegative z) x = check (number_that (js_at_least 0)) (zod_parse dt u z x)"
| "zod_parse dt u (ZPositive z) x = check (number_that (js_above 0)) (zod_parse dt u z x)"
| "zod_parse dt u (ZMax c z) x = check (number_that (js_at_most c)) (zod_parse dt u z x)"
| "zod_parse dt u ZBoolean x = (case x of Some (JBool b) \<Rightarrow> Inr x | _ \<Rightarrow> invalid)"
| "zod_parse dt u (ZLiteral v) x = (if x = Some v then Inr x else invalid)"
| "zod_parse dt u (ZEnum vs) x = check (text_that (\<lambda>s. s \<in> set vs)) (Inr x)"
| "zod_parse dt u ZUnknown x = Inr x"
| "zod_parse dt u (ZArray z) x =
     (case x of Some (JArray js) \<Rightarrow>
        (case gather (map (\<lambda>j. zod_parse dt u z (Some j)) js) of None \<Rightarrow> invalid | Some ys \<Rightarrow> Inr (Some (JArray ys)))
      | _ \<Rightarrow> invalid)"
| "zod_parse dt u (ZMinItems n z) x = check (items_that (\<lambda>js. n \<le> length js)) (zod_parse dt u z x)"
| "zod_parse dt u (ZRecord z) x =
     (case x of Some (JObject kvs) \<Rightarrow>
        (case gather (map (\<lambda>kv. zod_parse dt u z (Some (snd kv))) kvs) of
           None \<Rightarrow> invalid | Some ys \<Rightarrow> Inr (Some (JObject (zip (map fst kvs) ys))))
      | _ \<Rightarrow> invalid)"
| "zod_parse dt u (ZObject shape) x =
     (case x of Some (JObject kvs) \<Rightarrow>
        (case gather_fields (map (\<lambda>f. zod_parse dt u (snd f) (map_of kvs (fst f))) shape) of
           None \<Rightarrow> invalid | Some vs \<Rightarrow> Inr (Some (JObject (present (zip (map fst shape) vs)))))
      | _ \<Rightarrow> invalid)"
| "zod_parse dt u (ZOptional z) x = (case x of None \<Rightarrow> Inr None | Some _ \<Rightarrow> zod_parse dt u z x)"
| "zod_parse dt u (ZNullable z) x = (if x = Some JNull then Inr x else zod_parse dt u z x)"
| "zod_parse dt u (ZDefault v z) x = (case x of None \<Rightarrow> zod_parse dt u z (Some v) | Some _ \<Rightarrow> zod_parse dt u z x)"
| "zod_parse dt u (ZTransform f z) x = (case zod_parse dt u z x of Inl e \<Rightarrow> Inl e | Inr y \<Rightarrow> Inr (f y))"
| "zod_parse dt u (ZPipe a b) x = (case zod_parse dt u a x of Inl e \<Rightarrow> Inl e | Inr y \<Rightarrow> zod_parse dt u b y)"

lemma check_Inr [simp]: "check P r = Inr y \<longleftrightarrow> r = Inr y \<and> P y"
  by (auto simp: check_def invalid_def split: sum.split)

lemma invalid_Inr [simp]: "invalid \<noteq> Inr y"
  by (simp add: invalid_def)

lemma gather_iff: "gather rs = Some ys \<longleftrightarrow> list_all2 (\<lambda>r v. r = Inr (Some v)) rs ys"
proof (induction rs arbitrary: ys rule: gather.induct)
  case (2 v rs)
  then show ?case by (cases ys) auto
qed (auto simp: list_all2_Cons1)

lemma gather_fields_iff: "gather_fields rs = Some ys \<longleftrightarrow> list_all2 (\<lambda>r v. r = Inr v) rs ys"
proof (induction rs arbitrary: ys rule: gather_fields.induct)
  case (2 v rs)
  then show ?case by (cases ys) auto
qed (auto simp: list_all2_Cons1)

lemma gather_case:
  "(case gather rs of None \<Rightarrow> invalid | Some ys \<Rightarrow> Inr (f ys)) = Inr y \<longleftrightarrow>
     (\<exists>ys. list_all2 (\<lambda>r v. r = Inr (Some v)) rs ys \<and> y = f ys)"
  unfolding gather_iff [symmetric] by (auto split: option.split)

lemma gather_fields_case:
  "(case gather_fields rs of None \<Rightarrow> invalid | Some vs \<Rightarrow> Inr (f vs)) = Inr y \<longleftrightarrow>
     (\<exists>vs. list_all2 (\<lambda>r v. r = Inr v) rs vs \<and> y = f vs)"
  unfolding gather_fields_iff [symmetric] by (auto split: option.split)

text \<open>A text with the characters of a date and time, with an offset or \<open>Z\<close>.\<close>

definition stamp_char :: "char \<Rightarrow> bool" where
  "stamp_char c \<longleftrightarrow> is_digit 10 c \<or> c \<in> set ''-+:.TZ''"

definition datetime_text :: "string \<Rightarrow> bool" where
  "datetime_text s \<longleftrightarrow> 20 \<le> length s \<and> list_all stamp_char s"

definition url_text :: "string \<Rightarrow> bool" where
  "url_text s \<longleftrightarrow> list_ex (starts_with s) [''http://'', ''https://'', ''postgres://'']"

lemma pad_text: "n \<le> length (pad n i)" "list_all stamp_char (pad n i)"
proof -
  show "n \<le> length (pad n i)" by (simp add: pad_def Let_def)
  have "stamp_char CHR ''0''" by code_simp
  moreover have "list_all stamp_char (show_nat (nat i))"
    using show_nat_digits(2) [of "nat i"] by (auto simp: list_all_iff stamp_char_def)
  ultimately show "list_all stamp_char (pad n i)" by (auto simp: pad_def Let_def list_all_iff)
qed

lemma datetime_toISOString: "datetime_text (toISOString t)"
proof -
  obtain y m d where c: "civil_of_days (t div 86400000) = (y, m, d)" by (cases "civil_of_days (t div 86400000)")
  have marks: "stamp_char CHR ''-''" "stamp_char CHR ''+''" "stamp_char CHR '':''" "stamp_char CHR ''.''"
    "stamp_char CHR ''T''" "stamp_char CHR ''Z''" by code_simp+
  have y: "4 \<le> length (iso_year y)" "list_all stamp_char (iso_year y)"
    using pad_text(1) [of 4 y] pad_text(1) [of 6 "\<bar>y\<bar>"] by (auto simp: iso_year_def pad_text(2) marks)
  have "datetime_text (a @ ''-'' @ b @ ''-'' @ c @ ''T'' @ e @ '':'' @ f @ '':'' @ g @ ''.'' @ h @ ''Z'')"
    if "4 \<le> length a" "2 \<le> length b" "2 \<le> length c" "2 \<le> length e" "2 \<le> length f" "2 \<le> length g"
      "3 \<le> length h" "\<forall>s\<in>{a, b, c, e, f, g, h}. list_all stamp_char s" for a b c e f g h
    using that by (simp add: datetime_text_def marks)
  then show ?thesis unfolding toISOString_def Let_def c prod.case by (simp add: y pad_text)
qed

interpretation zod_parser: zod_library "zod_parse datetime_text url_text" datetime_text url_text
proof (unfold_locales, goal_cases)
  case (2 z x y)
  show ?case by (auto split: sum.split option.split json.split)
next
  case (11 x y)
  show ?case by (auto split: option.split json.split)
next
  case (15 z x y)
  show ?case by (simp add: gather_case list_all2_map1 split: option.split json.split)
next
  case (17 z x y)
  have "(\<exists>vs. list_all2 (\<lambda>kv v. zod_parse datetime_text url_text z (Some (snd kv)) = Inr (Some v)) kvs vs \<and>
        y = Some (JObject (zip (map fst kvs) vs))) \<longleftrightarrow>
      (\<exists>ys. list_all2 (\<lambda>kv kv'. fst kv' = fst kv \<and> zod_parse datetime_text url_text z (Some (snd kv)) = Inr (Some (snd kv'))) kvs ys \<and>
        y = Some (JObject ys))" for kvs
  proof (safe, goal_cases)
    case (1 vs)
    then have "list_all2 (\<lambda>kv kv'. fst kv' = fst kv \<and> zod_parse datetime_text url_text z (Some (snd kv)) = Inr (Some (snd kv'))) kvs (zip (map fst kvs) vs)"
      by (auto simp: list_all2_conv_all_nth)
    then show ?case by blast
  next
    case (2 ys)
    then have "list_all2 (\<lambda>kv v. zod_parse datetime_text url_text z (Some (snd kv)) = Inr (Some v)) kvs (map snd ys)"
      "map fst kvs = map fst ys"
      by (auto simp: list_all2_conv_all_nth intro: nth_equalityI)
    then show ?case by (intro exI [of _ "map snd ys"]) (simp add: zip_map_fst_snd)
  qed
  then show ?case by (simp add: gather_case list_all2_map1 split: option.split json.split)
next
  case (18 shape x y)
  show ?case by (simp add: gather_fields_case list_all2_map1 split: option.split json.split)
qed (auto simp: datetime_toISOString)

end
