(* ===== verification/Protocol.thy ===== *)
theory Protocol
  imports BridgeHttp Zod
begin

text \<open>
  The schemas of the protocol (\<open>packages/protocol/src/v1\<close>), each as it is written there, and the
  parsers that the bridge makes of them: what a handler reads of a payload that was accepted. In
  the locale of the library each schema is solved once for what it accepts, so that the
  validation of a request is a rewriting step.
\<close>

section \<open>Common schemas\<close>

definition CURRENT_MESSAGE_SCHEMA_VERSION :: int where
  "CURRENT_MESSAGE_SCHEMA_VERSION = 1"

definition nonEmptyStringSchema :: zod where
  "nonEmptyStringSchema = ZMinLength 1 (ZTrim ZString)"

definition isoDatetimeSchema :: zod where
  "isoDatetimeSchema = ZDatetime ZString"

definition nonNegativeIntSchema :: zod where
  "nonNegativeIntSchema = ZNonNegative (ZInt ZNumber)"

definition positiveIntSchema :: zod where
  "positiveIntSchema = ZPositive (ZInt ZNumber)"

definition paginationLimitSchema :: zod where
  "paginationLimitSchema = ZMax 200 positiveIntSchema"

definition pageSinceSeqSchema :: zod where
  "pageSinceSeqSchema = nonNegativeIntSchema"

definition metadataSchema :: zod where
  "metadataSchema = ZRecord ZUnknown"

definition messageSchemaVersionSchema :: zod where
  "messageSchemaVersionSchema = ZLiteral (JNumber (js_int CURRENT_MESSAGE_SCHEMA_VERSION))"

section \<open>Entities\<close>

definition threadTypeSchema :: zod where
  "threadTypeSchema = ZEnum [''conversation'', ''workflow'', ''incident'']"

definition threadStatusSchema :: zod where
  "threadStatusSchema = ZEnum [''active'', ''blocked'', ''resolved'', ''closed'']"

definition messageKindSchema :: zod where
  "messageKindSchema = ZEnum [''chat'', ''event'', ''system'']"

definition managementModeSchema :: zod where
  "managementModeSchema = ZEnum [''managed'', ''unmanaged'']"

definition sessionStatusSchema :: zod where
  "sessionStatusSchema = ZEnum [''active'', ''idle'', ''offline'']"

definition threadEntitySchema :: zod where
  "threadEntitySchema = ZObject
     [(''thread_id'', nonEmptyStringSchema), (''workspace_id'', nonEmptyStringSchema),
      (''title'', nonEmptyStringSchema), (''type'', threadTypeSchema), (''status'', threadStatusSchema),
      (''participants'', ZArray nonEmptyStringSchema), (''created_at'', isoDatetimeSchema),
      (''updated_at'', isoDatetimeSchema)]"

definition messageEntitySchema :: zod where
  "messageEntitySchema = ZObject
     [(''message_id'', nonEmptyStringSchema), (''thread_id'', nonEmptyStringSchema),
      (''schema_version'', messageSchemaVersionSchema), (''seq'', positiveIntSchema),
      (''sender_agent_id'', nonEmptyStringSchema), (''sender_session_id'', nonEmptyStringSchema),
      (''kind'', messageKindSchema), (''body'', nonEmptyStringSchema),
      (''metadata'', ZOptional metadataSchema), (''in_reply_to'', ZOptional nonEmptyStringSchema),
      (''idempotency_key'', ZOptional nonEmptyStringSchema), (''created_at'', isoDatetimeSchema)]"

definition participantCursorEntitySchema :: zod where
  "participantCursorEntitySchema = ZObject
     [(''thread_id'', nonEmptyStringSchema), (''agent_id'', nonEmptyStringSchema),
      (''last_read_seq'', nonNegativeIntSchema), (''last_acked_message_id'', ZNullable nonEmptyStringSchema),
      (''updated_at'', isoDatetimeSchema)]"

definition sessionEntitySchema :: zod where
  "sessionEntitySchema = ZObject
     [(''agent_id'', nonEmptyStringSchema), (''workspace_id'', nonEmptyStringSchema),
      (''session_id'', nonEmptyStringSchema), (''runtime'', nonEmptyStringSchema),
      (''management_mode'', managementModeSchema), (''resumable'', ZBoolean),
      (''status'', sessionStatusSchema), (''last_heartbeat_at'', isoDatetimeSchema)]"

section \<open>Errors\<close>

definition protocolErrorCodeSchema :: zod where
  "protocolErrorCodeSchema = ZEnum
     [''UNAUTHORIZED'', ''FORBIDDEN'', ''INVALID_ARGUMENT'', ''NOT_FOUND'', ''CONFLICT'', ''WORKSPACE_MISMATCH'',
      ''INVALID_THREAD_TRANSITION'', ''IDEMPOTENCY_CONFLICT'', ''RATE_LIMITED'', ''INTERNAL'']"

definition protocolErrorSchema :: zod where
  "protocolErrorSchema = ZObject
     [(''code'', protocolErrorCodeSchema), (''message'', nonEmptyStringSchema),
      (''details'', ZOptional (ZRecord ZUnknown)), (''retryable'', ZOptional ZBoolean)]"

definition protocolErrorResponseSchema :: zod where
  "protocolErrorResponseSchema = ZObject
     [(''error'', protocolErrorSchema), (''request_id'', ZOptional nonEmptyStringSchema),
      (''occurred_at'', ZOptional isoDatetimeSchema)]"

fun protocolErrorCatalog :: "protocol_error_code \<Rightarrow> string" where
  "protocolErrorCatalog P_UNAUTHORIZED = ''Authentication is required or token is invalid.''"
| "protocolErrorCatalog P_FORBIDDEN = ''Caller is authenticated but not authorized for this operation.''"
| "protocolErrorCatalog P_INVALID_ARGUMENT = ''Request payload failed validation.''"
| "protocolErrorCatalog P_NOT_FOUND = ''Requested resource was not found.''"
| "protocolErrorCatalog P_CONFLICT = ''Operation conflicts with current resource state.''"
| "protocolErrorCatalog P_WORKSPACE_MISMATCH = ''Caller workspace does not match resource workspace.''"
| "protocolErrorCatalog P_INVALID_THREAD_TRANSITION = ''Thread status transition is not allowed.''"
| "protocolErrorCatalog P_IDEMPOTENCY_CONFLICT = ''Idempotency key is already associated with a conflicting request.''"
| "protocolErrorCatalog P_RATE_LIMITED = ''Request exceeded allowed rate limits.''"
| "protocolErrorCatalog P_INTERNAL = ''Unexpected internal error.''"

section \<open>Inputs and outputs of the methods\<close>

definition createThreadInputSchema :: zod where
  "createThreadInputSchema = ZObject
     [(''workspace_id'', nonEmptyStringSchema), (''title'', nonEmptyStringSchema), (''type'', threadTypeSchema),
      (''participants'', ZMinItems 1 (ZArray nonEmptyStringSchema)),
      (''created_by'', ZOptional nonEmptyStringSchema)]"

definition createThreadOutputSchema :: zod where
  "createThreadOutputSchema = ZObject
     [(''thread_id'', nonEmptyStringSchema), (''status'', threadStatusSchema), (''created_at'', isoDatetimeSchema)]"

definition getThreadInputSchema :: zod where
  "getThreadInputSchema = ZObject [(''thread_id'', nonEmptyStringSchema)]"

definition getThreadOutputSchema :: zod where
  "getThreadOutputSchema = threadEntitySchema"

definition updateThreadStatusInputSchema :: zod where
  "updateThreadStatusInputSchema = ZObject
     [(''thread_id'', nonEmptyStringSchema), (''agent_id'', ZOptional nonEmptyStringSchema),
      (''status'', threadStatusSchema), (''reason'', nonEmptyStringSchema),
      (''metadata'', ZOptional (ZRecord ZUnknown))]"

definition updateThreadStatusOutputSchema :: zod where
  "updateThreadStatusOutputSchema = ZObject
     [(''thread_id'', nonEmptyStringSchema), (''status'', threadStatusSchema), (''updated_at'', isoDatetimeSchema)]"

definition summarizeThreadInputSchema :: zod where
  "summarizeThreadInputSchema = ZObject
     [(''thread_id'', nonEmptyStringSchema),
      (''max_messages'', ZDefault (JNumber (js_int 200)) (ZOptional (ZMax 1000 positiveIntSchema)))]"

definition summarizeThreadOutputSchema :: zod where
  "summarizeThreadOutputSchema = ZObject
     [(''summary'', nonEmptyStringSchema), (''open_items'', ZArray nonEmptyStringSchema),
      (''last_status'', threadStatusSchema)]"

definition heartbeatSessionInputSchema :: zod where
  "heartbeatSessionInputSchema = ZObject
     [(''agent_id'', ZOptional nonEmptyStringSchema), (''workspace_id'', ZOptional nonEmptyStringSchema),
      (''session_id'', nonEmptyStringSchema), (''runtime'', nonEmptyStringSchema),
      (''management_mode'', ZDefault (JString ''unmanaged'') (ZOptional managementModeSchema)),
      (''resumable'', ZBoolean), (''status'', sessionStatusSchema)]"

definition heartbeatSessionOutputSchema :: zod where
  "heartbeatSessionOutputSchema = ZObject
     [(''ok'', ZLiteral (JBool True)), (''recorded_at'', isoDatetimeSchema)]"

definition triggerJobStatusSchema :: zod where
  "triggerJobStatusSchema = ZEnum
     [''queued'', ''triggering'', ''deferred'', ''delivered'', ''timeout'', ''failed'', ''fallback_resume'',
      ''fallback_spawn'']"

definition triggerParticipantActionSchema :: zod where
  "triggerParticipantActionSchema = ZEnum [''trigger_runtime'', ''fallback_required'']"

definition triggerParticipantResultSchema :: zod where
  "triggerParticipantResultSchema = ZEnum [''queued'', ''fallback_required'']"

definition triggerParticipantFallbackActionSchema :: zod where
  "triggerParticipantFallbackActionSchema = ZEnum [''resume_session'', ''spawn_session'']"

definition triggerParticipantInputSchema :: zod where
  "triggerParticipantInputSchema = ZObject
     [(''thread_id'', nonEmptyStringSchema), (''target_agent_id'', nonEmptyStringSchema),
      (''reason'', nonEmptyStringSchema), (''trigger_prompt'', nonEmptyStringSchema)]"

definition triggerParticipantOutputSchema :: zod where
  "triggerParticipantOutputSchema = ZObject
     [(''trigger_id'', nonEmptyStringSchema), (''target_agent_id'', nonEmptyStringSchema),
      (''action'', triggerParticipantActionSchema), (''result'', triggerParticipantResultSchema),
      (''job_status'', triggerJobStatusSchema),
      (''fallback_action'', ZOptional triggerParticipantFallbackActionSchema),
      (''target_session_id'', ZOptional nonEmptyStringSchema), (''runtime'', ZOptional nonEmptyStringSchema),
      (''management_mode'', ZOptional managementModeSchema), (''session_status'', ZOptional sessionStatusSchema),
      (''stale_session'', ZBoolean), (''triggered_at'', isoDatetimeSchema)]"

definition postMessageInputSchema :: zod where
  "postMessageInputSchema = ZObject
     [(''thread_id'', nonEmptyStringSchema), (''schema_version'', messageSchemaVersionSchema),
      (''sender_agent_id'', ZOptional nonEmptyStringSchema), (''sender_session_id'', ZOptional nonEmptyStringSchema),
      (''kind'', ZEnum [''chat'', ''event'', ''system'']), (''body'', nonEmptyStringSchema),
      (''metadata'', ZOptional metadataSchema), (''in_reply_to'', ZOptional nonEmptyStringSchema),
      (''idempotency_key'', ZOptional nonEmptyStringSchema)]"

definition postMessageOutputSchema :: zod where
  "postMessageOutputSchema = ZObject
     [(''message_id'', nonEmptyStringSchema), (''seq'', positiveIntSchema), (''thread_status'', threadStatusSchema),
      (''created_at'', isoDatetimeSchema)]"

definition readMessagesInputSchema :: zod where
  "readMessagesInputSchema = ZObject
     [(''thread_id'', nonEmptyStringSchema), (''agent_id'', ZOptional nonEmptyStringSchema),
      (''since_seq'', ZDefault (JNumber (js_int 0)) (ZOptional pageSinceSeqSchema)),
      (''limit'', ZDefault (JNumber (js_int 50)) (ZOptional paginationLimitSchema))]"

definition readMessagesOutputSchema :: zod where
  "readMessagesOutputSchema = ZObject
     [(''messages'', ZArray (zod_pick [''message_id'', ''schema_version'', ''seq'', ''kind'', ''body'', ''metadata'',
         ''sender_agent_id'', ''created_at''] messageEntitySchema)),
      (''next_seq'', nonNegativeIntSchema), (''has_more'', ZBoolean)]"

definition ackReadInputSchema :: zod where
  "ackReadInputSchema = ZObject
     [(''thread_id'', nonEmptyStringSchema), (''agent_id'', ZOptional nonEmptyStringSchema),
      (''last_read_seq'', nonNegativeIntSchema)]"

definition ackReadOutputSchema :: zod where
  "ackReadOutputSchema = ZObject [(''ok'', ZLiteral (JBool True)), (''updated_at'', isoDatetimeSchema)]"

end
