(* ===== verification/ProtocolInputs.thy ===== *)
theory ProtocolInputs
  imports Protocol
begin

text \<open>
  The parsers of the nine methods: the schema, then the fields that the handler reads of the parsed
  value. What a method accepts is what its \<open>..._ok\<close> says of the payload: texts are trimmed and not
  blank, numbers are in their range, defaults are filled in.
\<close>

section \<open>What the handlers read\<close>

text \<open>A value of an enumeration, by its text.\<close>

definition choice_of :: "(string \<times> 'a) list \<Rightarrow> json option \<Rightarrow> 'a" where
  "choice_of table x = (case map_of table (text_of x) of None \<Rightarrow> snd (hd table) | Some v \<Rightarrow> v)"

definition thread_types :: "(string \<times> thread_type) list" where
  "thread_types = [(''conversation'', Conversation), (''workflow'', Workflow), (''incident'', Incident)]"

definition thread_statuses :: "(string \<times> thread_status) list" where
  "thread_statuses = map (\<lambda>s. (status_text s, s)) [Active, Blocked, Resolved, Closed]"

definition message_kinds :: "(string \<times> message_kind) list" where
  "message_kinds = [(''chat'', Chat), (''event'', Event), (''system'', System)]"

definition management_modes :: "(string \<times> management_mode) list" where
  "management_modes = [(''managed'', Managed), (''unmanaged'', Unmanaged)]"

definition session_statuses :: "(string \<times> session_status) list" where
  "session_statuses = [(''active'', SActive), (''idle'', SIdle), (''offline'', SOffline)]"

definition create_thread_payload_of :: "json \<Rightarrow> create_thread_payload" where
  "create_thread_payload_of input =
     \<lparr>pc_workspace_id = text_of (member input ''workspace_id''), pc_title = text_of (member input ''title''),
      pc_type = choice_of thread_types (member input ''type''),
      pc_participants = texts_of (member input ''participants''),
      pc_created_by = text_option (member input ''created_by'')\<rparr>"

definition update_status_payload_of :: "json \<Rightarrow> update_status_payload" where
  "update_status_payload_of input =
     \<lparr>pu_thread_id = text_of (member input ''thread_id''), pu_agent_id = text_option (member input ''agent_id''),
      pu_status = choice_of thread_statuses (member input ''status''), pu_reason = text_of (member input ''reason''),
      pu_metadata = member input ''metadata''\<rparr>"

definition summarize_payload_of :: "json \<Rightarrow> summarize_payload" where
  "summarize_payload_of input =
     \<lparr>pz_thread_id = text_of (member input ''thread_id''), pz_max_messages = int_of (member input ''max_messages'')\<rparr>"

definition heartbeat_payload_of :: "json \<Rightarrow> heartbeat_payload" where
  "heartbeat_payload_of input =
     \<lparr>ph_agent_id = text_option (member input ''agent_id''), ph_workspace_id = text_option (member input ''workspace_id''),
      ph_session_id = text_of (member input ''session_id''), ph_runtime = text_of (member input ''runtime''),
      ph_management_mode = choice_of management_modes (member input ''management_mode''),
      ph_resumable = bool_of (member input ''resumable''),
      ph_status = choice_of session_statuses (member input ''status'')\<rparr>"

definition trigger_payload_of :: "json \<Rightarrow> trigger_payload" where
  "trigger_payload_of input =
     \<lparr>pt_thread_id = text_of (member input ''thread_id''), pt_target_agent_id = text_of (member input ''target_agent_id''),
      pt_reason = text_of (member input ''reason''), pt_trigger_prompt = text_of (member input ''trigger_prompt'')\<rparr>"

definition post_payload_of :: "json \<Rightarrow> post_payload" where
  "post_payload_of input =
     \<lparr>pp_thread_id = text_of (member input ''thread_id''), pp_schema_version = int_of (member input ''schema_version''),
      pp_sender_agent_id = text_option (member input ''sender_agent_id''),
      pp_sender_session_id = text_option (member input ''sender_session_id''),
      pp_kind = choice_of message_kinds (member input ''kind''), pp_body = text_of (member input ''body''),
      pp_metadata = member input ''metadata'', pp_in_reply_to = text_option (member input ''in_reply_to''),
      pp_idempotency_key = text_option (member input ''idempotency_key'')\<rparr>"

definition read_payload_of :: "json \<Rightarrow> read_payload" where
  "read_payload_of input =
     \<lparr>pr_thread_id = text_of (member input ''thread_id''), pr_agent_id = text_option (member input ''agent_id''),
      pr_since_seq = int_of (member input ''since_seq''), pr_limit = int_of (member input ''limit'')\<rparr>"

definition ack_payload_of :: "json \<Rightarrow> ack_payload" where
  "ack_payload_of input =
     \<lparr>pa_thread_id = text_of (member input ''thread_id''), pa_agent_id = text_option (member input ''agent_id''),
      pa_last_read_seq = int_of (member input ''last_read_seq'')\<rparr>"

text \<open>\<open>schema.parse(payload)\<close> and the fields that are read of its result.\<close>

definition parsed ::
  "(zod \<Rightarrow> json option \<Rightarrow> string + json option) \<Rightarrow> zod \<Rightarrow> (json \<Rightarrow> 'a) \<Rightarrow> json \<Rightarrow> exn + 'a" where
  "parsed parse schema read payload =
     (case parse schema (Some payload) of
        Inl issues \<Rightarrow> Inl (ZodExn issues)
      | Inr v \<Rightarrow> Inr (read (case v of None \<Rightarrow> JNull | Some j \<Rightarrow> j)))"

definition protocol_schemas :: "(zod \<Rightarrow> json option \<Rightarrow> string + json option) \<Rightarrow> input_schemas" where
  "protocol_schemas parse =
     \<lparr>sc_createThread = parsed parse createThreadInputSchema create_thread_payload_of,
      sc_getThread = parsed parse getThreadInputSchema (\<lambda>input. text_of (member input ''thread_id'')),
      sc_updateThreadStatus = parsed parse updateThreadStatusInputSchema update_status_payload_of,
      sc_summarizeThread = parsed parse summarizeThreadInputSchema summarize_payload_of,
      sc_heartbeatSession = parsed parse heartbeatSessionInputSchema heartbeat_payload_of,
      sc_triggerParticipant = parsed parse triggerParticipantInputSchema trigger_payload_of,
      sc_postMessage = parsed parse postMessageInputSchema post_payload_of,
      sc_readMessages = parsed parse readMessagesInputSchema read_payload_of,
      sc_ackRead = parsed parse ackReadInputSchema ack_payload_of\<rparr>"

lemma parsed_Inr:
  "parsed parse schema read p = Inr input \<longleftrightarrow>
     (\<exists>v. parse schema (Some p) = Inr v \<and> input = read (case v of None \<Rightarrow> JNull | Some j \<Rightarrow> j))"
  by (auto simp: parsed_def split: sum.split)

section \<open>Payloads that are accepted\<close>

abbreviation normal_option :: "string option \<Rightarrow> bool" where
  "normal_option \<equiv> pred_option normal_string"

fun is_object :: "json \<Rightarrow> bool" where
  "is_object (JObject kvs) = True"
| "is_object _ = False"

lemma is_object_iff [simp]: "is_object j \<longleftrightarrow> (\<exists>kvs. j = JObject kvs)"
  by (cases j) simp_all

abbreviation object_option :: "json option \<Rightarrow> bool" where
  "object_option \<equiv> pred_option is_object"

definition create_thread_ok :: "create_thread_payload \<Rightarrow> bool" where
  "create_thread_ok i \<longleftrightarrow> normal_string (pc_workspace_id i) \<and> normal_string (pc_title i) \<and>
     pc_participants i \<noteq> [] \<and> (\<forall>p\<in>set (pc_participants i). normal_string p) \<and> normal_option (pc_created_by i)"

definition update_status_ok :: "update_status_payload \<Rightarrow> bool" where
  "update_status_ok i \<longleftrightarrow> normal_string (pu_thread_id i) \<and> normal_option (pu_agent_id i) \<and>
     normal_string (pu_reason i) \<and> object_option (pu_metadata i)"

definition summarize_ok :: "summarize_payload \<Rightarrow> bool" where
  "summarize_ok i \<longleftrightarrow> normal_string (pz_thread_id i) \<and> 0 < pz_max_messages i \<and> pz_max_messages i \<le> 1000"

definition heartbeat_ok :: "heartbeat_payload \<Rightarrow> bool" where
  "heartbeat_ok i \<longleftrightarrow> normal_option (ph_agent_id i) \<and> normal_option (ph_workspace_id i) \<and>
     normal_string (ph_session_id i) \<and> normal_string (ph_runtime i)"

definition trigger_ok :: "trigger_payload \<Rightarrow> bool" where
  "trigger_ok i \<longleftrightarrow> normal_string (pt_thread_id i) \<and> normal_string (pt_target_agent_id i) \<and>
     normal_string (pt_reason i) \<and> normal_string (pt_trigger_prompt i)"

definition post_ok :: "post_payload \<Rightarrow> bool" where
  "post_ok i \<longleftrightarrow> normal_string (pp_thread_id i) \<and> pp_schema_version i = CURRENT_MESSAGE_SCHEMA_VERSION \<and>
     normal_option (pp_sender_agent_id i) \<and> normal_option (pp_sender_session_id i) \<and> normal_string (pp_body i) \<and>
     object_option (pp_metadata i) \<and> normal_option (pp_in_reply_to i) \<and> normal_option (pp_idempotency_key i)"

definition read_ok :: "read_payload \<Rightarrow> bool" where
  "read_ok i \<longleftrightarrow> normal_string (pr_thread_id i) \<and> normal_option (pr_agent_id i) \<and>
     0 \<le> pr_since_seq i \<and> 0 < pr_limit i \<and> pr_limit i \<le> 200"

definition ack_ok :: "ack_payload \<Rightarrow> bool" where
  "ack_ok i \<longleftrightarrow> normal_string (pa_thread_id i) \<and> normal_option (pa_agent_id i) \<and> 0 \<le> pa_last_read_seq i"

lemmas payload_ok_defs = create_thread_ok_def update_status_ok_def summarize_ok_def heartbeat_ok_def
  trigger_ok_def post_ok_def read_ok_def ack_ok_def

context zod_library
begin

lemma leaf_schemas:
  "parse nonEmptyStringSchema x = Inr y \<longleftrightarrow> (\<exists>s. x = Some (JString s) \<and> trim s \<noteq> [] \<and> y = Some (JString (trim s)))"
  "parse nonNegativeIntSchema x = Inr y \<longleftrightarrow> y = x \<and> (\<exists>n. x = Some (JNumber (js_int n)) \<and> 0 \<le> n)"
  "parse positiveIntSchema x = Inr y \<longleftrightarrow> y = x \<and> (\<exists>n. x = Some (JNumber (js_int n)) \<and> 0 < n)"
  "parse (ZMax c positiveIntSchema) x = Inr y \<longleftrightarrow> y = x \<and> (\<exists>n. x = Some (JNumber (js_int n)) \<and> 0 < n \<and> n \<le> c)"
  by (auto simp: nonEmptyStringSchema_def nonNegativeIntSchema_def positiveIntSchema_def laws that_iff isInteger_iff
      less_eq_Suc_le [symmetric])

text \<open>What a field holds that was accepted.\<close>

lemma field_typed:
  "\<exists>x. parse nonEmptyStringSchema x = Inr y \<Longrightarrow> normal_string (text_of y)"
  "\<exists>x. parse (ZOptional nonEmptyStringSchema) x = Inr y \<Longrightarrow> normal_option (text_option y)"
  "\<exists>x. parse (ZOptional (ZRecord ZUnknown)) x = Inr y \<Longrightarrow> object_option y"
  "\<exists>x. parse messageSchemaVersionSchema x = Inr y \<Longrightarrow> int_of y = CURRENT_MESSAGE_SCHEMA_VERSION"
  "\<exists>x. parse nonNegativeIntSchema x = Inr y \<Longrightarrow> 0 \<le> int_of y"
  "\<exists>x. parse (ZDefault (JNumber (js_int d)) (ZOptional nonNegativeIntSchema)) x = Inr y \<Longrightarrow> 0 \<le> int_of y"
  "\<exists>x. parse (ZDefault (JNumber (js_int d)) (ZOptional (ZMax c positiveIntSchema))) x = Inr y \<Longrightarrow>
     0 < int_of y \<and> int_of y \<le> c"
  by (auto simp: leaf_schemas optional_Inr default_Inr records messageSchemaVersionSchema_def literal)

lemma participants_typed:
  assumes "\<exists>x. parse (ZMinItems 1 (ZArray nonEmptyStringSchema)) x = Inr y"
  shows "texts_of y \<noteq> [] \<and> (\<forall>s\<in>set (texts_of y). normal_string s)"
proof -
  from assms obtain js ys where y: "y = Some (JArray ys)" "1 \<le> length ys"
    and ys: "list_all2 (\<lambda>j v. parse nonEmptyStringSchema (Some j) = Inr (Some v)) js ys"
    by (auto simp: min_items array that_iff)
  have "\<exists>x. parse nonEmptyStringSchema x = Inr (Some v)" if "v \<in> set ys" for v
    using ys that by (auto simp: list_all2_conv_all_nth in_set_conv_nth)
  with field_typed(1) y show ?thesis by auto
qed

text \<open>What is accepted is as the handlers expect it.\<close>

lemma create_thread_sound:
  assumes "parse createThreadInputSchema (Some p) = Inr v"
  shows "create_thread_ok (create_thread_payload_of (case v of None \<Rightarrow> JNull | Some j \<Rightarrow> j))"
proof -
  note f = object_field [OF assms [unfolded createThreadInputSchema_def]]
  note participants = participants_typed [OF f [of "''participants''"], simplified]
  show ?thesis
    unfolding create_thread_ok_def create_thread_payload_of_def create_thread_payload.simps
    by (intro conjI field_typed f participants [THEN conjunct1] participants [THEN conjunct2]) simp_all
qed

lemma get_thread_sound:
  assumes "parse getThreadInputSchema (Some p) = Inr v"
  shows "normal_string (text_of (member (case v of None \<Rightarrow> JNull | Some j \<Rightarrow> j) ''thread_id''))"
proof -
  note f = object_field [OF assms [unfolded getThreadInputSchema_def]]
  show ?thesis
    by (intro conjI field_typed f) simp_all
qed

lemma update_status_sound:
  assumes "parse updateThreadStatusInputSchema (Some p) = Inr v"
  shows "update_status_ok (update_status_payload_of (case v of None \<Rightarrow> JNull | Some j \<Rightarrow> j))"
proof -
  note f = object_field [OF assms [unfolded updateThreadStatusInputSchema_def]]
  show ?thesis
    unfolding update_status_ok_def update_status_payload_of_def update_status_payload.simps
    by (intro conjI field_typed f) simp_all
qed

lemma summarize_sound:
  assumes "parse summarizeThreadInputSchema (Some p) = Inr v"
  shows "summarize_ok (summarize_payload_of (case v of None \<Rightarrow> JNull | Some j \<Rightarrow> j))"
proof -
  note f = object_field [OF assms [unfolded summarizeThreadInputSchema_def]]
  note n = field_typed(7) [where d = 200 and c = 1000, OF f [of "''max_messages''"], simplified]
  show ?thesis
    unfolding summarize_ok_def summarize_payload_of_def summarize_payload.simps
    by (intro conjI field_typed(1) f n [THEN conjunct1] n [THEN conjunct2]) simp_all
qed

lemma heartbeat_sound:
  assumes "parse heartbeatSessionInputSchema (Some p) = Inr v"
  shows "heartbeat_ok (heartbeat_payload_of (case v of None \<Rightarrow> JNull | Some j \<Rightarrow> j))"
proof -
  note f = object_field [OF assms [unfolded heartbeatSessionInputSchema_def]]
  show ?thesis
    unfolding heartbeat_ok_def heartbeat_payload_of_def heartbeat_payload.simps
    by (intro conjI field_typed f) simp_all
qed

lemma trigger_sound:
  assumes "parse triggerParticipantInputSchema (Some p) = Inr v"
  shows "trigger_ok (trigger_payload_of (case v of None \<Rightarrow> JNull | Some j \<Rightarrow> j))"
proof -
  note f = object_field [OF assms [unfolded triggerParticipantInputSchema_def]]
  show ?thesis
    unfolding trigger_ok_def trigger_payload_of_def trigger_payload.simps
    by (intro conjI field_typed f) simp_all
qed

lemma post_sound:
  assumes "parse postMessageInputSchema (Some p) = Inr v"
  shows "post_ok (post_payload_of (case v of None \<Rightarrow> JNull | Some j \<Rightarrow> j))"
proof -
  note f = object_field [OF assms [unfolded postMessageInputSchema_def]]
  show ?thesis
    unfolding post_ok_def post_payload_of_def post_payload.simps
    by (intro conjI field_typed f) (simp_all add: metadataSchema_def)
qed

lemma read_sound:
  assumes "parse readMessagesInputSchema (Some p) = Inr v"
  shows "read_ok (read_payload_of (case v of None \<Rightarrow> JNull | Some j \<Rightarrow> j))"
proof -
  note f = object_field [OF assms [unfolded readMessagesInputSchema_def pageSinceSeqSchema_def paginationLimitSchema_def]]
  note n = field_typed(7) [where d = 50 and c = 200, OF f [of "''limit''"], simplified]
    field_typed(6) [where d = 0, OF f [of "''since_seq''"], simplified]
  show ?thesis
    unfolding read_ok_def read_payload_of_def read_payload.simps
    by (intro conjI field_typed(1,2) f n(1) [THEN conjunct1] n(1) [THEN conjunct2] n(2)) simp_all
qed

lemma ack_sound:
  assumes "parse ackReadInputSchema (Some p) = Inr v"
  shows "ack_ok (ack_payload_of (case v of None \<Rightarrow> JNull | Some j \<Rightarrow> j))"
proof -
  note f = object_field [OF assms [unfolded ackReadInputSchema_def]]
  show ?thesis
    unfolding ack_ok_def ack_payload_of_def ack_payload.simps
    by (intro conjI field_typed f) simp_all
qed

lemmas sound = create_thread_sound get_thread_sound update_status_sound summarize_sound heartbeat_sound trigger_sound
  post_sound read_sound ack_sound

end

section \<open>Accepted payloads and the checks of the domain\<close>

lemma map_trim_normal: "\<forall>s\<in>set ss. normal_string s \<Longrightarrow> map trim ss = ss"
  by (induction ss) (simp_all add: normal_string_def)

lemma created_after_validation:
  assumes "create_thread_ok a" "trim tid \<noteq> []"
  shows "isl (createThread now \<lparr>ct_threadId = tid, ct_workspaceId = pc_workspace_id a, ct_title = pc_title a,
     ct_type = pc_type a, ct_participants = pc_participants a, ct_createdAt = Some (At t), ct_status = None\<rparr>) =
   (\<not> distinct (pc_participants a))" (is "isl ?r = _")
proof -
  have "(\<exists>th. ?r = Inr th) \<longleftrightarrow> distinct (pc_participants a)"
    using assms map_trim_normal [of "pc_participants a"]
    by (auto simp: createThread_Inr_iff create_thread_ok_def normal_string_def)
  then show ?thesis by (cases ?r) auto
qed

lemma posted_after_validation:
  assumes "post_ok f" "normal_string (ac_agentId c)" "normal_string (ac_sessionId c)" "trim (''msg_'' @ newId) \<noteq> []" "0 < n"
  shows "\<exists>m. createMessage now (post_input c f newId n t) = Inr m \<and> ms_body m = pp_body f \<and> ms_metadata m = pp_metadata f \<and>
     ms_inReplyTo m = pp_in_reply_to f \<and> ms_idempotencyKey m = pp_idempotency_key f"
proof -
  have opt: "map_option trim x = x \<and> (\<forall>s. x = Some s \<longrightarrow> trim s \<noteq> [])" if "normal_option x" for x
    using that by (cases x) (auto simp: normal_string_def)
  have meta: "normalizeMetadata x = Inr x" if "object_option x" for x
    using that by (cases x) auto
  show ?thesis
    using assms opt [of "pp_in_reply_to f"] opt [of "pp_idempotency_key f"] meta [of "pp_metadata f"]
    by (auto simp: createMessage_def post_input_def post_ok_def normal_string_def CURRENT_MESSAGE_SCHEMA_VERSION_def)
qed

lemma heartbeat_after_validation:
  assumes "heartbeat_ok d" "normal_string (ac_agentId c)" "normal_string (ac_workspaceId c)"
  shows "\<exists>s. createSessionFromHeartbeat now
     \<lparr>hb_agentId = ac_agentId c, hb_workspaceId = ac_workspaceId c, hb_sessionId = ph_session_id d,
      hb_runtime = ph_runtime d, hb_managementMode = ph_management_mode d, hb_resumable = ph_resumable d,
      hb_status = ph_status d, hb_heartbeatAt = Some (At t)\<rparr> = Inr s"
  using assms by (auto simp: createSessionFromHeartbeat_def heartbeat_ok_def normal_string_def)

lemma participant_after_validation:
  "trigger_ok e \<Longrightarrow>
     isThreadParticipant th (pt_target_agent_id e) = Inr (pt_target_agent_id e \<in> set (th_participants th))"
  by (simp add: isThreadParticipant_def trigger_ok_def normal_string_def)

lemma acknowledged_after_validation:
  assumes "ack_ok h"
  shows "isl (acknowledgeRead now cu \<lparr>ak_lastReadSeq = js_int (pa_last_read_seq h), ak_lastAckedMessageId = None,
     ak_updatedAt = Some (At t)\<rparr>) = (pa_last_read_seq h < cu_lastReadSeq cu)"
  using acknowledgeRead_forward [of cu "pa_last_read_seq h" now t] assms
    acknowledgeRead_regression [of "pa_last_read_seq h" cu
      "\<lparr>ak_lastReadSeq = js_int (pa_last_read_seq h), ak_lastAckedMessageId = None, ak_updatedAt = Some (At t)\<rparr>" now]
  by (cases "pa_last_read_seq h < cu_lastReadSeq cu") (auto simp: ack_ok_def)

section \<open>Requests as they are sent\<close>

definition choice_text :: "(string \<times> 'a) list \<Rightarrow> 'a \<Rightarrow> string" where
  "choice_text table v = (case find (\<lambda>c. snd c = v) table of None \<Rightarrow> [] | Some c \<Rightarrow> fst c)"

lemmas choice_defs = thread_types_def thread_statuses_def message_kinds_def management_modes_def session_statuses_def

lemma choice_mem:
  "choice_text thread_types a \<in> {''conversation'', ''workflow'', ''incident''}"
  "choice_text thread_statuses b \<in> {''active'', ''blocked'', ''resolved'', ''closed''}"
  "choice_text message_kinds c \<in> {''chat'', ''event'', ''system''}"
  "choice_text management_modes d \<in> {''managed'', ''unmanaged''}"
  "choice_text session_statuses e \<in> {''active'', ''idle'', ''offline''}"
  by ((cases a; simp add: choice_text_def choice_defs), (cases b; simp add: choice_text_def choice_defs),
    (cases c; simp add: choice_text_def choice_defs), (cases d; simp add: choice_text_def choice_defs),
    (cases e; simp add: choice_text_def choice_defs))

lemma choice_inverse [simp]:
  "choice_of thread_types (Some (JString (choice_text thread_types a))) = a"
  "choice_of thread_statuses (Some (JString (choice_text thread_statuses b))) = b"
  "choice_of message_kinds (Some (JString (choice_text message_kinds c))) = c"
  "choice_of management_modes (Some (JString (choice_text management_modes d))) = d"
  "choice_of session_statuses (Some (JString (choice_text session_statuses e))) = e"
  by ((cases a; simp add: choice_text_def choice_of_def choice_defs), (cases b; simp add: choice_text_def choice_of_def choice_defs),
    (cases c; simp add: choice_text_def choice_of_def choice_defs), (cases d; simp add: choice_text_def choice_of_def choice_defs),
    (cases e; simp add: choice_text_def choice_of_def choice_defs))

abbreviation text_json :: "string \<Rightarrow> json option" where
  "text_json s \<equiv> Some (JString s)"

abbreviation int_json :: "int \<Rightarrow> json option" where
  "int_json n \<equiv> Some (JNumber (js_int n))"

definition create_thread_json :: "create_thread_payload \<Rightarrow> json" where
  "create_thread_json i = JObject (present
     [(''workspace_id'', text_json (pc_workspace_id i)), (''title'', text_json (pc_title i)),
      (''type'', text_json (choice_text thread_types (pc_type i))),
      (''participants'', Some (JArray (map JString (pc_participants i)))),
      (''created_by'', map_option JString (pc_created_by i))])"

definition get_thread_json :: "string \<Rightarrow> json" where
  "get_thread_json i = JObject (present [(''thread_id'', text_json i)])"

definition update_status_json :: "update_status_payload \<Rightarrow> json" where
  "update_status_json i = JObject (present
     [(''thread_id'', text_json (pu_thread_id i)), (''agent_id'', map_option JString (pu_agent_id i)),
      (''status'', text_json (choice_text thread_statuses (pu_status i))), (''reason'', text_json (pu_reason i)),
      (''metadata'', pu_metadata i)])"

definition summarize_json :: "summarize_payload \<Rightarrow> json" where
  "summarize_json i = JObject (present
     [(''thread_id'', text_json (pz_thread_id i)), (''max_messages'', int_json (pz_max_messages i))])"

definition heartbeat_json :: "heartbeat_payload \<Rightarrow> json" where
  "heartbeat_json i = JObject (present
     [(''agent_id'', map_option JString (ph_agent_id i)), (''workspace_id'', map_option JString (ph_workspace_id i)),
      (''session_id'', text_json (ph_session_id i)), (''runtime'', text_json (ph_runtime i)),
      (''management_mode'', text_json (choice_text management_modes (ph_management_mode i))),
      (''resumable'', Some (JBool (ph_resumable i))),
      (''status'', text_json (choice_text session_statuses (ph_status i)))])"

definition trigger_json :: "trigger_payload \<Rightarrow> json" where
  "trigger_json i = JObject (present
     [(''thread_id'', text_json (pt_thread_id i)), (''target_agent_id'', text_json (pt_target_agent_id i)),
      (''reason'', text_json (pt_reason i)), (''trigger_prompt'', text_json (pt_trigger_prompt i))])"

definition post_json :: "post_payload \<Rightarrow> json" where
  "post_json i = JObject (present
     [(''thread_id'', text_json (pp_thread_id i)), (''schema_version'', int_json (pp_schema_version i)),
      (''sender_agent_id'', map_option JString (pp_sender_agent_id i)),
      (''sender_session_id'', map_option JString (pp_sender_session_id i)),
      (''kind'', text_json (choice_text message_kinds (pp_kind i))), (''body'', text_json (pp_body i)),
      (''metadata'', pp_metadata i), (''in_reply_to'', map_option JString (pp_in_reply_to i)),
      (''idempotency_key'', map_option JString (pp_idempotency_key i))])"

definition read_json :: "read_payload \<Rightarrow> json" where
  "read_json i = JObject (present
     [(''thread_id'', text_json (pr_thread_id i)), (''agent_id'', map_option JString (pr_agent_id i)),
      (''since_seq'', int_json (pr_since_seq i)), (''limit'', int_json (pr_limit i))])"

definition ack_json :: "ack_payload \<Rightarrow> json" where
  "ack_json i = JObject (present
     [(''thread_id'', text_json (pa_thread_id i)), (''agent_id'', map_option JString (pa_agent_id i)),
      (''last_read_seq'', int_json (pa_last_read_seq i))])"

lemmas request_json_defs = create_thread_json_def get_thread_json_def update_status_json_def summarize_json_def
  heartbeat_json_def trigger_json_def post_json_def read_json_def ack_json_def

lemma texts_of_JStrings [simp]: "texts_of (Some (JArray (map JString ss))) = ss"
  by (simp add: comp_def)

lemma text_option_map [simp]: "text_option (map_option JString t) = t"
  by (cases t) simp_all

text \<open>Reading gives what was written.\<close>

lemma read_request:
  "create_thread_payload_of (create_thread_json a) = a"
  "text_of (member (get_thread_json t) ''thread_id'') = t"
  "update_status_payload_of (update_status_json b) = b"
  "summarize_payload_of (summarize_json c) = c"
  "heartbeat_payload_of (heartbeat_json d) = d"
  "trigger_payload_of (trigger_json e) = e"
  "post_payload_of (post_json f) = f"
  "read_payload_of (read_json g) = g"
  "ack_payload_of (ack_json h) = h"
  by (simp_all add: request_json_defs map_of_present create_thread_payload_of_def update_status_payload_of_def
      summarize_payload_of_def heartbeat_payload_of_def trigger_payload_of_def post_payload_of_def
      read_payload_of_def ack_payload_of_def del: texts_of.simps)

context zod_library
begin

lemma leaf_accepts:
  "normal_string s \<Longrightarrow> parse nonEmptyStringSchema (text_json s) = Inr (text_json s)"
  "normal_option t \<Longrightarrow> parse (ZOptional nonEmptyStringSchema) (map_option JString t) = Inr (map_option JString t)"
  "object_option j \<Longrightarrow> parse (ZOptional (ZRecord ZUnknown)) j = Inr j"
  "0 \<le> n \<Longrightarrow> parse nonNegativeIntSchema (int_json n) = Inr (int_json n)"
  "0 < n \<Longrightarrow> parse positiveIntSchema (int_json n) = Inr (int_json n)"
  "0 < n \<Longrightarrow> n \<le> c \<Longrightarrow> parse (ZMax c positiveIntSchema) (int_json n) = Inr (int_json n)"
  "parse (ZDefault v (ZOptional z)) (Some x) = parse z (Some x)"
  "parse ZBoolean (Some (JBool b)) = Inr (Some (JBool b))"
  "parse messageSchemaVersionSchema (int_json CURRENT_MESSAGE_SCHEMA_VERSION) = Inr (int_json CURRENT_MESSAGE_SCHEMA_VERSION)"
  "s \<in> set vs \<Longrightarrow> parse (ZEnum vs) (text_json s) = Inr (text_json s)"
proof -
  show "parse (ZOptional nonEmptyStringSchema) (map_option JString t) = Inr (map_option JString t)" if "normal_option t"
    using that by (cases t) (auto simp: optional leaf_schemas normal_string_def)
  show "parse (ZOptional (ZRecord ZUnknown)) j = Inr j" if "object_option j"
    using that by (cases j) (auto simp: optional records unknown list_all2_same)
qed (auto simp: leaf_schemas normal_string_def optional default boolean literal enum messageSchemaVersionSchema_def)

lemma array_accepts:
  "(\<forall>s\<in>set ss. normal_string s) \<Longrightarrow>
     parse (ZArray nonEmptyStringSchema) (Some (JArray (map JString ss))) = Inr (Some (JArray (map JString ss)))"
  "ss \<noteq> [] \<Longrightarrow> (\<forall>s\<in>set ss. normal_string s) \<Longrightarrow>
     parse (ZMinItems (Suc 0) (ZArray nonEmptyStringSchema)) (Some (JArray (map JString ss))) = Inr (Some (JArray (map JString ss)))"
proof -
  show all: "parse (ZArray nonEmptyStringSchema) (Some (JArray (map JString ss))) = Inr (Some (JArray (map JString ss)))"
    if "\<forall>s\<in>set ss. normal_string s" for ss
    using that by (auto simp: array list_all2_map1 list_all2_map2 list_all2_same leaf_accepts(1))
  show "parse (ZMinItems (Suc 0) (ZArray nonEmptyStringSchema)) (Some (JArray (map JString ss))) = Inr (Some (JArray (map JString ss)))"
    if "ss \<noteq> []" "\<forall>s\<in>set ss. normal_string s"
    using that all [OF that(2)] by (cases ss) (simp_all add: min_items)
qed

lemma choice_accepts:
  "parse threadTypeSchema (text_json (choice_text thread_types a)) = Inr (text_json (choice_text thread_types a))"
  "parse threadStatusSchema (text_json (choice_text thread_statuses b)) = Inr (text_json (choice_text thread_statuses b))"
  "parse messageKindSchema (text_json (choice_text message_kinds c)) = Inr (text_json (choice_text message_kinds c))"
  "parse managementModeSchema (text_json (choice_text management_modes d)) = Inr (text_json (choice_text management_modes d))"
  "parse sessionStatusSchema (text_json (choice_text session_statuses e)) = Inr (text_json (choice_text session_statuses e))"
  unfolding threadTypeSchema_def threadStatusSchema_def messageKindSchema_def managementModeSchema_def sessionStatusSchema_def
  using choice_mem by (auto intro!: leaf_accepts(10))

lemmas accepts = leaf_accepts(1-9) array_accepts choice_accepts

lemma request_accepted:
  "create_thread_ok a \<Longrightarrow> parse createThreadInputSchema (Some (create_thread_json a)) = Inr (Some (create_thread_json a))"
  "normal_string t \<Longrightarrow> parse getThreadInputSchema (Some (get_thread_json t)) = Inr (Some (get_thread_json t))"
  "update_status_ok b \<Longrightarrow> parse updateThreadStatusInputSchema (Some (update_status_json b)) = Inr (Some (update_status_json b))"
  "summarize_ok c \<Longrightarrow> parse summarizeThreadInputSchema (Some (summarize_json c)) = Inr (Some (summarize_json c))"
  "heartbeat_ok d \<Longrightarrow> parse heartbeatSessionInputSchema (Some (heartbeat_json d)) = Inr (Some (heartbeat_json d))"
  "trigger_ok e \<Longrightarrow> parse triggerParticipantInputSchema (Some (trigger_json e)) = Inr (Some (trigger_json e))"
  "post_ok f \<Longrightarrow> parse postMessageInputSchema (Some (post_json f)) = Inr (Some (post_json f))"
  "read_ok g \<Longrightarrow> parse readMessagesInputSchema (Some (read_json g)) = Inr (Some (read_json g))"
  "ack_ok h \<Longrightarrow> parse ackReadInputSchema (Some (ack_json h)) = Inr (Some (ack_json h))"
  unfolding request_json_defs createThreadInputSchema_def getThreadInputSchema_def updateThreadStatusInputSchema_def
    summarizeThreadInputSchema_def heartbeatSessionInputSchema_def triggerParticipantInputSchema_def
    postMessageInputSchema_def readMessagesInputSchema_def ackReadInputSchema_def
    pageSinceSeqSchema_def paginationLimitSchema_def metadataSchema_def messageKindSchema_def [symmetric]
  by (rule object_same; simp add: accepts payload_ok_defs)+

end

end
