(* ===== verification/ProtocolOutputs.thy ===== *)
theory ProtocolOutputs
  imports ProtocolInputs BridgeSafety
begin

text \<open>
  The answers of the methods as they are sent (\<open>app.ts\<close>: \<open>threadRecordToProtocol\<close>,
  \<open>toPostMessageOutput\<close>, \<open>toTriggerParticipantOutput\<close> and the ends of the handlers), with the
  schema that checks each, and the error envelope. Dates are sent as \<open>toISOString\<close> writes them.
\<close>

section \<open>Answers\<close>

definition job_statuses :: "(string \<times> job_status) list" where
  "job_statuses = map (\<lambda>s. (job_status_text s, s))
     [Queued, Triggering, Deferred, Delivered, Timeout, Failed, FallbackResume, FallbackSpawn]"

definition date_json :: "int \<Rightarrow> json option" where
  "date_json t = Some (JString (toISOString t))"

definition read_message_json :: "read_message \<Rightarrow> json" where
  "read_message_json m = JObject (present
     [(''message_id'', text_json (rm_message_id m)), (''schema_version'', int_json (rm_schema_version m)),
      (''seq'', int_json (rm_seq m)), (''sender_agent_id'', text_json (rm_sender_agent_id m)),
      (''kind'', text_json (choice_text message_kinds (rm_kind m))), (''body'', text_json (rm_body m)),
      (''metadata'', rm_metadata m), (''created_at'', date_json (rm_created_at m))])"

fun output_schema :: "mcp_output \<Rightarrow> zod" where
  "output_schema (CreateThreadOutput i s t) = createThreadOutputSchema"
| "output_schema (GetThreadOutput th) = getThreadOutputSchema"
| "output_schema (UpdateThreadStatusOutput i s t) = updateThreadStatusOutputSchema"
| "output_schema (SummarizeThreadOutput x items s) = summarizeThreadOutputSchema"
| "output_schema (HeartbeatOutput t) = heartbeatSessionOutputSchema"
| "output_schema (TriggerOutput out) = triggerParticipantOutputSchema"
| "output_schema (PostMessageOutput i n s t) = postMessageOutputSchema"
| "output_schema (ReadMessagesOutput ms n b) = readMessagesOutputSchema"
| "output_schema (AckReadOutput t) = ackReadOutputSchema"
| "output_schema (ForeignOutput v) = ZUnknown"

fun output_json :: "mcp_output \<Rightarrow> json" where
  "output_json (CreateThreadOutput threadId status createdAt) = JObject (present
     [(''thread_id'', text_json threadId), (''status'', text_json (choice_text thread_statuses status)),
      (''created_at'', date_json createdAt)])"
| "output_json (GetThreadOutput th) = JObject (present
     [(''thread_id'', text_json (th_threadId th)), (''workspace_id'', text_json (th_workspaceId th)),
      (''title'', text_json (th_title th)), (''type'', text_json (choice_text thread_types (th_type th))),
      (''status'', text_json (choice_text thread_statuses (th_status th))),
      (''participants'', Some (JArray (map JString (th_participants th)))),
      (''created_at'', date_json (th_createdAt th)), (''updated_at'', date_json (th_updatedAt th))])"
| "output_json (UpdateThreadStatusOutput threadId status updatedAt) = JObject (present
     [(''thread_id'', text_json threadId), (''status'', text_json (choice_text thread_statuses status)),
      (''updated_at'', date_json updatedAt)])"
| "output_json (SummarizeThreadOutput summary items lastStatus) = JObject (present
     [(''summary'', text_json summary), (''open_items'', Some (JArray (map JString items))),
      (''last_status'', text_json (choice_text thread_statuses lastStatus))])"
| "output_json (HeartbeatOutput recordedAt) = JObject (present
     [(''ok'', Some (JBool True)), (''recorded_at'', date_json recordedAt)])"
| "output_json (TriggerOutput out) = JObject (present
     [(''trigger_id'', text_json (to_trigger_id out)), (''target_agent_id'', text_json (to_target_agent_id out)),
      (''action'', text_json (action_text (to_action out))), (''result'', text_json (result_text (to_result out))),
      (''job_status'', text_json (choice_text job_statuses (to_job_status out))),
      (''fallback_action'', map_option (\<lambda>a. JString (fallback_text a)) (to_fallback_action out)),
      (''target_session_id'', map_option JString (to_target_session_id out)),
      (''runtime'', map_option JString (to_runtime out)),
      (''management_mode'', map_option (\<lambda>m. JString (choice_text management_modes m)) (to_management_mode out)),
      (''session_status'', map_option (\<lambda>s. JString (choice_text session_statuses s)) (to_session_status out)),
      (''stale_session'', Some (JBool (to_stale_session out))), (''triggered_at'', date_json (to_triggered_at out))])"
| "output_json (PostMessageOutput messageId seq threadStatus createdAt) = JObject (present
     [(''message_id'', text_json messageId), (''seq'', int_json seq),
      (''thread_status'', text_json (choice_text thread_statuses threadStatus)), (''created_at'', date_json createdAt)])"
| "output_json (ReadMessagesOutput ms nextSeq hasMore) = JObject (present
     [(''messages'', Some (JArray (map read_message_json ms))), (''next_seq'', int_json nextSeq),
      (''has_more'', Some (JBool hasMore))])"
| "output_json (AckReadOutput updatedAt) = JObject (present
     [(''ok'', Some (JBool True)), (''updated_at'', date_json updatedAt)])"
| "output_json (ForeignOutput v) = v"

text \<open>What a \<open>Date\<close> can be and still be written with a year of four digits.\<close>

definition date_ok :: "int \<Rightarrow> bool" where
  "date_ok t \<longleftrightarrow> 0 \<le> t \<and> t < 253402300800000"

definition read_message_ok :: "read_message \<Rightarrow> bool" where
  "read_message_ok m \<longleftrightarrow> normal_string (rm_message_id m) \<and> rm_schema_version m = CURRENT_MESSAGE_SCHEMA_VERSION \<and>
     0 < rm_seq m \<and> normal_string (rm_sender_agent_id m) \<and> normal_string (rm_body m) \<and>
     object_option (rm_metadata m) \<and> date_ok (rm_created_at m)"

fun output_ok :: "mcp_output \<Rightarrow> bool" where
  "output_ok (CreateThreadOutput i s t) = (normal_string i \<and> date_ok t)"
| "output_ok (GetThreadOutput th) = (wf_thread th \<and> date_ok (th_createdAt th) \<and> date_ok (th_updatedAt th))"
| "output_ok (UpdateThreadStatusOutput i s t) = (normal_string i \<and> date_ok t)"
| "output_ok (SummarizeThreadOutput x items s) = (normal_string x \<and> (\<forall>i\<in>set items. normal_string i))"
| "output_ok (HeartbeatOutput t) = date_ok t"
| "output_ok (TriggerOutput out) = (normal_string (to_trigger_id out) \<and> normal_string (to_target_agent_id out) \<and>
     normal_option (to_target_session_id out) \<and> normal_option (to_runtime out) \<and> date_ok (to_triggered_at out))"
| "output_ok (PostMessageOutput i n s t) = (normal_string i \<and> 0 < n \<and> date_ok t)"
| "output_ok (ReadMessagesOutput ms n b) = ((\<forall>m\<in>set ms. read_message_ok m) \<and> 0 \<le> n)"
| "output_ok (AckReadOutput t) = date_ok t"
| "output_ok (ForeignOutput v) = True"

lemma message_readable:
  "wf_message m \<Longrightarrow> ms_schemaVersion m = CURRENT_MESSAGE_SCHEMA_VERSION \<Longrightarrow> date_ok (ms_createdAt m) \<Longrightarrow>
     read_message_ok (toReadMessage m)"
  by (cases "ms_metadata m") (auto simp: read_message_ok_def toReadMessage_def wf_message_def)

section \<open>The error envelope\<close>

text \<open>The details, which are left out of the model, are a record or missing.\<close>

definition error_json :: "error_payload \<Rightarrow> json option \<Rightarrow> json" where
  "error_json e details = JObject (present
     [(''error'', Some (JObject (present
         [(''code'', text_json (error_code_text (ep_code e))), (''message'', text_json (ep_message e)),
          (''details'', details), (''retryable'', None)]))),
      (''request_id'', text_json (ep_request_id e)), (''occurred_at'', date_json (ep_occurred_at e))])"

context zod_library
begin

lemma date_accepts: "date_ok t \<Longrightarrow> parse isoDatetimeSchema (date_json t) = Inr (date_json t)"
  using iso_datetime by (simp add: isoDatetimeSchema_def datetime string date_json_def date_ok_def)

lemma enum_accepts:
  "parse triggerParticipantActionSchema (text_json (action_text a)) = Inr (text_json (action_text a))"
  "parse triggerParticipantResultSchema (text_json (result_text b)) = Inr (text_json (result_text b))"
  "parse triggerJobStatusSchema (text_json (choice_text job_statuses c)) = Inr (text_json (choice_text job_statuses c))"
  "parse protocolErrorCodeSchema (text_json (error_code_text d)) = Inr (text_json (error_code_text d))"
  unfolding triggerParticipantActionSchema_def triggerParticipantResultSchema_def triggerJobStatusSchema_def
    protocolErrorCodeSchema_def
  by ((cases a; simp add: leaf_accepts(10)), (cases b; simp add: leaf_accepts(10)),
    (cases c; simp add: choice_text_def job_statuses_def leaf_accepts(10)), (cases d; simp add: leaf_accepts(10)))

lemma optional_accepts:
  "(\<And>a. x = Some a \<Longrightarrow> parse z (Some (f a)) = Inr (Some (f a))) \<Longrightarrow>
     parse (ZOptional z) (map_option f x) = Inr (map_option f x)"
  by (cases x) (simp_all add: optional)

lemma fallback_accepts:
  "parse triggerParticipantFallbackActionSchema (text_json (fallback_text a)) = Inr (text_json (fallback_text a))"
  by (cases a) (simp_all add: triggerParticipantFallbackActionSchema_def leaf_accepts(10))

lemmas option_accepts = optional_accepts [OF fallback_accepts] optional_accepts [OF choice_accepts(4)]
  optional_accepts [OF choice_accepts(5)]

lemma ok_accepts: "parse (ZLiteral (JBool True)) (Some (JBool True)) = Inr (Some (JBool True))"
  by (simp add: literal)

lemma read_message_accepted:
  assumes "read_message_ok m"
  shows "parse (zod_pick [''message_id'', ''schema_version'', ''seq'', ''kind'', ''body'', ''metadata'',
         ''sender_agent_id'', ''created_at''] messageEntitySchema) (Some (read_message_json m)) = Inr (Some (read_message_json m))"
  unfolding messageEntitySchema_def zod_pick.simps read_message_json_def metadataSchema_def
  using assms by (simp add: object_same accepts date_accepts read_message_ok_def)

lemma output_accepted:
  assumes "output_ok out"
  shows "parse (output_schema out) (Some (output_json out)) = Inr (Some (output_json out))"
proof (cases out)
  case (ReadMessagesOutput ms n b)
  have "parse (ZArray (zod_pick [''message_id'', ''schema_version'', ''seq'', ''kind'', ''body'', ''metadata'',
         ''sender_agent_id'', ''created_at''] messageEntitySchema)) (Some (JArray (map read_message_json ms))) =
      Inr (Some (JArray (map read_message_json ms)))"
    using assms read_message_accepted ReadMessagesOutput
    by (auto simp: array list_all2_map1 list_all2_map2 list_all2_same)
  with assms ReadMessagesOutput show ?thesis
    by (simp add: readMessagesOutputSchema_def object_same accepts del: zod_pick.simps)
qed (use assms in \<open>simp_all add: createThreadOutputSchema_def getThreadOutputSchema_def threadEntitySchema_def
  updateThreadStatusOutputSchema_def summarizeThreadOutputSchema_def heartbeatSessionOutputSchema_def
  triggerParticipantOutputSchema_def postMessageOutputSchema_def ackReadOutputSchema_def
  object_same accepts date_accepts enum_accepts option_accepts ok_accepts wf_thread_def unknown\<close>)

text \<open>The envelope is accepted exactly if its message and its request id are not blank.\<close>

lemma error_accepted:
  assumes "date_ok (ep_occurred_at e)" "object_option details"
  shows "(\<exists>y. parse protocolErrorResponseSchema (Some (error_json e details)) = Inr y) \<longleftrightarrow>
     trim (ep_message e) \<noteq> [] \<and> trim (ep_request_id e) \<noteq> []"
proof -
  have blank: "(\<exists>y. parse nonEmptyStringSchema (text_json s) = Inr y) \<longleftrightarrow> trim s \<noteq> []" for s
    by (simp add: leaf_schemas)
  have optional: "parse (ZOptional z) (Some j) = parse z (Some j)" "parse (ZOptional z) None = Inr None" for z j
    by (simp_all add: optional)
  let ?inner = "JObject (present [(''code'', text_json (error_code_text (ep_code e))),
      (''message'', text_json (ep_message e)), (''details'', details), (''retryable'', None)])"
  have "(\<exists>y. parse protocolErrorSchema (Some ?inner) = Inr y) \<longleftrightarrow> trim (ep_message e) \<noteq> []"
    unfolding protocolErrorSchema_def object_accepts_iff
    using enum_accepts(4) leaf_accepts(3) [OF assms(2)] by (simp add: map_of_present blank optional(2))
  then show ?thesis
    unfolding protocolErrorResponseSchema_def error_json_def object_accepts_iff
    using date_accepts [OF assms(1)] by (simp add: map_of_present blank optional(1) date_json_def)
qed

end

end
