(* ===== verification/ProtocolProperties.thy ===== *)
theory ProtocolProperties
  imports ProtocolOutputs
begin

text \<open>
  The properties of the protocol: what the methods accept, that every valid request is accepted and
  read as it was meant, that a request that was accepted passes the checks of the domain, and
  that the answers pass their own schemas. They hold for every parser that keeps the laws of
  the library; the witnesses run \<open>zod_parse\<close>.
\<close>

abbreviation demo_parse :: "zod \<Rightarrow> json option \<Rightarrow> string + json option" where
  "demo_parse \<equiv> zod_parse datetime_text url_text"



definition demo_post_read :: post_payload where
  "demo_post_read = \<lparr>pp_thread_id = ''th'', pp_schema_version = 1, pp_sender_agent_id = None, pp_sender_session_id = None,
     pp_kind = Event, pp_body = ''done'', pp_metadata = None, pp_in_reply_to = None, pp_idempotency_key = None\<rparr>"



text \<open>C28: a request that is valid is accepted, and the handler reads what was sent.\<close>

theorem protocol_requests_round_trip:
  assumes "zod_library parse is_datetime is_url"
  shows "(create_thread_ok a \<longrightarrow> sc_createThread (protocol_schemas parse) (create_thread_json a) = Inr a) \<and>
    (normal_string tid \<longrightarrow> sc_getThread (protocol_schemas parse) (get_thread_json tid) = Inr tid) \<and>
    (update_status_ok b \<longrightarrow> sc_updateThreadStatus (protocol_schemas parse) (update_status_json b) = Inr b) \<and>
    (summarize_ok c \<longrightarrow> sc_summarizeThread (protocol_schemas parse) (summarize_json c) = Inr c) \<and>
    (heartbeat_ok d \<longrightarrow> sc_heartbeatSession (protocol_schemas parse) (heartbeat_json d) = Inr d) \<and>
    (trigger_ok e \<longrightarrow> sc_triggerParticipant (protocol_schemas parse) (trigger_json e) = Inr e) \<and>
    (post_ok f \<longrightarrow> sc_postMessage (protocol_schemas parse) (post_json f) = Inr f) \<and>
    (read_ok g \<longrightarrow> sc_readMessages (protocol_schemas parse) (read_json g) = Inr g) \<and>
    (ack_ok h \<longrightarrow> sc_ackRead (protocol_schemas parse) (ack_json h) = Inr h)"
  using zod_library.request_accepted [OF assms]
  by (intro conjI impI) (simp_all add: protocol_schemas_def parsed_def read_request)

theorem protocol_requests_round_trip_witness:
  "sc_postMessage (protocol_schemas demo_parse) (post_json demo_post_read) = Inr demo_post_read"
proof -
  have "normal_string ''th''" "normal_string ''done''" by code_simp+
  then have "post_ok demo_post_read" by (simp add: post_ok_def demo_post_read_def CURRENT_MESSAGE_SCHEMA_VERSION_def)
  with protocol_requests_round_trip [OF zod_parser.zod_library_axioms] show ?thesis by blast
qed




section \<open>Answers\<close>

text \<open>C29: an answer made of well-formed data, with dates up to the year 9999, passes the schema of its
  method and is sent unchanged; a page of well-formed messages does; and the error envelope
  passes its schema exactly if the message of the error and the id of the request are not blank.\<close>

theorem answers_pass_their_schemas:
  assumes "zod_library parse is_datetime is_url"
  shows "(output_ok out \<longrightarrow> parse (output_schema out) (Some (output_json out)) = Inr (Some (output_json out))) \<and>
    ((\<forall>m\<in>set ms. wf_message m \<and> ms_schemaVersion m = CURRENT_MESSAGE_SCHEMA_VERSION \<and> date_ok (ms_createdAt m)) \<and> 0 \<le> n \<longrightarrow>
      (let page = ReadMessagesOutput (map toReadMessage ms) n hasMore
       in parse readMessagesOutputSchema (Some (output_json page)) = Inr (Some (output_json page)))) \<and>
    (date_ok (ep_occurred_at e) \<and> object_option details \<longrightarrow>
      (\<exists>y. parse protocolErrorResponseSchema (Some (error_json e details)) = Inr y) =
      (trim (ep_message e) \<noteq> [] \<and> trim (ep_request_id e) \<noteq> []))"
proof -
  have page: "output_ok (ReadMessagesOutput (map toReadMessage ms) n hasMore)"
    if "\<forall>m\<in>set ms. wf_message m \<and> ms_schemaVersion m = CURRENT_MESSAGE_SCHEMA_VERSION \<and> date_ok (ms_createdAt m)" "0 \<le> n"
    using that message_readable by simp
  show ?thesis
    unfolding Let_def
    using zod_library.output_accepted [OF assms, of out] zod_library.output_accepted [OF assms page, simplified output_schema.simps]
      zod_library.error_accepted [OF assms, of e details] by blast
qed

theorem answers_pass_their_schemas_witness:
  "demo_parse createThreadOutputSchema (Some (output_json (CreateThreadOutput ''th'' Active 5))) =
     Inr (Some (output_json (CreateThreadOutput ''th'' Active 5))) \<and>
   (\<nexists>y. demo_parse protocolErrorResponseSchema (Some (error_json \<lparr>ep_code = P_INTERNAL, ep_message = '' '',
      ep_request_id = ''r'', ep_occurred_at = 5\<rparr> None)) = Inr y)"
proof -
  let ?e = "\<lparr>ep_code = P_INTERNAL, ep_message = '' '', ep_request_id = ''r'', ep_occurred_at = 5\<rparr>"
  have ok: "output_ok (CreateThreadOutput ''th'' Active 5)" "date_ok (ep_occurred_at ?e)" "trim (ep_message ?e) = []"
    by code_simp+
  note a = answers_pass_their_schemas [OF zod_parser.zod_library_axioms, where out = "CreateThreadOutput ''th'' Active 5"
      and e = ?e and details = None]
  from a [THEN conjunct1] ok(1) have "demo_parse createThreadOutputSchema (Some (output_json (CreateThreadOutput ''th'' Active 5))) =
     Inr (Some (output_json (CreateThreadOutput ''th'' Active 5)))" unfolding output_schema.simps by blast
  moreover have "object_option None" by simp
  ultimately show ?thesis using a [THEN conjunct2, THEN conjunct2] ok(2,3) by blast
qed

end
