(* ===== verification/ConfigProperties.thy ===== *)
theory ConfigProperties
  imports Config
begin

text \<open>
  The property of the configuration: settings that are loaded can be worked with, and those of the
  worker can be given. It holds for every parser that keeps the laws of the library.
\<close>

text \<open>C30: a configuration that is loaded has positive limits, times and counts and the texts that are
  needed, so the premise of the properties of a tick on the age of sessions holds; and settings of
  the worker that are written into the environment are loaded as they are.\<close>

theorem configuration_loads:
  assumes "zod_library parse is_datetime is_url"
  shows "(loadSupervisorWorkerConfig parse env = Inr s \<longrightarrow> worker_settings_ok s) \<and>
    (loadBridgeApiConfig parse env = Inr b \<longrightarrow> bridge_settings_ok b) \<and>
    (loadOperatorCliConfig parse env = Inr c \<longrightarrow> operator_config_ok c) \<and>
    (worker_settings_ok t \<and> is_url databaseUrl \<and> is_url jwksUrl \<and> issuer \<noteq> [] \<and>
     list_all (\<lambda>n. n < 2 ^ 53) [TRIGGER_QUIET_WINDOW_MS t, TRIGGER_RECHECK_MS t, TRIGGER_MAX_DEFER_MS t,
       TRIGGER_RESUME_MAX_ATTEMPTS t, SESSION_STALE_AFTER_HOURS t, LOOP_MAX_REPEATED_FINDINGS t,
       TRIGGER_RATE_LIMIT_PER_MINUTE t, LOOP_MAX_TURNS t, WORKER_MAX_PARALLEL_JOBS t] \<longrightarrow>
     loadSupervisorWorkerConfig parse (JObject (present
       (required_env (WORKSPACE_ID t) databaseUrl jwksUrl issuer @ worker_env t))) = Inr t)"
  using zod_library.worker_config_sound [OF assms] zod_library.bridge_config_sound [OF assms]
    zod_library.operator_config_sound [OF assms] zod_library.worker_config_loads [OF assms] by blast

definition default_settings :: worker_settings where
  "default_settings =
     \<lparr>TRIGGER_QUIET_WINDOW_MS = 20000, TRIGGER_RECHECK_MS = 5000, TRIGGER_MAX_DEFER_MS = 60000,
      TRIGGER_RESUME_MAX_ATTEMPTS = 2, SESSION_STALE_AFTER_HOURS = 12, LOOP_MAX_REPEATED_FINDINGS = 3,
      TRIGGER_RATE_LIMIT_PER_MINUTE = 10, LOOP_MAX_TURNS = 20, WORKSPACE_ID = ''w'',
      WORKER_MAX_PARALLEL_JOBS = 10\<rparr>"

abbreviation demo_required :: "(string \<times> json option) list" where
  "demo_required \<equiv> required_env ''w'' ''postgres://db'' ''https://keys'' ''issuer''"

theorem configuration_loads_witness:
  "worker_settings_ok default_settings \<and>
   loadSupervisorWorkerConfig (zod_parse datetime_text url_text)
     (JObject (present (demo_required @ worker_env default_settings))) = Inr default_settings"
proof -
  note c = configuration_loads [OF zod_parser.zod_library_axioms]
  have ok: "worker_settings_ok default_settings" by (simp add: worker_settings_ok_def default_settings_def)
  have urls: "url_text ''postgres://db''" "url_text ''https://keys''" "WORKSPACE_ID default_settings = ''w''" by code_simp+
  have small: "list_all (\<lambda>n. n < 2 ^ 53) [TRIGGER_QUIET_WINDOW_MS default_settings, TRIGGER_RECHECK_MS default_settings,
       TRIGGER_MAX_DEFER_MS default_settings, TRIGGER_RESUME_MAX_ATTEMPTS default_settings,
       SESSION_STALE_AFTER_HOURS default_settings, LOOP_MAX_REPEATED_FINDINGS default_settings,
       TRIGGER_RATE_LIMIT_PER_MINUTE default_settings, LOOP_MAX_TURNS default_settings,
       WORKER_MAX_PARALLEL_JOBS default_settings]" by (simp add: default_settings_def)
  have "loadSupervisorWorkerConfig (zod_parse datetime_text url_text)
     (JObject (present (demo_required @ worker_env default_settings))) = Inr default_settings"
    using c [where t = default_settings and databaseUrl = "''postgres://db''" and jwksUrl = "''https://keys''"
        and issuer = "''issuer''", THEN conjunct2, THEN conjunct2, THEN conjunct2] ok urls small by simp
  with ok show ?thesis by blast
qed

end
