(* ===== verification/Spec2Isabelle.thy ===== *)
theory Spec2Isabelle
  imports DomainThread DomainMessage DomainSession BridgeHttp BridgeProperties CoreProperties
    WorkerProperties DeliveryProperties TickProperties WorkerTick DbProperties OperatorProperties
    ProtocolProperties ConfigProperties
begin

text \<open>
  Orkiva lets coding agents talk to each other in threads. A \<^emph>\<open>bridge\<close> (an HTTP server,
  \<open>apps/bridge-api\<close>) keeps the threads, their messages, the read cursors of the participants and
  the sessions of the agents, behind nine methods that an agent calls with a bearer token. A
  \<^emph>\<open>supervisor worker\<close> (\<open>apps/supervisor-worker\<close>) runs in ticks: it looks for participants with
  unread messages, takes stale runtimes offline, and works off the queue of trigger jobs that
  the bridge records, by typing a prompt into the tmux pane of the agent or, if that cannot be
  done, by resuming or spawning a session. An \<^emph>\<open>operator\<close> (\<open>apps/operator-cli\<close>) inspects threads
  and overrides their status from a command line. All three work on one database
  (\<open>packages/db\<close>) and share the rules of \<open>packages/domain\<close> and \<open>packages/auth\<close>.

  \<^bold>\<open>How code becomes definitions.\<close> An asynchronous method is a function of the world that returns
  a value or throws and leaves a new world (type \<open>io\<close> of theory Prelude). An interface of
  TypeScript is a record of such functions. The private fields of an object are a part of the
  world, reached through a \<open>cell\<close>. Errors are values: \<open>domain_error\<close>, \<open>auth_error\<close>,
  \<open>bridge_error\<close>, and the sum \<open>exn\<close> of whatever can be thrown. A \<open>Map\<close> is an association list in
  insertion order. Numbers that the code only counts with are \<open>int\<close> or \<open>nat\<close>; where a check of
  the code looks at the kind of number (NaN, fractions, infinities) it is a \<open>js_number\<close>, and a
  date that may be invalid is a \<open>js_date\<close>. Counters stay far below \<open>2 ^ 53\<close>, so the rounding of
  large numbers is not modelled. A \<open>char\<close> is a UTF-16 code unit below 256.

  \<^bold>\<open>The theories.\<close>
  \<^item> Prelude: results, computations over a world, weakest preconditions (\<open>wp\<close>), preorders that
    computations stay in (\<open>stays\<close>), cells, maps, strings.
  \<^item> DomainCore, DomainThread, DomainMessage, DomainSession (\<open>packages/domain/src\<close>): the checks of
    arguments, threads and their transition table, messages, cursors, sessions and heartbeats.
  \<^item> Auth (\<open>packages/auth/src\<close>): claims, the two tables of permissions, the verifier of tokens.
    The library that checks signatures is a parameter.
  \<^item> Exceptions, TriggerJob: what the bridge and the worker share.
  \<^item> BridgeStores: the interfaces of the stores of the bridge and, as locales, the contracts its
    clients rely on. BridgeMemory: the in-memory stores, operation by operation, and the proof
    that they keep the contracts.
  \<^item> BridgeApp (\<open>app.ts\<close>, the nine handlers), BridgeHttp (\<open>app.ts\<close>, the request cycle: token,
    request id, dispatch, errors, audit).
  \<^item> BridgeSafety: what a handler may change, proved once for every store that keeps the
    contracts. BridgeInMemory: the bridge on its in-memory stores, where the locales are
    interpreted. BridgeProperties, CoreProperties: the properties.
  \<^item> TriggerQueue (\<open>trigger-queue.ts\<close>, the processor), TriggerQueueStore (its store: the contract
    \<open>trigger_queue_contract\<close> and the in-memory store), TriggerQueueSafety (the effect of a run on
    the jobs; the step relation \<open>job_step\<close> of the life of a job), TriggerSafeguards (rate limit,
    loop guard, backoff), TriggerLiveness (retries end). IsoDate: the text of a date.
  \<^item> RuntimeRegistry (\<open>runtime-registry.ts\<close>), PtyAdapter and TmuxAdapter (\<open>pty-adapter.ts\<close>,
    \<open>tmux-adapter.ts\<close>), RuntimeTriggerExecutor (\<open>runtime-trigger-executor.ts\<close>), RuntimeFallback
    (\<open>runtime-fallback.ts\<close>), UnreadReconciliation (\<open>unread-reconciliation.ts\<close>), WorkerLoop
    (\<open>worker-loop.ts\<close>).
  \<^item> WorkerInMemory: the worker wired as its \<open>main.ts\<close> wires it, on in-memory stores, with the
    interpretations. WorkerProperties, DeliveryProperties, TickProperties, WorkerTick: the
    properties.

  \<^item> Database (\<open>packages/db/src/schema.ts\<close>): the rows of the tables, their keys and unique
    indexes, the client as a record of statements (\<open>db_client\<close>), and as the locales
    \<open>db_table_contract\<close>, \<open>transaction_contract\<close> and \<open>database\<close> what the stores rely on: a failing
    statement changes nothing, unique indexes hold, a transaction that throws is rolled back.
    \<open>mem_client\<close> is a client that keeps this, so that the properties have witnesses.
  \<^item> DbThreads (\<open>DbThreadStore\<close>, \<open>DbAuditStore\<close>), DbSessions (\<open>DbSessionStore\<close>,
    \<open>DbRuntimeRegistryStore\<close>), DbTriggerQueue (\<open>DbTriggerQueueStore\<close>, \<open>DbTriggerStore\<close>), DbUnread
    (\<open>DbUnreadReconciliationSnapshotStore\<close>): the stores on that client, statement by statement, and
    the proofs that they keep the contracts of the clients of the stores.
  \<^item> DbConcurrency: the statements of several claims, interleaved, as the step relation \<open>claim_step\<close>.
    DbIntegrity: the types and keys of the rows under any calls. MainWorker (\<open>main.ts\<close> of the
    worker): the wiring and a tick over a database. MainProperties, DbProperties: the properties.
  \<^item> JsNumber (\<open>Number\<close> of a text), OperatorCommands (\<open>commands.ts\<close>), OperatorService
    (\<open>service.ts\<close>), OperatorMain (\<open>main.ts\<close>) of \<open>apps/operator-cli\<close>, and OperatorProperties.

  \<^item> Zod: the combinators of the schema library as data, and what the sources rely on of it as the
    locale \<open>zod_library\<close>, with a parser that keeps it. Protocol (\<open>packages/protocol/src/v1\<close>): every
    schema as it is written. ProtocolInputs, ProtocolOutputs: the parsers of the nine handlers, which
    are values of the record \<open>input_schemas\<close> that the bridge takes, and the answers as they are sent.
    Config (\<open>packages/shared/src/config/env.ts\<close>): the configuration. ProtocolProperties,
    ConfigProperties: the properties.

  \<^bold>\<open>The contracts.\<close> Each store is a locale over a view of the world (\<open>thread_store_contract\<close> and
  its siblings, \<open>trigger_queue_contract\<close>, \<open>runtime_registry_contract\<close>,
  \<open>unread_state_contract\<close>, \<open>operator_repository_contract\<close>). What the clients do is proved inside
  these locales and reaches the properties through their interpretations on the in-memory stores
  of the sources and, for every client of the database, through the theorems
  \<open>..._contract\<close> of the locale \<open>database\<close>. \<open>command_trace\<close> and \<open>traced_fallback\<close> state that
  running a command adds it to a trace; \<open>executor_frame\<close> and \<open>processing_frame\<close> derive from what
  single steps keep what a run keeps.

  \<^bold>\<open>What is shown.\<close> Of the bridge: an invariant of its data over all requests; that a request
  needs a token and stays in the workspace of the token; roles; what each method does, repeated
  posts included; that rejections are audited. Of the rules: the life cycle of a thread, the
  order independence of heartbeats, the agreement of the tables of permissions, when claims and
  tokens are accepted. Of the worker: claims, the life cycle of a job, the end of retries, rate
  limit, loop guard, backoff; which commands a delivery and a fallback run; the two
  reconciliations; and the composition of all of it in a tick, on the in-memory stores and as
  it is wired over a database. Of the stores on the database: that rows keep their types and
  keys, that what is written is read back, that status changes compare and set, that they agree
  with the in-memory ones or keep the same contract, and that claims whose statements interleave
  never take a job twice. Of the operator: which arguments give which command, what a command
  changes and leaves in the audit log, and why it is refused. Of the protocol: which payloads are
  accepted, that the domain then refuses them for two reasons only, and that answers pass their
  schemas. Of the configuration: that what is loaded can be worked with. \<open>retries_end\<close> and
  \<open>fallback_is_bounded\<close> are the statements that loops of retries end. The loops of the code
  itself are recursions on lists, and the attempts to resume a recursion on their number, so no
  fuel is used.

  \<^bold>\<open>Not modelled.\<close> The parser of the schema library and the texts of its issues, whose
  documented behaviour is the locale \<open>zod_library\<close>; the driver of the database and the builder
  of its queries, whose documented behaviour is the locale \<open>database\<close>; migrations, readiness and
  smoke test; logging and metrics, sockets, timers and signals; the benchmarks; the process that
  runs a command, which is a parameter. Queries that the code starts together (\<open>Promise.all\<close>) are
  run one after the other; they only read.
\<close>

end
